(* ===== verification/Prelude.thy ===== *)
theory Prelude
  imports Main "HOL-Library.Char_ord" "HOL-Library.List_Lexorder" "HOL-Library.AList"
    "HOL-Library.Multiset"
begin

text \<open>
  Shared vocabulary of the InstallGate development: the Go string operations the sources use
  (package \<^verbatim>\<open>strings\<close>), Go time as nanoseconds since the zero time, Go maps as association
  lists, and the lemmas about them that the component theories rely on.

  A Go string is a byte sequence and is a \<^typ>\<open>string\<close> here, one \<^typ>\<open>char\<close> per byte; comparison
  of strings is bytewise lexicographic, which is the order of the imported list order.
  Lowering is exact on ASCII strings; on a string with other bytes it goes through the UTF-8
  decoding and a case table that is complete for ASCII, Latin-1, Greek and Cyrillic letters and
  for the two code points (U+0130 and U+212A) that lower to an ASCII letter.
\<close>

named_theorems gate_simps \<open>characteristic equations of the operations, used by simp\<close>

section \<open>Strings\<close>

fun HasPrefix :: "string \<Rightarrow> string \<Rightarrow> bool" where
  "HasPrefix s [] = True"
| "HasPrefix [] (p # ps) = False"
| "HasPrefix (c # s) (p # ps) = (c = p \<and> HasPrefix s ps)"

definition HasSuffix :: "string \<Rightarrow> string \<Rightarrow> bool" where
  "HasSuffix s p = HasPrefix (rev s) (rev p)"

definition TrimPrefix :: "string \<Rightarrow> string \<Rightarrow> string" where
  "TrimPrefix s p = (if HasPrefix s p then drop (length p) s else s)"

definition TrimSuffix :: "string \<Rightarrow> string \<Rightarrow> string" where
  "TrimSuffix s p = (if HasSuffix s p then take (length s - length p) s else s)"

fun Contains :: "string \<Rightarrow> string \<Rightarrow> bool" where
  "Contains [] p = (p = [])"
| "Contains (c # s) p = (HasPrefix (c # s) p \<or> Contains s p)"

text \<open>\<^verbatim>\<open>strings.Split\<close> with a one-byte separator: never the empty list.\<close>

fun Split :: "char \<Rightarrow> string \<Rightarrow> string list" where
  "Split c [] = [[]]"
| "Split c (x # xs) =
     (if x = c then [] # Split c xs
      else (case Split c xs of [] \<Rightarrow> [[x]] | p # ps \<Rightarrow> (x # p) # ps))"

fun Join :: "string \<Rightarrow> string list \<Rightarrow> string" where
  "Join sep [] = []"
| "Join sep [s] = s"
| "Join sep (s # t # ts) = s @ sep @ Join sep (t # ts)"

text \<open>\<^verbatim>\<open>strings.Index\<close> and \<^verbatim>\<open>strings.LastIndex\<close> of one byte; \<^term>\<open>None\<close> is Go's -1.\<close>

fun IndexByte :: "char \<Rightarrow> string \<Rightarrow> nat option" where
  "IndexByte c [] = None"
| "IndexByte c (x # xs) = (if x = c then Some 0 else map_option Suc (IndexByte c xs))"

fun LastIndexByte :: "char \<Rightarrow> string \<Rightarrow> nat option" where
  "LastIndexByte c [] = None"
| "LastIndexByte c (x # xs) =
     (case LastIndexByte c xs of Some i \<Rightarrow> Some (Suc i)
      | None \<Rightarrow> if x = c then Some 0 else None)"

text \<open>\<^verbatim>\<open>strings.Index\<close> of a substring.\<close>

fun Index :: "string \<Rightarrow> string \<Rightarrow> nat option" where
  "Index [] p = (if p = [] then Some 0 else None)"
| "Index (c # s) p = (if HasPrefix (c # s) p then Some 0 else map_option Suc (Index s p))"

text \<open>\<^verbatim>\<open>strings.SplitN\<close> with limit 2.\<close>

definition SplitN2 :: "char \<Rightarrow> string \<Rightarrow> string list" where
  "SplitN2 c s = (case IndexByte c s of None \<Rightarrow> [s] | Some i \<Rightarrow> [take i s, drop (Suc i) s])"

text \<open>\<^verbatim>\<open>strings.Trim\<close> with a one-byte cutset.\<close>

definition TrimByte :: "char \<Rightarrow> string \<Rightarrow> string" where
  "TrimByte c s = rev (dropWhile (\<lambda>x. x = c) (rev (dropWhile (\<lambda>x. x = c) s)))"

text \<open>\<^verbatim>\<open>strings.ReplaceAll\<close> of one byte by another.\<close>

definition ReplaceByte :: "char \<Rightarrow> char \<Rightarrow> string \<Rightarrow> string" where
  "ReplaceByte a b s = map (\<lambda>c. if c = a then b else c) s"

lemma HasPrefix_iff: "HasPrefix s p \<longleftrightarrow> (\<exists>r. s = p @ r)"
  by (induction s p rule: HasPrefix.induct) auto

lemma HasPrefix_append [simp]: "HasPrefix (p @ r) p"
  by (auto simp: HasPrefix_iff)

lemma HasSuffix_iff: "HasSuffix s p \<longleftrightarrow> (\<exists>r. s = r @ p)"
proof -
  have "HasSuffix s p \<longleftrightarrow> (\<exists>r. rev s = rev p @ r)"
    by (simp add: HasSuffix_def HasPrefix_iff)
  also have "\<dots> \<longleftrightarrow> (\<exists>r. s = r @ p)"
    by (metis rev_append rev_rev_ident)
  finally show ?thesis .
qed

lemma HasSuffix_append [simp]: "HasSuffix (r @ p) p"
  by (auto simp: HasSuffix_iff)

lemma TrimPrefix_append [simp]: "TrimPrefix (p @ r) p = r"
  by (simp add: TrimPrefix_def)

lemma TrimSuffix_append [simp]: "TrimSuffix (r @ p) p = r"
  by (simp add: TrimSuffix_def)

lemma Contains_iff: "Contains s p \<longleftrightarrow> (\<exists>a b. s = a @ p @ b)"
proof (induction s)
  case (Cons c s)
  show ?case
  proof
    assume "Contains (c # s) p"
    then show "\<exists>a b. c # s = a @ p @ b"
      using Cons.IH by (auto simp: HasPrefix_iff intro: exI [of _ "[]"]) (metis append_Cons)
  next
    assume "\<exists>a b. c # s = a @ p @ b"
    then obtain a b where ab: "c # s = a @ p @ b" by blast
    show "Contains (c # s) p"
    proof (cases a)
      case Nil
      with ab have "HasPrefix (c # s) p" by (simp add: HasPrefix_iff)
      then show ?thesis by simp
    next
      case (Cons x a')
      with ab have "s = a' @ p @ b" by simp
      with Cons.IH show ?thesis by auto
    qed
  qed
qed simp

lemma Split_not_Nil [simp]: "Split c s \<noteq> []"
  by (induction s) (auto split: list.splits)

lemma Join_Split [simp]: "Join [c] (Split c s) = s"
proof (induction s)
  case (Cons x xs)
  obtain p ps where ps: "Split c xs = p # ps" by (cases "Split c xs") auto
  show ?case
    using Cons.IH ps by (cases ps) auto
qed simp

lemma Split_no_sep: "c \<notin> set s \<Longrightarrow> Split c s = [s]"
  by (induction s) auto

lemma Split_append_sep: "c \<notin> set p \<Longrightarrow> Split c (p @ c # s) = p # Split c s"
  by (induction p) auto

lemma Split_append: "Split c (p @ c # s) = Split c p @ Split c s"
proof (induction p)
  case (Cons x p)
  obtain y ys where "Split c p = y # ys" by (cases "Split c p") auto
  then show ?case using Cons by auto
qed simp

lemma Split_parts_no_sep: "p \<in> set (Split c s) \<Longrightarrow> c \<notin> set p"
  by (induction s arbitrary: p) (auto split: list.splits if_splits)

lemma IndexByte_None_iff: "IndexByte c s = None \<longleftrightarrow> c \<notin> set s"
  by (induction s) auto

lemma IndexByte_append: "c \<notin> set p \<Longrightarrow> IndexByte c (p @ c # s) = Some (length p)"
  by (induction p) auto

lemma IndexByte_SomeD:
  "IndexByte c s = Some i \<Longrightarrow> i < length s \<and> s = take i s @ c # drop (Suc i) s \<and> c \<notin> set (take i s)"
  by (induction s arbitrary: i) (auto split: if_splits)

lemma LastIndexByte_None_iff: "LastIndexByte c s = None \<longleftrightarrow> c \<notin> set s"
  by (induction s) (auto split: option.splits)

lemma LastIndexByte_append: "c \<notin> set q \<Longrightarrow> LastIndexByte c (p @ c # q) = Some (length p)"
proof (induction p)
  case Nil
  then have "LastIndexByte c q = None" by (simp add: LastIndexByte_None_iff)
  then show ?case by simp
qed simp

lemma TrimByte_parts: "\<exists>a b. s = a @ TrimByte c s @ b \<and> set a \<subseteq> {c} \<and> set b \<subseteq> {c}"
proof -
  let ?d = "dropWhile (\<lambda>x. x = c)"
  have s: "s = takeWhile (\<lambda>x. x = c) s @ ?d s" by simp
  have "rev (?d s) = takeWhile (\<lambda>x. x = c) (rev (?d s)) @ ?d (rev (?d s))" by simp
  then have "?d s = TrimByte c s @ rev (takeWhile (\<lambda>x. x = c) (rev (?d s)))"
    unfolding TrimByte_def by (metis rev_append rev_rev_ident)
  with s have "s = takeWhile (\<lambda>x. x = c) s @ TrimByte c s @ rev (takeWhile (\<lambda>x. x = c) (rev (?d s)))"
    by metis
  moreover have "set (takeWhile (\<lambda>x. x = c) zs) \<subseteq> {c}" for zs by (auto dest: set_takeWhileD)
  ultimately show ?thesis by (metis set_rev)
qed

lemma TrimByte_wrapped: "n \<noteq> [] \<Longrightarrow> hd n \<noteq> c \<Longrightarrow> last n \<noteq> c \<Longrightarrow> TrimByte c (c # n) = n"
proof -
  assume a: "n \<noteq> []" "hd n \<noteq> c" "last n \<noteq> c"
  have "dropWhile (\<lambda>x. x = c) n = n" using a by (cases n) auto
  moreover have "dropWhile (\<lambda>x. x = c) (rev n) = rev n" using a by (cases n rule: rev_cases) auto
  ultimately show ?thesis by (simp add: TrimByte_def)
qed

section \<open>UTF-8, case and white space\<close>

abbreviation byte :: "char \<Rightarrow> nat" where "byte c \<equiv> (of_char c :: nat)"

definition is_ascii :: "string \<Rightarrow> bool" where
  "is_ascii s = list_all (\<lambda>c. byte c < 128) s"

definition cont_byte :: "nat \<Rightarrow> bool" where
  "cont_byte b = (128 \<le> b \<and> b < 192)"

text \<open>
  The first rune of a byte sequence with its width, and the runes of a string, as Go's
  \<^verbatim>\<open>[]rune(s)\<close> reads them; an invalid byte is one rune U+FFFD.
\<close>

definition rune_at :: "nat list \<Rightarrow> nat \<times> nat" where
  "rune_at bs =
    (case bs of
       [] \<Rightarrow> (65533, 1)
     | x # r1 \<Rightarrow>
         let b = (case r1 of [] \<Rightarrow> 0 | y # _ \<Rightarrow> y);
             c = (case drop 1 r1 of [] \<Rightarrow> 0 | y # _ \<Rightarrow> y);
             d = (case drop 2 r1 of [] \<Rightarrow> 0 | y # _ \<Rightarrow> y);
             r2 = (x - 192) * 64 + (b - 128);
             r3 = (x - 224) * 4096 + (b - 128) * 64 + (c - 128);
             r4 = (x - 240) * 262144 + (b - 128) * 4096 + (c - 128) * 64 + (d - 128)
         in if x < 128 then (x, 1)
            else if 194 \<le> x \<and> x < 224 \<and> cont_byte b then (r2, 2)
            else if 224 \<le> x \<and> x < 240 \<and> cont_byte b \<and> cont_byte c \<and> 2048 \<le> r3
                    \<and> \<not> (55296 \<le> r3 \<and> r3 < 57344) then (r3, 3)
            else if 240 \<le> x \<and> x < 245 \<and> cont_byte b \<and> cont_byte c \<and> cont_byte d
                    \<and> 65536 \<le> r4 \<and> r4 < 1114112 then (r4, 4)
            else (65533, 1))"

text \<open>The first argument bounds the number of runes; a string has at most as many as bytes.\<close>

fun decode_runes :: "nat \<Rightarrow> nat list \<Rightarrow> nat list" where
  "decode_runes 0 bs = []"
| "decode_runes (Suc n) bs =
     (if bs = [] then [] else (fst (rune_at bs)) # decode_runes n (drop (snd (rune_at bs)) bs))"

definition runes :: "string \<Rightarrow> nat list" where
  "runes s = decode_runes (length s) (map of_char s)"

definition encode_rune :: "nat \<Rightarrow> string" where
  "encode_rune r =
     (if r < 128 then [char_of r]
      else if r < 2048 then [char_of (192 + r div 64), char_of (128 + r mod 64)]
      else if (55296 \<le> r \<and> r < 57344) \<or> 1114112 \<le> r then [char_of (239::nat), char_of (191::nat), char_of (189::nat)]
      else if r < 65536 then
        [char_of (224 + r div 4096), char_of (128 + r div 64 mod 64), char_of (128 + r mod 64)]
      else
        [char_of (240 + r div 262144), char_of (128 + r div 4096 mod 64),
         char_of (128 + r div 64 mod 64), char_of (128 + r mod 64)])"

definition hex_digit :: "nat \<Rightarrow> char" where
  "hex_digit n = (if n < 10 then char_of (48 + n) else char_of (87 + n))"

text \<open>The value of a hexadecimal digit, either case.\<close>

definition unhex :: "char \<Rightarrow> nat option" where
  "unhex c =
     (let b = of_char c :: nat in
      if 48 \<le> b \<and> b \<le> 57 then Some (b - 48)
      else if 97 \<le> b \<and> b \<le> 102 then Some (b - 87)
      else if 65 \<le> b \<and> b \<le> 70 then Some (b - 55)
      else None)"

text \<open>
  \<^verbatim>\<open>strconv.Quote\<close>, the verb \<^verbatim>\<open>%q\<close>. A rune outside ASCII is taken as printable from U+00A1 on,
  the soft hyphen excepted; the quoted text occurs in messages only.
\<close>

definition quote_rune :: "nat \<Rightarrow> string" where
  "quote_rune r =
     (if r = 34 \<or> r = 92 then [CHR 0x5C, char_of r]
      else if 32 \<le> r \<and> r < 127 then [char_of r]
      else if 161 \<le> r \<and> r \<noteq> 173 then encode_rune r
      else if r = 7 then CHR 0x5C # ''a''
      else if r = 8 then CHR 0x5C # ''b''
      else if r = 12 then CHR 0x5C # ''f''
      else if r = 10 then CHR 0x5C # ''n''
      else if r = 13 then CHR 0x5C # ''r''
      else if r = 9 then CHR 0x5C # ''t''
      else if r = 11 then CHR 0x5C # ''v''
      else if r < 32 \<or> r = 127 then CHR 0x5C # CHR ''x'' # [hex_digit (r div 16), hex_digit (r mod 16)]
      else CHR 0x5C # CHR ''u'' # [hex_digit (r div 4096), hex_digit (r div 256 mod 16),
             hex_digit (r div 16 mod 16), hex_digit (r mod 16)])"

fun quote_bytes :: "nat \<Rightarrow> nat list \<Rightarrow> string" where
  "quote_bytes 0 bs = []"
| "quote_bytes (Suc n) bs =
     (if bs = [] then []
      else let (r, w) = rune_at bs in
        (if r = 65533 \<and> w = 1
         then CHR 0x5C # CHR ''x'' # [hex_digit (hd bs div 16), hex_digit (hd bs mod 16)]
         else quote_rune r) @ quote_bytes n (drop w bs))"

definition Quote :: "string \<Rightarrow> string" where
  "Quote s = CHR 0x22 # quote_bytes (length s) (map of_char s) @ [CHR 0x22]"

definition upper_byte :: "char \<Rightarrow> char" where
  "upper_byte c = (if 97 \<le> byte c \<and> byte c \<le> 122 then char_of (byte c - 32) else c)"

definition lower_byte :: "char \<Rightarrow> char" where
  "lower_byte c = (if 65 \<le> byte c \<and> byte c \<le> 90 then char_of (byte c + 32) else c)"

definition lower_rune :: "nat \<Rightarrow> nat" where
  "lower_rune r =
     (if 65 \<le> r \<and> r \<le> 90 then r + 32
      else if (192 \<le> r \<and> r \<le> 222 \<and> r \<noteq> 215) then r + 32
      else if r = 304 then 105
      else if r = 8490 then 107
      else if 913 \<le> r \<and> r \<le> 939 \<and> r \<noteq> 930 then r + 32
      else if 1040 \<le> r \<and> r \<le> 1071 then r + 32
      else if 1024 \<le> r \<and> r \<le> 1039 then r + 80
      else r)"

definition ToLower :: "string \<Rightarrow> string" where
  "ToLower s =
     (if is_ascii s then map lower_byte s
      else concat (map (encode_rune \<circ> lower_rune) (runes s)))"

definition EqualFold :: "string \<Rightarrow> string \<Rightarrow> bool" where
  "EqualFold s t = (ToLower s = ToLower t)"

definition ascii_space :: "char \<Rightarrow> bool" where
  "ascii_space c = (byte c = 32 \<or> (9 \<le> byte c \<and> byte c \<le> 13))"

text \<open>
  The width in bytes of a leading white-space rune, 0 when there is none: the ASCII ones, then
  U+0085 and U+00A0, then the three-byte code points with the property White\_Space.
\<close>

fun space_width :: "nat list \<Rightarrow> nat" where
  "space_width (a # r) =
     (if a = 32 \<or> (9 \<le> a \<and> a \<le> 13) then 1
      else if a < 128 then 0
      else case r of
        b # r2 \<Rightarrow>
          if a = 194 \<and> (b = 133 \<or> b = 160) then 2
          else (case r2 of
            c # _ \<Rightarrow>
              if (a = 225 \<and> b = 154 \<and> c = 128)
               \<or> (a = 226 \<and> b = 128 \<and> (128 \<le> c \<and> c \<le> 138 \<or> c = 168 \<or> c = 169 \<or> c = 175))
               \<or> (a = 226 \<and> b = 129 \<and> c = 159)
               \<or> (a = 227 \<and> b = 128 \<and> c = 128)
              then 3 else 0
          | [] \<Rightarrow> 0)
      | [] \<Rightarrow> 0)"
| "space_width [] = 0"

text \<open>The same for a trailing rune, on the reversed bytes.\<close>

fun space_width_rev :: "nat list \<Rightarrow> nat" where
  "space_width_rev (a # r) =
     (if a = 32 \<or> (9 \<le> a \<and> a \<le> 13) then 1
      else if a < 128 then 0
      else case r of
        b # r2 \<Rightarrow>
          if space_width [b, a] = 2 then 2
          else (case r2 of
            c # _ \<Rightarrow> if space_width [c, b, a] = 3 then 3 else 0
          | [] \<Rightarrow> 0)
      | [] \<Rightarrow> 0)"
| "space_width_rev [] = 0"

fun drop_spaces :: "(nat list \<Rightarrow> nat) \<Rightarrow> nat \<Rightarrow> string \<Rightarrow> string" where
  "drop_spaces w 0 s = s"
| "drop_spaces w (Suc n) s =
     (let k = w (map of_char s) in if k = 0 then s else drop_spaces w n (drop k s))"

definition TrimSpace :: "string \<Rightarrow> string" where
  "TrimSpace s =
     (let l = drop_spaces space_width (length s) s in
      rev (drop_spaces space_width_rev (length l) (rev l)))"

lemma drop_spaces_no_space: "w (map of_char s) = 0 \<Longrightarrow> drop_spaces w n s = s"
  by (cases n) auto

lemma drop_spaces_suffix: "\<exists>p. s = p @ drop_spaces w n s"
proof (induction n arbitrary: s)
  case (Suc n)
  show ?case
  proof (cases "w (map of_char s) = 0")
    case False
    obtain p where p: "drop (w (map of_char s)) s = p @ drop_spaces w n (drop (w (map of_char s)) s)"
      using Suc.IH by blast
    have "s = take (w (map of_char s)) s @ drop (w (map of_char s)) s" by simp
    also have "\<dots> = (take (w (map of_char s)) s @ p) @ drop_spaces w n (drop (w (map of_char s)) s)"
      using p by simp
    finally show ?thesis using False
      by (intro exI [of _ "take (w (map of_char s)) s @ p"]) (simp add: Let_def)
  qed simp
qed simp

lemma TrimSpace_Nil [simp]: "TrimSpace [] = []"
  by (simp add: TrimSpace_def)

lemma TrimSpace_infix: "\<exists>p q. s = p @ TrimSpace s @ q"
proof -
  define l where "l = drop_spaces space_width (length s) s"
  obtain p where p: "s = p @ l" using drop_spaces_suffix l_def by blast
  obtain q where q: "rev l = q @ drop_spaces space_width_rev (length l) (rev l)"
    using drop_spaces_suffix by blast
  have "l = rev (q @ drop_spaces space_width_rev (length l) (rev l))"
    using q by (metis rev_rev_ident)
  then have "l = TrimSpace s @ rev q"
    by (simp add: TrimSpace_def l_def Let_def)
  with p show ?thesis by (metis append_assoc)
qed

lemma space_width_ascii: "a < 128 \<Longrightarrow> \<not> (a = 32 \<or> (9 \<le> a \<and> a \<le> 13)) \<Longrightarrow> space_width (a # r) = 0 \<and> space_width_rev (a # r) = 0"
  by simp

lemma TrimSpace_id:
  assumes "s \<noteq> []" "byte (hd s) < 128" "\<not> ascii_space (hd s)" "byte (last s) < 128" "\<not> ascii_space (last s)"
  shows "TrimSpace s = s"
proof -
  obtain x xs where s: "s = x # xs" using assms(1) by (cases s) auto
  obtain ys y where r: "s = ys @ [y]" using assms(1) by (cases s rule: rev_cases) auto
  have "drop_spaces space_width (length s) s = s"
    using s assms(2,3) by (intro drop_spaces_no_space) (simp add: ascii_space_def)
  moreover have "drop_spaces space_width_rev (length s) (rev s) = rev s"
    using r assms(4,5) by (intro drop_spaces_no_space) (simp add: ascii_space_def)
  ultimately show ?thesis by (simp add: TrimSpace_def)
qed

lemma is_ascii_simps [simp]:
  "is_ascii []" "is_ascii (c # s) \<longleftrightarrow> byte c < 128 \<and> is_ascii s"
  "is_ascii (s @ t) \<longleftrightarrow> is_ascii s \<and> is_ascii t"
  by (auto simp: is_ascii_def)

lemma lower_byte_idem [simp]: "lower_byte (lower_byte c) = lower_byte c"
  by (simp add: lower_byte_def)

lemma byte_lower_byte_lt: "byte c < 128 \<Longrightarrow> byte (lower_byte c) < 128"
  by (simp add: lower_byte_def)

lemma is_ascii_map_lower: "is_ascii s \<Longrightarrow> is_ascii (map lower_byte s)"
  by (induction s) (auto simp: byte_lower_byte_lt)

lemma ToLower_idem_ascii: "is_ascii s \<Longrightarrow> ToLower (ToLower s) = ToLower s"
  by (simp add: ToLower_def is_ascii_map_lower)

section \<open>Time\<close>

text \<open>
  \<^verbatim>\<open>time.Time\<close> as nanoseconds since Go's zero time (1 January of year 1, UTC), so that
  \<^verbatim>\<open>IsZero\<close> is equality with 0 and \<^verbatim>\<open>Truncate\<close> rounds down to a multiple since that instant;
  \<^verbatim>\<open>time.Duration\<close> is a number of nanoseconds.
\<close>

type_synonym gotime = int
type_synonym duration = int

definition Millisecond :: duration where "Millisecond = 1000000"
definition Second :: duration where "Second = 1000000000"
definition Minute :: duration where "Minute = 60 * Second"
definition Hour :: duration where "Hour = 60 * Minute"

lemmas duration_defs = Millisecond_def Second_def Minute_def Hour_def

definition Truncate :: "gotime \<Rightarrow> duration \<Rightarrow> gotime" where
  "Truncate t d = (if d \<le> 0 then t else t - t mod d)"

section \<open>Maps kept as association lists\<close>

text \<open>A Go map is an association list with distinct keys; \<^const>\<open>AList.update\<close> is the assignment.\<close>

definition wf_map :: "('k \<times> 'v) list \<Rightarrow> bool" where
  "wf_map m = distinct (map fst m)"

lemma wf_map_Nil [simp]: "wf_map []"
  by (simp add: wf_map_def)

lemma wf_map_update [simp]: "wf_map m \<Longrightarrow> wf_map (AList.update k v m)"
  by (simp add: wf_map_def distinct_update)

lemma wf_map_delete [simp]: "wf_map m \<Longrightarrow> wf_map (AList.delete k m)"
  by (simp add: wf_map_def distinct_delete)

lemma map_of_update [simp]: "map_of (AList.update k v m) k' = (if k' = k then Some v else map_of m k')"
  by (simp add: update_conv')

lemma map_of_delete [simp]: "map_of (AList.delete k m) k' = (if k' = k then None else map_of m k')"
  by (simp add: delete_conv')

section \<open>Sorting by a comparison\<close>

text \<open>
  \<^verbatim>\<open>sort.Slice\<close> with a less function. Go's sort is not stable; where the comparison separates
  distinct elements the sorted permutation is unique, which \<open>SortSlice_unique\<close> states.
\<close>

fun insert_by :: "('a \<Rightarrow> 'a \<Rightarrow> bool) \<Rightarrow> 'a \<Rightarrow> 'a list \<Rightarrow> 'a list" where
  "insert_by lt x [] = [x]"
| "insert_by lt x (y # ys) = (if \<not> lt y x then x # y # ys else y # insert_by lt x ys)"

definition SortSlice :: "('a \<Rightarrow> 'a \<Rightarrow> bool) \<Rightarrow> 'a list \<Rightarrow> 'a list" where
  "SortSlice lt xs = foldr (insert_by lt) xs []"

lemma insert_by_insort_key:
  "(\<And>a b. lt a b \<longleftrightarrow> (f a :: 'b :: linorder) < f b) \<Longrightarrow> insert_by lt x ys = insort_key f x ys"
  by (induction ys) (auto simp: not_less)

lemma SortSlice_sort_key:
  "(\<And>a b. lt a b \<longleftrightarrow> (f a :: 'b :: linorder) < f b) \<Longrightarrow> SortSlice lt xs = sort_key f xs"
  by (induction xs) (auto simp: SortSlice_def sort_key_def insert_by_insort_key)

lemma mset_SortSlice [simp]: "mset (SortSlice lt xs) = mset xs"
proof -
  have "mset (insert_by lt x ys) = add_mset x (mset ys)" for x ys
    by (induction ys) auto
  then show ?thesis by (induction xs) (auto simp: SortSlice_def)
qed

lemma set_SortSlice [simp]: "set (SortSlice lt xs) = set xs"
  by (metis mset_SortSlice mset_eq_setD)

lemma SortSlice_unique:
  assumes "\<And>a b. lt a b \<longleftrightarrow> (f a :: 'b :: linorder) < f b" "inj_on f (set xs)"
    and "mset ys = mset xs" "sorted (map f ys)"
  shows "SortSlice lt xs = ys"
proof -
  have "sort_key f xs = ys"
    using assms by (intro sort_key_inj_key_eq) auto
  then show ?thesis using SortSlice_sort_key [where lt = lt and f = f, OF assms(1)] by simp
qed

lemma SortSlice_cong_mset:
  assumes "\<And>a b. lt a b \<longleftrightarrow> (f a :: 'b :: linorder) < f b" "inj_on f (set xs)" "mset ys = mset xs"
  shows "SortSlice lt ys = SortSlice lt xs"
proof -
  have "SortSlice lt xs = SortSlice lt ys"
    by (rule SortSlice_unique [OF assms(1,2)]) (simp_all add: assms(3) SortSlice_sort_key [where lt = lt and f = f, OF assms(1)])
  then show ?thesis by simp
qed

lemma SortSlice_idem:
  assumes "\<And>a b. lt a b \<longleftrightarrow> (f a :: 'b :: linorder) < f b"
  shows "SortSlice lt (SortSlice lt xs) = SortSlice lt xs"
proof -
  have "sort_key f (sort_key f xs) = sort_key f xs" by (rule properties_for_sort_key) auto
  then show ?thesis using SortSlice_sort_key [where lt = lt and f = f, OF assms] by simp
qed

text \<open>\<^verbatim>\<open>sort.Strings\<close>.\<close>

definition SortStrings :: "string list \<Rightarrow> string list" where
  "SortStrings = SortSlice (<)"

lemma SortStrings_sort: "SortStrings xs = sort xs"
  by (simp add: SortStrings_def SortSlice_sort_key [where f = "\<lambda>x. x"])

end
