(* ===== verification/Verdict.thy ===== *)
theory Verdict
  imports Prelude
begin

text \<open>
  The shared verdict and evidence types of \<^verbatim>\<open>src/internal/verdict/model.go\<close>, with the order of
  restrictiveness on verdicts that the policy theorems compare profiles with.
\<close>

datatype verdict_kind = Allow | Warn | ApprovalRequired | Block

fun kind_string :: "verdict_kind \<Rightarrow> string" where
  "kind_string Allow = ''allow''"
| "kind_string Warn = ''warn''"
| "kind_string ApprovalRequired = ''approval_required''"
| "kind_string Block = ''block''"

record Signal =
  sigKind :: string
  sigSource :: string
  sigObservation :: string
  sigConfidence :: string
  sigRetrievedAt :: gotime
  sigFreshUntil :: gotime

record Reason =
  reasonRuleID :: string
  reasonSummary :: string
  reasonSignalKinds :: "string list"

record Decision =
  decVerdict :: verdict_kind
  decReasons :: "Reason list"
  decDegraded :: bool

text \<open>The order of restrictiveness: allow, warn, approval required, block.\<close>

fun restrictiveness :: "verdict_kind \<Rightarrow> nat" where
  "restrictiveness Allow = 0"
| "restrictiveness Warn = 1"
| "restrictiveness ApprovalRequired = 2"
| "restrictiveness Block = 3"

lemma restrictiveness_inj: "restrictiveness a = restrictiveness b \<longleftrightarrow> a = b"
  by (cases a; cases b) auto

instantiation verdict_kind :: linorder
begin

definition less_eq_verdict_kind :: "verdict_kind \<Rightarrow> verdict_kind \<Rightarrow> bool" where
  "a \<le> b \<longleftrightarrow> restrictiveness a \<le> restrictiveness b"

definition less_verdict_kind :: "verdict_kind \<Rightarrow> verdict_kind \<Rightarrow> bool" where
  "a < b \<longleftrightarrow> restrictiveness a < restrictiveness b"

instance
  by standard (auto simp: less_eq_verdict_kind_def less_verdict_kind_def restrictiveness_inj)

end

lemmas verdict_order = less_eq_verdict_kind_def less_verdict_kind_def

text \<open>A held verdict keeps the package from the client.\<close>

definition held :: "verdict_kind \<Rightarrow> bool" where
  "held v = (v = Block \<or> v = ApprovalRequired)"

lemma held_iff_ge: "held v \<longleftrightarrow> ApprovalRequired \<le> v"
  by (cases v) (auto simp: held_def verdict_order)

lemma held_mono: "held v \<Longrightarrow> v \<le> w \<Longrightarrow> held w"
  by (auto simp: held_iff_ge)

lemma kind_string_inj: "kind_string a = kind_string b \<longleftrightarrow> a = b"
  by (cases a; cases b) auto

end
