(* ===== verification/Freshness.thy ===== *)
theory Freshness
  imports Verdict
begin

text \<open>
  Evidence kinds, freshness windows and provider outcomes:
  \<^verbatim>\<open>src/internal/evidence/freshness.go\<close> and \<^verbatim>\<open>src/internal/evidence/provider.go\<close>.
  The freshness policy's map is an association list; its lock is not modelled, every operation
  being one atomic step.
\<close>

section \<open>Kinds, states and time normalisation\<close>

definition KindIntegrity :: string where "KindIntegrity = ''integrity''"
definition KindMalicious :: string where "KindMalicious = ''malicious''"
definition KindVulnerability :: string where "KindVulnerability = ''vulnerability''"
definition KindAvailability :: string where "KindAvailability = ''availability''"
definition KindCache :: string where "KindCache = ''cache''"
definition KindNameConfusion :: string where "KindNameConfusion = ''name_confusion''"
definition KindPackageAge :: string where "KindPackageAge = ''package_age''"
definition KindProvenance :: string where "KindProvenance = ''provenance''"
definition KindInstallScript :: string where "KindInstallScript = ''install_script''"
definition KindReputation :: string where "KindReputation = ''reputation''"
definition KindPublishHistory :: string where "KindPublishHistory = ''publish_history''"
definition KindDecisionAllow :: string where "KindDecisionAllow = ''decision_allow''"

lemmas kind_defs = KindIntegrity_def KindMalicious_def KindVulnerability_def KindAvailability_def
  KindCache_def KindNameConfusion_def KindPackageAge_def KindProvenance_def KindInstallScript_def
  KindReputation_def KindPublishHistory_def KindDecisionAllow_def

definition ConfidenceHigh :: string where "ConfidenceHigh = ''high''"
definition ConfidenceMedium :: string where "ConfidenceMedium = ''medium''"
definition ConfidenceLow :: string where "ConfidenceLow = ''low''"
definition ConfidenceNone :: string where "ConfidenceNone = ''none''"

definition normalizeTime :: "gotime \<Rightarrow> gotime" where
  "normalizeTime t = (if t = 0 then 0 else Truncate t Millisecond)"

text \<open>
  \<^verbatim>\<open>State\<close> is a string type with four constants; the zero value of an \<^verbatim>\<open>Outcome\<close> carries the
  empty string, which is no valid state and reads as unavailable. \<open>StateInvalid\<close> stands for every
  string that is none of the four.
\<close>

datatype State = StateAvailable | StateStale | StateDegraded | StateUnavailable | StateInvalid

fun State_Valid :: "State \<Rightarrow> bool" where
  "State_Valid StateInvalid = False"
| "State_Valid _ = True"

fun state_string :: "State \<Rightarrow> string" where
  "state_string StateAvailable = ''available''"
| "state_string StateStale = ''stale''"
| "state_string StateDegraded = ''degraded''"
| "state_string StateUnavailable = ''unavailable''"
| "state_string StateInvalid = ''''"

lemma normalizeTime_zero [simp]: "normalizeTime 0 = 0"
  by (simp add: normalizeTime_def)

lemma normalizeTime_eq: "normalizeTime t = t - t mod 1000000"
  by (simp add: normalizeTime_def Truncate_def Millisecond_def)

lemma normalizeTime_idem [simp]: "normalizeTime (normalizeTime t) = normalizeTime t"
  by (simp add: normalizeTime_eq mod_diff_eq [symmetric])

lemma normalizeTime_mono: "s \<le> t \<Longrightarrow> normalizeTime s \<le> normalizeTime t"
proof -
  assume "s \<le> t"
  have eq: "normalizeTime x = 1000000 * (x div 1000000)" for x
    by (simp add: normalizeTime_eq minus_mod_eq_mult_div)
  from \<open>s \<le> t\<close> have "s div 1000000 \<le> t div 1000000" by (simp add: zdiv_mono1)
  then show ?thesis by (simp add: eq)
qed

lemma normalizeTime_le: "normalizeTime t \<le> t"
  by (simp add: normalizeTime_eq)

section \<open>Freshness windows\<close>

record FreshnessConfig =
  FreshTTL :: duration
  StaleTTL :: duration

type_synonym FreshnessPolicy = "(string \<times> FreshnessConfig) list"

definition DefaultFreshnessConfigs :: FreshnessPolicy where
  "DefaultFreshnessConfigs =
    [(KindVulnerability, \<lparr>FreshTTL = 1 * Hour, StaleTTL = 24 * Hour\<rparr>),
     (KindPublishHistory, \<lparr>FreshTTL = 15 * Minute, StaleTTL = 12 * Hour\<rparr>),
     (KindPackageAge, \<lparr>FreshTTL = 15 * Minute, StaleTTL = 12 * Hour\<rparr>),
     (KindMalicious, \<lparr>FreshTTL = 1 * Hour, StaleTTL = 24 * Hour\<rparr>),
     (KindIntegrity, \<lparr>FreshTTL = 24 * Hour, StaleTTL = 7 * 24 * Hour\<rparr>),
     (KindProvenance, \<lparr>FreshTTL = 6 * Hour, StaleTTL = 48 * Hour\<rparr>),
     (KindReputation, \<lparr>FreshTTL = 24 * Hour, StaleTTL = 7 * 24 * Hour\<rparr>),
     (KindInstallScript, \<lparr>FreshTTL = 7 * 24 * Hour, StaleTTL = 30 * 24 * Hour\<rparr>),
     (KindNameConfusion, \<lparr>FreshTTL = 12 * Hour, StaleTTL = 72 * Hour\<rparr>),
     (KindDecisionAllow, \<lparr>FreshTTL = 30 * Minute, StaleTTL = 6 * Hour\<rparr>),
     (KindCache, \<lparr>FreshTTL = 30 * Minute, StaleTTL = 6 * Hour\<rparr>)]"

text \<open>The overrides are applied in some order; distinct keys make the order irrelevant.\<close>

definition NewFreshnessPolicy :: "(string \<times> FreshnessConfig) list \<Rightarrow> FreshnessPolicy" where
  "NewFreshnessPolicy custom = fold (\<lambda>(k, v) m. AList.update k v m) custom DefaultFreshnessConfigs"

definition DefaultFreshnessPolicy :: FreshnessPolicy where
  "DefaultFreshnessPolicy = NewFreshnessPolicy []"

definition FreshnessPolicy_Config :: "FreshnessPolicy \<Rightarrow> string \<Rightarrow> FreshnessConfig" where
  "FreshnessPolicy_Config fp kind =
     (case map_of fp kind of
        Some cfg \<Rightarrow> cfg
      | None \<Rightarrow> \<lparr>FreshTTL = 1 * Hour, StaleTTL = 12 * Hour\<rparr>)"

definition SetConfig :: "FreshnessPolicy \<Rightarrow> string \<Rightarrow> FreshnessConfig \<Rightarrow> FreshnessPolicy" where
  "SetConfig fp kind cfg = AList.update kind cfg fp"

definition FreshnessPolicy_FreshUntil :: "FreshnessPolicy \<Rightarrow> string \<Rightarrow> gotime \<Rightarrow> gotime" where
  "FreshnessPolicy_FreshUntil fp kind retrievedAt =
     normalizeTime (retrievedAt + FreshTTL (FreshnessPolicy_Config fp kind))"

definition FreshnessPolicy_StaleUntil :: "FreshnessPolicy \<Rightarrow> string \<Rightarrow> gotime \<Rightarrow> gotime" where
  "FreshnessPolicy_StaleUntil fp kind retrievedAt =
     (let cfg = FreshnessPolicy_Config fp kind in
      normalizeTime (retrievedAt + (FreshTTL cfg + StaleTTL cfg)))"

definition FreshnessPolicy_Classify :: "FreshnessPolicy \<Rightarrow> string \<Rightarrow> gotime \<Rightarrow> gotime \<Rightarrow> State" where
  "FreshnessPolicy_Classify fp kind retrievedAt now =
     (let normRet = normalizeTime retrievedAt; normNow = normalizeTime now in
      if \<not> normNow > FreshnessPolicy_FreshUntil fp kind normRet then StateAvailable
      else if \<not> normNow > FreshnessPolicy_StaleUntil fp kind normRet then StateStale
      else StateUnavailable)"

lemma SetConfig_same [simp]: "FreshnessPolicy_Config (SetConfig fp k cfg) k = cfg"
  by (simp add: FreshnessPolicy_Config_def SetConfig_def)

lemma SetConfig_other: "k' \<noteq> k \<Longrightarrow> FreshnessPolicy_Config (SetConfig fp k cfg) k' = FreshnessPolicy_Config fp k'"
  by (simp add: FreshnessPolicy_Config_def SetConfig_def)

text \<open>How far an observation has aged: the order in which a state can only get worse.\<close>

fun staleness :: "State \<Rightarrow> nat" where
  "staleness StateAvailable = 0"
| "staleness StateStale = 1"
| "staleness StateDegraded = 1"
| "staleness StateUnavailable = 2"
| "staleness StateInvalid = 2"

lemma Classify_cases:
  "FreshnessPolicy_Classify fp k r n = StateAvailable
     \<longleftrightarrow> normalizeTime n \<le> FreshnessPolicy_FreshUntil fp k (normalizeTime r)"
  "FreshnessPolicy_Classify fp k r n = StateStale
     \<longleftrightarrow> FreshnessPolicy_FreshUntil fp k (normalizeTime r) < normalizeTime n
         \<and> normalizeTime n \<le> FreshnessPolicy_StaleUntil fp k (normalizeTime r)"
  "FreshnessPolicy_Classify fp k r n = StateUnavailable
     \<longleftrightarrow> FreshnessPolicy_FreshUntil fp k (normalizeTime r) < normalizeTime n
         \<and> FreshnessPolicy_StaleUntil fp k (normalizeTime r) < normalizeTime n"
  by (auto simp: FreshnessPolicy_Classify_def Let_def)

lemma Classify_range:
  "FreshnessPolicy_Classify fp k r n \<in> {StateAvailable, StateStale, StateUnavailable}"
  by (auto simp: FreshnessPolicy_Classify_def Let_def)

lemma Classify_ages:
  assumes "n \<le> n'"
  shows "staleness (FreshnessPolicy_Classify fp k r n) \<le> staleness (FreshnessPolicy_Classify fp k r n')"
proof -
  have "normalizeTime n \<le> normalizeTime n'" using assms by (rule normalizeTime_mono)
  then show ?thesis by (auto simp: FreshnessPolicy_Classify_def Let_def)
qed

section \<open>Provider outcomes\<close>

text \<open>
  \<^verbatim>\<open>Outcome.err\<close> is an error value; only whether it is set and its text are visible, so it is an
  optional string. \<open>zeroOutcome\<close> is Go's zero value \<^verbatim>\<open>Outcome{}\<close>.
\<close>

record Outcome =
  outState :: State
  outKind :: string
  outSource :: string
  outSignals :: "Signal list"
  outErr :: "string option"
  outRetrievedAt :: gotime
  outFreshUntil :: gotime
  outReason :: string

definition zeroOutcome :: Outcome where
  "zeroOutcome = \<lparr>outState = StateInvalid, outKind = [], outSource = [], outSignals = [],
     outErr = None, outRetrievedAt = 0, outFreshUntil = 0, outReason = []\<rparr>"

definition NewAvailableOutcome :: "string \<Rightarrow> string \<Rightarrow> Signal list \<Rightarrow> gotime \<Rightarrow> gotime \<Rightarrow> Outcome" where
  "NewAvailableOutcome kind source signals retrievedAt freshUntil =
     \<lparr>outState = StateAvailable, outKind = kind, outSource = source, outSignals = signals,
      outErr = None, outRetrievedAt = normalizeTime retrievedAt,
      outFreshUntil = normalizeTime freshUntil, outReason = []\<rparr>"

definition NewStaleOutcome ::
  "string \<Rightarrow> string \<Rightarrow> Signal list \<Rightarrow> gotime \<Rightarrow> gotime \<Rightarrow> string \<Rightarrow> Outcome" where
  "NewStaleOutcome kind source signals retrievedAt freshUntil why =
     \<lparr>outState = StateStale, outKind = kind, outSource = source, outSignals = signals,
      outErr = None, outRetrievedAt = normalizeTime retrievedAt,
      outFreshUntil = normalizeTime freshUntil, outReason = why\<rparr>"

definition NewDegradedOutcome ::
  "string \<Rightarrow> string \<Rightarrow> Signal list \<Rightarrow> gotime \<Rightarrow> gotime \<Rightarrow> string \<Rightarrow> Outcome" where
  "NewDegradedOutcome kind source signals retrievedAt freshUntil why =
     \<lparr>outState = StateDegraded, outKind = kind, outSource = source, outSignals = signals,
      outErr = None, outRetrievedAt = normalizeTime retrievedAt,
      outFreshUntil = normalizeTime freshUntil, outReason = why\<rparr>"

definition NewUnavailableOutcome :: "string \<Rightarrow> string \<Rightarrow> string option \<Rightarrow> gotime \<Rightarrow> Outcome" where
  "NewUnavailableOutcome kind source err retrievedAt =
     (let norm = normalizeTime retrievedAt in
     \<lparr>outState = StateUnavailable, outKind = kind, outSource = source, outSignals = [],
      outErr = err, outRetrievedAt = norm, outFreshUntil = norm, outReason = []\<rparr>)"

definition Outcome_State :: "Outcome \<Rightarrow> State" where
  "Outcome_State ou = (if \<not> State_Valid (outState ou) then StateUnavailable else outState ou)"

definition Outcome_Signals :: "Outcome \<Rightarrow> Signal list" where
  "Outcome_Signals ou =
     (if Outcome_State ou = StateUnavailable \<and> length (outSignals ou) = 0
      then [\<lparr>sigKind = outKind ou, sigSource = outSource ou, sigObservation = ''unavailable'',
             sigConfidence = ConfidenceNone, sigRetrievedAt = outRetrievedAt ou,
             sigFreshUntil = outFreshUntil ou\<rparr>]
      else outSignals ou)"

definition IsAvailable :: "Outcome \<Rightarrow> bool" where "IsAvailable ou = (Outcome_State ou = StateAvailable)"
definition IsStale :: "Outcome \<Rightarrow> bool" where "IsStale ou = (Outcome_State ou = StateStale)"
definition IsDegraded :: "Outcome \<Rightarrow> bool" where "IsDegraded ou = (Outcome_State ou = StateDegraded)"
definition IsUnavailable :: "Outcome \<Rightarrow> bool" where "IsUnavailable ou = (Outcome_State ou = StateUnavailable)"

lemmas outcome_state_defs = Outcome_State_def IsAvailable_def IsStale_def IsDegraded_def IsUnavailable_def
lemmas new_outcome_defs = NewAvailableOutcome_def NewStaleOutcome_def NewDegradedOutcome_def
  NewUnavailableOutcome_def

lemma Outcome_State_valid [simp]: "Outcome_State ou \<noteq> StateInvalid"
  by (cases "outState ou") (auto simp: Outcome_State_def)

lemma zeroOutcome_unavailable [simp]: "Outcome_State zeroOutcome = StateUnavailable"
  by (simp add: zeroOutcome_def Outcome_State_def)

lemma unavailable_signal_visible:
  assumes "IsUnavailable ou" and "outSignals ou = []"
  shows "\<exists>s \<in> set (Outcome_Signals ou). sigObservation s = ''unavailable'' \<and> sigKind s = outKind ou"
  using assms by (simp add: Outcome_Signals_def IsUnavailable_def)

end
