(* ===== verification/Timefmt.thy ===== *)
theory Timefmt
  imports Prelude
begin

text \<open>
  Rendering numbers and instants as Go does (\<^verbatim>\<open>strconv\<close>, \<^verbatim>\<open>time.Format\<close> with the layout
  \<^verbatim>\<open>RFC3339Nano\<close> in UTC), with the proof that the rendering of instants from year 1 on is
  injective. The canonical form of an evidence snapshot compares and hashes these texts.
\<close>

section \<open>Decimal numbers\<close>

definition digit :: "nat \<Rightarrow> char" where
  "digit n = char_of (48 + n)"

fun show_nat :: "nat \<Rightarrow> string" where
  "show_nat n = (if n < 10 then [digit n] else show_nat (n div 10) @ [digit (n mod 10)])"

declare show_nat.simps [simp del]

fun pad_digits :: "nat \<Rightarrow> nat \<Rightarrow> string" where
  "pad_digits 0 n = []"
| "pad_digits (Suc w) n = pad_digits w (n div 10) @ [digit (n mod 10)]"

lemma digit_eq_iff: "m < 10 \<Longrightarrow> n < 10 \<Longrightarrow> digit m = digit n \<longleftrightarrow> m = n"
  by (auto simp: digit_def dest!: arg_cong [where f = "of_char :: char \<Rightarrow> nat"])

lemma digit_range: "n < 10 \<Longrightarrow> byte (digit n) = 48 + n"
  by (simp add: digit_def)

lemma length_pad_digits [simp]: "length (pad_digits w n) = w"
  by (induction w arbitrary: n) auto

lemma pad_digits_inj: "m < 10 ^ w \<Longrightarrow> n < 10 ^ w \<Longrightarrow> pad_digits w m = pad_digits w n \<Longrightarrow> m = n"
proof (induction w arbitrary: m n)
  case (Suc w)
  have "m div 10 < 10 ^ w" "n div 10 < 10 ^ w"
    using Suc.prems(1,2) by (auto simp: less_mult_imp_div_less)
  moreover have "pad_digits w (m div 10) = pad_digits w (n div 10)" "m mod 10 = n mod 10"
    using Suc.prems(3) by (auto simp: digit_eq_iff)
  ultimately have "m div 10 = n div 10" "m mod 10 = n mod 10" using Suc.IH by auto
  then show ?case by (metis div_mult_mod_eq)
qed simp

lemma show_nat_digits: "c \<in> set (show_nat n) \<Longrightarrow> 48 \<le> byte c \<and> byte c < 58"
proof (induction n rule: show_nat.induct)
  case (1 n)
  then show ?case
    by (cases "n < 10") (auto simp: show_nat.simps [of n] digit_range)
qed

lemma show_nat_not_Nil [simp]: "show_nat n \<noteq> []" "[] \<noteq> show_nat n"
  by (subst show_nat.simps, simp)+

lemma show_nat_inj: "show_nat m = show_nat n \<Longrightarrow> m = n"
proof (induction m arbitrary: n rule: show_nat.induct)
  case (1 m)
  show ?case
  proof (cases "m < 10")
    case True
    with "1.prems" have "[digit m] = show_nat n" by (simp add: show_nat.simps [of m])
    then have "n < 10 \<and> digit m = digit n"
      by (cases "n < 10") (auto simp: show_nat.simps [of n])
    then show ?thesis using True digit_eq_iff by blast
  next
    case False
    with "1.prems" have eq: "show_nat (m div 10) @ [digit (m mod 10)] = show_nat n"
      by (simp add: show_nat.simps [of m])
    have "\<not> n < 10" using eq by (auto simp: show_nat.simps [of n])
    with eq have "show_nat (m div 10) = show_nat (n div 10)" "m mod 10 = n mod 10"
      by (auto simp: show_nat.simps [of n] digit_eq_iff)
    with "1.IH" False have "m div 10 = n div 10" "m mod 10 = n mod 10" by auto
    then show ?thesis by (metis div_mult_mod_eq)
  qed
qed

lemma pad_digits_range: "c \<in> set (pad_digits w n) \<Longrightarrow> 48 \<le> byte c \<and> byte c < 58"
  by (induction w arbitrary: n) (auto simp: digit_range)

definition show_int :: "int \<Rightarrow> string" where
  "show_int i = (if i < 0 then CHR ''-'' # show_nat (nat (- i)) else show_nat (nat i))"

section \<open>The civil date\<close>

text \<open>Days since 1 January of year 1 to year and day of the year, by 400, 100, 4 and 1 year cycles.\<close>

definition year_yday :: "nat \<Rightarrow> nat \<times> nat" where
  "year_yday d =
    (let n400 = d div 146097; d1 = d mod 146097;
         n100 = min 3 (d1 div 36524); d2 = d1 - n100 * 36524;
         n4 = d2 div 1461; d3 = d2 mod 1461;
         n1 = min 3 (d3 div 365)
     in (400 * n400 + 100 * n100 + 4 * n4 + n1 + 1, d3 - n1 * 365))"

definition isLeap :: "nat \<Rightarrow> bool" where
  "isLeap y = (y mod 4 = 0 \<and> (y mod 100 \<noteq> 0 \<or> y mod 400 = 0))"

definition month_lengths :: "bool \<Rightarrow> nat list" where
  "month_lengths leap = [31, if leap then 29 else 28, 31, 30, 31, 30, 31, 31, 30, 31, 30, 31]"

fun locate_month :: "nat \<Rightarrow> nat list \<Rightarrow> nat \<Rightarrow> nat \<times> nat" where
  "locate_month m [] d = (m, d + 1)"
| "locate_month m (l # ls) d = (if d < l then (m, d + 1) else locate_month (Suc m) ls (d - l))"

definition civil :: "nat \<Rightarrow> nat \<times> nat \<times> nat" where
  "civil d = (let (y, yd) = year_yday d in
     let (m, dd) = locate_month 1 (month_lengths (isLeap y)) yd in (y, m, dd))"

lemma mult_add_mod: "(r::nat) < b \<Longrightarrow> x = b * k + r \<Longrightarrow> x div b = k \<and> x mod b = r"
  by simp

lemma year_yday_inj:
  assumes "year_yday d = year_yday e"
  shows "d = e"
proof -
  have decode: "d = 146097 * ((y - 1) div 400) + 36524 * ((y - 1) mod 400 div 100)
      + 1461 * ((y - 1) mod 100 div 4) + 365 * ((y - 1) mod 4) + yd"
    if "year_yday d = (y, yd)" for d y yd
  proof -
    define n400 d1 where "n400 = d div 146097" and "d1 = d mod 146097"
    define n100 where "n100 = min 3 (d1 div 36524)"
    define d2 where "d2 = d1 - n100 * 36524"
    define n4 d3 where "n4 = d2 div 1461" and "d3 = d2 mod 1461"
    define n1 where "n1 = min 3 (d3 div 365)"
    have "year_yday d = (400 * n400 + 100 * n100 + 4 * n4 + n1 + 1, d3 - n1 * 365)"
      unfolding year_yday_def Let_def n1_def d3_def n4_def d2_def n100_def d1_def n400_def by (rule refl)
    with that have y: "y = 400 * n400 + 100 * n100 + 4 * n4 + n1 + 1" and yd: "yd = d3 - n1 * 365"
      by (simp_all only: prod.inject)
    have d1: "d1 < 146097" and d: "d = 146097 * n400 + d1" by (auto simp: d1_def n400_def)
    have n100: "n100 \<le> 3" and d2: "d1 = n100 * 36524 + d2" and d2b: "d2 \<le> 36524"
      using d1 unfolding n100_def d2_def by (auto simp: min_def)
    have n4: "n4 \<le> 24" and d3: "d2 = 1461 * n4 + d3" and d3b: "d3 < 1461"
      using d2b unfolding n4_def d3_def by auto
    have n1: "n1 \<le> 3" and d4: "d3 = n1 * 365 + yd"
      unfolding yd n1_def by (auto simp: min_def)
    have ym: "y - 1 = 400 * n400 + (100 * n100 + (4 * n4 + n1))" using y by simp
    have "(y - 1) div 400 = n400 \<and> (y - 1) mod 400 = 100 * n100 + (4 * n4 + n1)"
      by (rule mult_add_mod [OF _ ym]) (use n100 n4 n1 in simp)
    moreover have "(100 * n100 + (4 * n4 + n1)) div 100 = n100"
      by (rule mult_add_mod [THEN conjunct1, OF _ refl]) (use n4 n1 in simp)
    moreover have "(y - 1) mod 100 = 4 * n4 + n1"
      by (rule conjunct2 [OF mult_add_mod [of _ _ _ "4 * n400 + n100"]]) (use ym n4 n1 in simp_all)
    moreover have "(4 * n4 + n1) div 4 = n4"
      by (rule mult_add_mod [THEN conjunct1, OF _ refl]) (use n1 in simp)
    moreover have "(y - 1) mod 4 = n1"
      by (rule conjunct2 [OF mult_add_mod [of _ _ _ "100 * n400 + 25 * n100 + n4"]]) (use ym n1 in simp_all)
    ultimately show ?thesis using d d2 d3 d4 by simp
  qed
  obtain y yd where d: "year_yday d = (y, yd)" by (cases "year_yday d")
  with assms have e: "year_yday e = (y, yd)" by simp
  show ?thesis by (rule trans [OF decode [OF d] decode [OF e, symmetric]])
qed

lemma locate_month_bounds:
  "locate_month m ls d = (m', dd) \<Longrightarrow> m \<le> m' \<and> 1 \<le> dd \<and> m' \<le> m + length ls"
proof (induction m ls d rule: locate_month.induct)
  case (2 m l ls d)
  show ?case
  proof (cases "d < l")
    case False
    with "2.prems" have "locate_month (Suc m) ls (d - l) = (m', dd)" by simp
    then show ?thesis using "2.IH" [OF False] by auto
  qed (use "2.prems" in auto)
qed auto

lemma locate_month_inj:
  "locate_month m ls d = locate_month m ls e \<Longrightarrow> d = e"
proof (induction m ls d arbitrary: e rule: locate_month.induct)
  case (2 m l ls d)
  have high: "fst (locate_month (Suc m) ls x) > m" for x
    using locate_month_bounds [of "Suc m" ls x] by (cases "locate_month (Suc m) ls x") auto
  show ?case
  proof (cases "d < l")
    case True
    have "e < l"
    proof (rule ccontr)
      assume "\<not> e < l"
      with True "2.prems" have "locate_month (Suc m) ls (e - l) = (m, d + 1)" by simp
      then show False using high [of "e - l"] by simp
    qed
    with True "2.prems" show ?thesis by simp
  next
    case False
    have ge: "\<not> e < l"
    proof
      assume "e < l"
      with False "2.prems" have "locate_month (Suc m) ls (d - l) = (m, e + 1)" by simp
      then show False using high [of "d - l"] by simp
    qed
    with False "2.prems" have "locate_month (Suc m) ls (d - l) = locate_month (Suc m) ls (e - l)" by simp
    then have "d - l = e - l" by (rule "2.IH" [OF False])
    then show ?thesis using False ge by simp
  qed
qed auto

lemma civil_inj: "civil d = civil e \<Longrightarrow> d = e"
proof -
  assume eq: "civil d = civil e"
  obtain y yd where d: "year_yday d = (y, yd)" by (cases "year_yday d")
  obtain y' yd' where e: "year_yday e = (y', yd')" by (cases "year_yday e")
  from eq d e have y: "y = y'"
    and m: "locate_month 1 (month_lengths (isLeap y)) yd = locate_month 1 (month_lengths (isLeap y')) yd'"
    by (auto simp: civil_def split: prod.splits)
  from m y have "yd = yd'" using locate_month_inj by blast
  with y d e have "year_yday d = year_yday e" by simp
  then show "d = e" by (rule year_yday_inj)
qed

lemma year_yday_bound: "snd (year_yday d) \<le> 365"
proof -
  have "x - min 3 (x div 365) * 365 \<le> 365" if "x < 1461" for x :: nat
  proof (cases "3 \<le> x div 365")
    case True
    then show ?thesis using that by simp
  next
    case False
    then show ?thesis by (simp add: minus_div_mult_eq_mod less_imp_le_nat [OF mod_less_divisor])
  qed
  then show ?thesis by (simp add: year_yday_def Let_def)
qed

lemma locate_month_day:
  "\<lbrakk>locate_month m ls d = (m', dd); \<forall>l \<in> set ls. l \<le> 31; d < sum_list ls + 31\<rbrakk> \<Longrightarrow> dd \<le> 31"
proof (induction m ls d rule: locate_month.induct)
  case (2 m l ls d)
  show ?case
  proof (cases "d < l")
    case True
    then show ?thesis using "2.prems" by auto
  next
    case False
    with "2.prems" have "locate_month (Suc m) ls (d - l) = (m', dd)" "d - l < sum_list ls + 31" by auto
    with "2.IH" [OF False] "2.prems"(2) show ?thesis by auto
  qed
qed auto

lemma civil_bounds: "civil d = (y, m, dd) \<Longrightarrow> m \<le> 13 \<and> dd \<le> 31"
proof -
  assume "civil d = (y, m, dd)"
  then have loc: "locate_month 1 (month_lengths (isLeap y)) (snd (year_yday d)) = (m, dd)"
    by (auto simp: civil_def split: prod.splits)
  have "snd (year_yday d) < sum_list (month_lengths (isLeap y)) + 31"
    using year_yday_bound [of d] by (simp add: month_lengths_def)
  moreover have "\<forall>l \<in> set (month_lengths (isLeap y)). l \<le> 31" by (simp add: month_lengths_def)
  moreover have "length (month_lengths (isLeap y)) = 12" by (simp add: month_lengths_def)
  ultimately show ?thesis using locate_month_day [OF loc] locate_month_bounds [OF loc] by auto
qed

section \<open>RFC 3339 with nanoseconds\<close>

text \<open>The fraction: nothing for a whole second, else the nine digits without trailing zeros.\<close>

definition trim_zeros :: "string \<Rightarrow> string" where
  "trim_zeros s = rev (dropWhile (\<lambda>c. c = CHR ''0'') (rev s))"

definition frac_digits :: "nat \<Rightarrow> string" where
  "frac_digits ns = (if ns = 0 then [] else CHR ''.'' # trim_zeros (pad_digits 9 ns))"

definition show_year :: "nat \<Rightarrow> string" where
  "show_year y = (if y < 10000 then pad_digits 4 y else show_nat y)"

definition clock_text :: "nat \<Rightarrow> string" where
  "clock_text s = pad_digits 2 (s div 3600) @ '':'' @ pad_digits 2 (s div 60 mod 60) @ '':'' @ pad_digits 2 (s mod 60)"

definition Format_RFC3339Nano :: "gotime \<Rightarrow> string" where
  "Format_RFC3339Nano t =
    (let ns = nat (t mod 1000000000); secs = nat (t div 1000000000);
         (y, m, d) = civil (secs div 86400)
     in show_year y @ ''-'' @ pad_digits 2 m @ ''-'' @ pad_digits 2 d @ ''T''
        @ clock_text (secs mod 86400) @ frac_digits ns @ ''Z'')"

text \<open>Each field is recovered from the text, so equal texts come from equal instants.\<close>

lemma dropWhile_eq_inj:
  "length xs = length ys \<Longrightarrow> dropWhile (\<lambda>c. c = z) xs = dropWhile (\<lambda>c. c = z) ys \<Longrightarrow> xs = ys"
proof (induction xs ys rule: list_induct2)
  case (Cons x xs y ys)
  have short: "dropWhile (\<lambda>c. c = z) us \<noteq> v # vs" if "length us = length vs" for us vs :: "'a list" and v
    using length_dropWhile_le [of "\<lambda>c. c = z" us] that by auto
  show ?case
    using Cons.IH Cons.prems Cons.hyps short [of xs ys y] short [of ys xs x]
    by (auto split: if_splits)
qed simp

lemma trim_zeros_inj: "length s = length t \<Longrightarrow> trim_zeros s = trim_zeros t \<Longrightarrow> s = t"
  using dropWhile_eq_inj [of "rev s" "rev t" "CHR ''0''"] by (simp add: trim_zeros_def)

lemma frac_digits_inj:
  assumes "m < 10 ^ 9" "n < 10 ^ 9" "frac_digits m = frac_digits n"
  shows "m = n"
proof (cases "m = 0 \<or> n = 0")
  case True
  then show ?thesis using assms(3) by (auto simp: frac_digits_def split: if_splits)
next
  case False
  with assms(3) have "trim_zeros (pad_digits 9 m) = trim_zeros (pad_digits 9 n)"
    by (simp add: frac_digits_def del: pad_digits.simps)
  then have "pad_digits 9 m = pad_digits 9 n"
    using trim_zeros_inj length_pad_digits by metis
  with assms(1,2) show ?thesis by (rule pad_digits_inj)
qed

lemma show_year_digits: "c \<in> set (show_year y) \<Longrightarrow> 48 \<le> byte c \<and> byte c < 58"
  by (auto simp: show_year_def dest: pad_digits_range show_nat_digits split: if_splits)

lemma length_show_nat_ge: "10 ^ k \<le> n \<Longrightarrow> k < length (show_nat n)"
proof (induction k arbitrary: n)
  case 0
  then show ?case by simp
next
  case (Suc k)
  then have "10 ^ k \<le> n div 10" by (simp add: less_eq_div_iff_mult_less_eq mult.commute)
  with Suc.IH have "k < length (show_nat (n div 10))" by blast
  moreover have "10 \<le> n" using Suc.prems by (metis le_trans one_le_power power_Suc mult_le_mono2 mult.right_neutral one_le_numeral)
  ultimately show ?case by (simp add: show_nat.simps [of n])
qed

lemma show_year_inj: "show_year x = show_year y \<Longrightarrow> x = y"
proof -
  assume eq: "show_year x = show_year y"
  have long: "4 < length (show_nat n)" if "\<not> n < 10000" for n
    using length_show_nat_ge [of 4 n] that by simp
  show "x = y"
  proof (cases "x < 10000 \<longleftrightarrow> y < 10000")
    case True
    then show ?thesis using eq pad_digits_inj [of x 4 y] show_nat_inj
      by (auto simp: show_year_def split: if_splits)
  next
    case False
    then have "length (show_year x) \<noteq> length (show_year y)"
      using long [of x] long [of y] by (auto simp: show_year_def)
    then show ?thesis using eq by simp
  qed
qed

lemma clock_text_inj: "s < 86400 \<Longrightarrow> t < 86400 \<Longrightarrow> clock_text s = clock_text t \<Longrightarrow> s = t"
proof -
  assume s: "s < 86400" and t: "t < 86400" and eq: "clock_text s = clock_text t"
  have parts: "pad_digits 2 (s div 3600) = pad_digits 2 (t div 3600)"
    "pad_digits 2 (s div 60 mod 60) = pad_digits 2 (t div 60 mod 60)"
    "pad_digits 2 (s mod 60) = pad_digits 2 (t mod 60)"
    using eq by (simp_all add: clock_text_def)
  have "s div 3600 < 10 ^ 2" "t div 3600 < 10 ^ 2" using s t by simp_all
  then have "s div 3600 = t div 3600" using parts(1) pad_digits_inj by blast
  moreover have "s div 60 mod 60 < 10 ^ 2" "t div 60 mod 60 < 10 ^ 2" "s mod 60 < 10 ^ 2" "t mod 60 < 10 ^ 2"
    by (simp_all add: less_trans [OF mod_less_divisor])
  then have "s div 60 mod 60 = t div 60 mod 60" "s mod 60 = t mod 60"
    using parts(2,3) pad_digits_inj by blast+
  moreover have "x = 3600 * (x div 3600) + 60 * (x div 60 mod 60) + x mod 60" for x :: nat
  proof -
    have "x div 3600 = x div 60 div 60" by (simp add: div_mult2_eq [symmetric])
    moreover have "x = 60 * (x div 60) + x mod 60" by simp
    moreover have "x div 60 = 60 * (x div 60 div 60) + x div 60 mod 60" by (rule mult_div_mod_eq [symmetric])
    ultimately show ?thesis by linarith
  qed
  ultimately show "s = t" by metis
qed

lemma clock_text_length [simp]: "length (clock_text s) = 8"
  by (simp add: clock_text_def)

lemma append_Cons_sep_eq:
  "c \<notin> set a \<Longrightarrow> c \<notin> set b \<Longrightarrow> a @ c # r = b @ c # q \<Longrightarrow> a = b \<and> r = q"
  by (induction a arbitrary: b; case_tac b) auto

lemma Format_inj:
  assumes "0 \<le> s" "0 \<le> t" "Format_RFC3339Nano s = Format_RFC3339Nano t"
  shows "s = t"
proof -
  define ns where "ns = (\<lambda>t::int. nat (t mod 1000000000))"
  define secs where "secs = (\<lambda>t::int. nat (t div 1000000000))"
  obtain y m d where c: "civil (secs s div 86400) = (y, m, d)" by (metis prod_cases3)
  obtain y' m' d' where c': "civil (secs t div 86400) = (y', m', d')" by (metis prod_cases3)
  define tail where "tail = (\<lambda>t. clock_text (secs t mod 86400) @ frac_digits (ns t) @ ''Z'')"
  have nd: "CHR ''-'' \<notin> set (show_year z)" for z using show_year_digits [of "CHR ''-''" z] by auto
  have "show_year y @ CHR ''-'' # (pad_digits 2 m @ CHR ''-'' # pad_digits 2 d @ CHR ''T'' # tail s)
      = show_year y' @ CHR ''-'' # (pad_digits 2 m' @ CHR ''-'' # pad_digits 2 d' @ CHR ''T'' # tail t)"
    using assms(3) c c' by (simp add: Format_RFC3339Nano_def ns_def secs_def tail_def)
  from append_Cons_sep_eq [OF nd nd this] have "show_year y = show_year y'"
    and rest: "pad_digits 2 m @ CHR ''-'' # pad_digits 2 d @ CHR ''T'' # tail s
      = pad_digits 2 m' @ CHR ''-'' # pad_digits 2 d' @ CHR ''T'' # tail t"
    by simp_all
  have "y = y'" by (rule show_year_inj) fact
  have md: "pad_digits 2 m = pad_digits 2 m'" "pad_digits 2 d = pad_digits 2 d'"
    and tl: "tail s = tail t"
    using rest by (simp_all only: append_eq_append_conv length_pad_digits list.inject simp_thms)
  have "m < 10 ^ 2" "m' < 10 ^ 2" "d < 10 ^ 2" "d' < 10 ^ 2"
    using civil_bounds [OF c] civil_bounds [OF c'] by simp_all
  then have "m = m'" "d = d'" by (auto intro: pad_digits_inj [OF _ _ md(1)] pad_digits_inj [OF _ _ md(2)])
  with \<open>y = y'\<close> c c' have days: "secs s div 86400 = secs t div 86400" using civil_inj by metis
  have "clock_text (secs s mod 86400) = clock_text (secs t mod 86400)" and "frac_digits (ns s) = frac_digits (ns t)"
    using tl by (auto simp: tail_def)
  then have "secs s mod 86400 = secs t mod 86400" and nseq: "ns s = ns t"
    using clock_text_inj [of "secs s mod 86400" "secs t mod 86400"] frac_digits_inj [of "ns s" "ns t"]
    by (simp_all add: ns_def nat_less_iff)
  with days have "secs s = secs t" by (metis div_mult_mod_eq)
  then have "s div 1000000000 = t div 1000000000" "s mod 1000000000 = t mod 1000000000"
    using nseq assms(1,2) by (auto simp: secs_def ns_def eq_nat_nat_iff pos_imp_zdiv_nonneg_iff)
  then show "s = t" by (metis div_mult_mod_eq)
qed

end
