(* ===== verification/Snapshot.thy ===== *)
theory Snapshot
  imports Freshness Timefmt
begin

text \<open>
  Immutable, content-addressed evidence snapshots: \<^verbatim>\<open>src/internal/evidence/snapshot.go\<close>.
  Provider states are an association list. The SHA-256 function is the parameter
  \<open>sha256_hex\<close> (bytes to lower-case hexadecimal); everything proved here holds for any such
  function. The JSON codec is modelled on the encoding side by \<open>json_string\<close> and
  \<open>json_payload\<close>; a decoded document is the record \<open>snapshotJSON\<close>.
\<close>

section \<open>Canonical JSON\<close>

text \<open>The escapes of \<^verbatim>\<open>json.Marshal\<close>, which also escapes the HTML characters.\<close>

definition json_escape_rune :: "nat \<Rightarrow> string" where
  "json_escape_rune r =
     (if r = 34 \<or> r = 92 then [CHR 0x5C, char_of r]
      else if r = 8 then CHR 0x5C # ''b''
      else if r = 12 then CHR 0x5C # ''f''
      else if r = 10 then CHR 0x5C # ''n''
      else if r = 13 then CHR 0x5C # ''r''
      else if r = 9 then CHR 0x5C # ''t''
      else if r < 32 \<or> r = 60 \<or> r = 62 \<or> r = 38 \<or> r = 8232 \<or> r = 8233 \<or> r = 65533
        then CHR 0x5C # CHR ''u'' # [hex_digit (r div 4096), hex_digit (r div 256 mod 16),
               hex_digit (r div 16 mod 16), hex_digit (r mod 16)]
      else encode_rune r)"

definition json_string :: "string \<Rightarrow> string" where
  "json_string s = CHR 0x22 # concat (map json_escape_rune (runes s)) @ [CHR 0x22]"

definition json_object :: "(string \<times> string) list \<Rightarrow> string" where
  "json_object members =
     CHR ''{'' # Join '','' (map (\<lambda>(k, v). json_string k @ '':'' @ v) members) @ ''}''"

definition json_array :: "string list \<Rightarrow> string" where
  "json_array xs = CHR ''['' # Join '','' xs @ '']''"

record canonicalObservation =
  coKind :: string
  coSource :: string
  coObservation :: string
  coConfidence :: string
  coRetrievedAt :: string
  coFreshUntil :: string

record canonicalState =
  csKey :: string
  csState :: string

record canonicalPayload =
  cpPackage :: string
  cpVersion :: string
  cpObservations :: "canonicalObservation list"
  cpProviderStates :: "canonicalState list"

definition json_observation :: "canonicalObservation \<Rightarrow> string" where
  "json_observation ob = json_object
     [(''kind'', json_string (coKind ob)), (''source'', json_string (coSource ob)),
      (''observation'', json_string (coObservation ob)), (''confidence'', json_string (coConfidence ob)),
      (''retrieved_at'', json_string (coRetrievedAt ob)), (''fresh_until'', json_string (coFreshUntil ob))]"

definition json_state :: "canonicalState \<Rightarrow> string" where
  "json_state st = json_object [(''key'', json_string (csKey st)), (''state'', json_string (csState st))]"

definition json_payload :: "canonicalPayload \<Rightarrow> string" where
  "json_payload p = json_object
     ([(''package'', json_string (cpPackage p)), (''version'', json_string (cpVersion p)),
       (''observations'', json_array (map json_observation (cpObservations p)))]
      @ (if cpProviderStates p = [] then []
         else [(''provider_states'', json_array (map json_state (cpProviderStates p)))]))"

section \<open>Snapshots\<close>

type_synonym ProviderStates = "(string \<times> State) list"

record Snapshot =
  snapID :: string
  snapPkg :: string
  snapVersion :: string
  snapObservations :: "Signal list"
  snapProviderStates :: ProviderStates
  snapCreatedAt :: gotime

definition normalizeSignal :: "Signal \<Rightarrow> Signal" where
  "normalizeSignal ob = \<lparr>sigKind = sigKind ob, sigSource = sigSource ob,
     sigObservation = sigObservation ob, sigConfidence = sigConfidence ob,
     sigRetrievedAt = normalizeTime (sigRetrievedAt ob), sigFreshUntil = normalizeTime (sigFreshUntil ob)\<rparr>"

definition observation_less :: "Signal \<Rightarrow> Signal \<Rightarrow> bool" where
  "observation_less a b =
     (if sigKind a \<noteq> sigKind b then sigKind a < sigKind b
      else if sigSource a \<noteq> sigSource b then sigSource a < sigSource b
      else if sigObservation a \<noteq> sigObservation b then sigObservation a < sigObservation b
      else if sigConfidence a \<noteq> sigConfidence b then sigConfidence a < sigConfidence b
      else let aRet = Format_RFC3339Nano (sigRetrievedAt a); bRet = Format_RFC3339Nano (sigRetrievedAt b) in
        if aRet \<noteq> bRet then aRet < bRet
        else Format_RFC3339Nano (sigFreshUntil a) < Format_RFC3339Nano (sigFreshUntil b))"

definition canonicalizeObservations :: "Signal list \<Rightarrow> Signal list" where
  "canonicalizeObservations observations =
     SortSlice observation_less (map normalizeSignal observations)"

definition canonicalObs :: "Signal \<Rightarrow> canonicalObservation" where
  "canonicalObs ob = \<lparr>coKind = sigKind ob, coSource = sigSource ob, coObservation = sigObservation ob,
     coConfidence = sigConfidence ob, coRetrievedAt = Format_RFC3339Nano (sigRetrievedAt ob),
     coFreshUntil = Format_RFC3339Nano (sigFreshUntil ob)\<rparr>"

definition snapshotPayload :: "string \<Rightarrow> string \<Rightarrow> Signal list \<Rightarrow> ProviderStates \<Rightarrow> canonicalPayload" where
  "snapshotPayload pkg version sortedObs states =
     \<lparr>cpPackage = pkg, cpVersion = version, cpObservations = map canonicalObs sortedObs,
      cpProviderStates = map (\<lambda>k. \<lparr>csKey = k, csState = state_string (the (map_of states k))\<rparr>)
        (SortStrings (map fst states))\<rparr>"

definition computeSnapshotID ::
  "(string \<Rightarrow> string) \<Rightarrow> string \<Rightarrow> string \<Rightarrow> Signal list \<Rightarrow> ProviderStates \<Rightarrow> string" where
  "computeSnapshotID sha256_hex pkg version sortedObs states =
     ''sha256:'' @ sha256_hex (json_payload (snapshotPayload pkg version sortedObs states))"

definition NewSnapshot ::
  "(string \<Rightarrow> string) \<Rightarrow> string \<Rightarrow> string \<Rightarrow> Signal list \<Rightarrow> ProviderStates \<Rightarrow> gotime \<Rightarrow> Snapshot" where
  "NewSnapshot sha256_hex pkg version observations states createdAt =
     (let sortedObs = canonicalizeObservations observations in
      \<lparr>snapID = computeSnapshotID sha256_hex pkg version sortedObs states,
       snapPkg = pkg, snapVersion = version, snapObservations = sortedObs,
       snapProviderStates = states, snapCreatedAt = normalizeTime createdAt\<rparr>)"

definition Snapshot_Observation :: "Snapshot \<Rightarrow> string \<Rightarrow> Signal option" where
  "Snapshot_Observation s kind = find (\<lambda>ob. sigKind ob = kind) (snapObservations s)"

definition ObservationsByKind :: "Snapshot \<Rightarrow> string \<Rightarrow> Signal list" where
  "ObservationsByKind s kind = filter (\<lambda>ob. sigKind ob = kind) (snapObservations s)"

definition Snapshot_State :: "Snapshot \<Rightarrow> string \<Rightarrow> State" where
  "Snapshot_State s key =
     (case map_of (snapProviderStates s) key of
        Some st \<Rightarrow> st
      | None \<Rightarrow> if list_ex (\<lambda>ob. sigKind ob = key \<and> sigObservation ob = ''unavailable'') (snapObservations s)
                then StateUnavailable else StateAvailable)"

definition HasUnavailableEvidence :: "Snapshot \<Rightarrow> bool" where
  "HasUnavailableEvidence s =
     (list_ex (\<lambda>(k, st). st = StateUnavailable) (snapProviderStates s) \<or>
      list_ex (\<lambda>ob. (sigKind ob = KindAvailability \<and> sigObservation ob = ''unavailable'')
                    \<or> sigObservation ob = ''unavailable'') (snapObservations s))"

record snapshotJSON =
  sjID :: string
  sjPackage :: string
  sjVersion :: string
  sjObservations :: "Signal list"
  sjProviderStates :: ProviderStates
  sjCreatedAt :: gotime

definition MarshalJSON :: "Snapshot \<Rightarrow> snapshotJSON" where
  "MarshalJSON s = \<lparr>sjID = snapID s, sjPackage = snapPkg s, sjVersion = snapVersion s,
     sjObservations = snapObservations s, sjProviderStates = snapProviderStates s,
     sjCreatedAt = snapCreatedAt s\<rparr>"

text \<open>The error carries the computed and the stored identity.\<close>

definition UnmarshalJSON :: "(string \<Rightarrow> string) \<Rightarrow> snapshotJSON \<Rightarrow> string \<times> string + Snapshot" where
  "UnmarshalJSON sha256_hex raw =
     (let sortedObs = canonicalizeObservations (sjObservations raw);
          computedID = computeSnapshotID sha256_hex (sjPackage raw) (sjVersion raw) sortedObs (sjProviderStates raw)
      in if sjID raw \<noteq> [] \<and> sjID raw \<noteq> computedID then Inl (computedID, sjID raw)
         else Inr \<lparr>snapID = computedID, snapPkg = sjPackage raw, snapVersion = sjVersion raw,
                   snapObservations = sortedObs, snapProviderStates = sjProviderStates raw,
                   snapCreatedAt = normalizeTime (sjCreatedAt raw)\<rparr>)"

section \<open>The canonical order\<close>

text \<open>The comparison is the lexicographic order of the six rendered fields.\<close>

definition observation_key :: "Signal \<Rightarrow> string list" where
  "observation_key ob = [sigKind ob, sigSource ob, sigObservation ob, sigConfidence ob,
     Format_RFC3339Nano (sigRetrievedAt ob), Format_RFC3339Nano (sigFreshUntil ob)]"

lemma observation_less_key: "observation_less a b \<longleftrightarrow> observation_key a < observation_key b"
  by (auto simp: observation_less_def observation_key_def Let_def)

definition timed :: "Signal \<Rightarrow> bool" where
  "timed ob = (0 \<le> sigRetrievedAt ob \<and> 0 \<le> sigFreshUntil ob)"

lemma normalizeTime_nonneg: "0 \<le> t \<Longrightarrow> 0 \<le> normalizeTime t"
  using normalizeTime_mono [of 0 t] by simp

lemma timed_normalizeSignal: "timed ob \<Longrightarrow> timed (normalizeSignal ob)"
  by (simp add: timed_def normalizeSignal_def normalizeTime_nonneg)

lemma normalizeSignal_idem [simp]: "normalizeSignal (normalizeSignal ob) = normalizeSignal ob"
  by (simp add: normalizeSignal_def)

lemma normalizeSignal_fields [simp]:
  "sigKind (normalizeSignal ob) = sigKind ob" "sigSource (normalizeSignal ob) = sigSource ob"
  "sigObservation (normalizeSignal ob) = sigObservation ob"
  "sigConfidence (normalizeSignal ob) = sigConfidence ob"
  by (simp_all add: normalizeSignal_def)

lemma observation_key_inj: "inj_on observation_key {ob. timed ob}"
proof (rule inj_onI)
  fix a b :: Signal
  assume "a \<in> {ob. timed ob}" "b \<in> {ob. timed ob}" "observation_key a = observation_key b"
  then show "a = b"
    using Format_inj by (intro Signal.equality) (auto simp: observation_key_def timed_def)
qed

lemma canonicalizeObservations_perm:
  assumes "\<forall>ob \<in> set xs. timed ob" "mset ys = mset xs"
  shows "canonicalizeObservations ys = canonicalizeObservations xs"
  unfolding canonicalizeObservations_def
proof (rule SortSlice_cong_mset [where f = observation_key])
  show "inj_on observation_key (set (map normalizeSignal xs))"
    using assms(1) timed_normalizeSignal by (intro inj_on_subset [OF observation_key_inj]) auto
  show "mset (map normalizeSignal ys) = mset (map normalizeSignal xs)"
    using assms(2) by (simp add: mset_map)
qed (rule observation_less_key)

lemma canonicalizeObservations_idem:
  "canonicalizeObservations (canonicalizeObservations xs) = canonicalizeObservations xs"
proof -
  have "map normalizeSignal (canonicalizeObservations xs) = canonicalizeObservations xs"
    by (rule map_idI) (auto simp: canonicalizeObservations_def)
  then have "canonicalizeObservations (canonicalizeObservations xs)
      = SortSlice observation_less (canonicalizeObservations xs)"
    by (simp add: canonicalizeObservations_def)
  then show ?thesis
    using SortSlice_idem [OF observation_less_key] by (simp add: canonicalizeObservations_def)
qed

lemma set_canonicalizeObservations:
  "set (canonicalizeObservations xs) = normalizeSignal ` set xs"
  by (simp add: canonicalizeObservations_def)

lemma observations_canonical_iff:
  "(\<exists>ob \<in> set (canonicalizeObservations xs). P (sigKind ob) (sigObservation ob))
     \<longleftrightarrow> (\<exists>ob \<in> set xs. P (sigKind ob) (sigObservation ob))"
  by (auto simp: set_canonicalizeObservations)

lemma snapshotPayload_states_cong:
  assumes "wf_map st" "wf_map st'" "map_of st = map_of st'"
  shows "snapshotPayload pkg v obs st = snapshotPayload pkg v obs st'"
proof -
  have "set (map fst st) = set (map fst st')" by (metis assms(3) dom_map_of_conv_image_fst set_map)
  then have "mset (map fst st) = mset (map fst st')"
    using assms(1,2) set_eq_iff_mset_eq_distinct [of "map fst st" "map fst st'"] by (simp add: wf_map_def)
  then have "sort (map fst st) = sort (map fst st')"
    by (metis mset_sort properties_for_sort sorted_sort)
  then show ?thesis using assms(3) by (simp add: snapshotPayload_def SortStrings_sort)
qed

lemma NewSnapshot_simps [simp]:
  "snapPkg (NewSnapshot h pkg v obs st t) = pkg"
  "snapVersion (NewSnapshot h pkg v obs st t) = v"
  "snapObservations (NewSnapshot h pkg v obs st t) = canonicalizeObservations obs"
  "snapProviderStates (NewSnapshot h pkg v obs st t) = st"
  "snapCreatedAt (NewSnapshot h pkg v obs st t) = normalizeTime t"
  by (simp_all add: NewSnapshot_def Let_def)

lemma HasUnavailableEvidence_iff:
  "HasUnavailableEvidence s \<longleftrightarrow>
     StateUnavailable \<in> snd ` set (snapProviderStates s) \<or>
     (\<exists>ob \<in> set (snapObservations s). sigObservation ob = ''unavailable'')"
  by (auto simp: HasUnavailableEvidence_def list_ex_iff image_iff split: prod.splits)
     (metis snd_conv)+

lemma HasUnavailableEvidence_New:
  "HasUnavailableEvidence (NewSnapshot h pkg v obs st t) \<longleftrightarrow>
     StateUnavailable \<in> snd ` set st \<or> (\<exists>ob \<in> set obs. sigObservation ob = ''unavailable'')"
  by (simp add: HasUnavailableEvidence_iff set_canonicalizeObservations)

lemma NewSnapshot_perm:
  assumes "\<forall>ob \<in> set obs. timed ob" "mset obs' = mset obs"
    and "wf_map st" "wf_map st'" "map_of st = map_of st'"
  shows "snapID (NewSnapshot h pkg v obs' st' t) = snapID (NewSnapshot h pkg v obs st t) \<and>
         snapObservations (NewSnapshot h pkg v obs' st' t) = snapObservations (NewSnapshot h pkg v obs st t)"
proof -
  have "canonicalizeObservations obs' = canonicalizeObservations obs"
    using assms(1,2) by (rule canonicalizeObservations_perm)
  moreover have "snapshotPayload pkg v o1 st' = snapshotPayload pkg v o1 st" for o1
    using assms(3-5) by (intro snapshotPayload_states_cong) auto
  ultimately show ?thesis by (simp add: NewSnapshot_def Let_def computeSnapshotID_def)
qed

lemma map_of_image_snd:
  assumes "wf_map xs" "wf_map ys" "map_of xs = map_of ys"
  shows "snd ` set xs = snd ` set ys"
proof -
  have "set xs = set ys" using assms by (simp add: wf_map_def map_of_inject_set)
  then show ?thesis by simp
qed

definition sample_signal :: "string \<Rightarrow> string \<Rightarrow> gotime \<Rightarrow> Signal" where
  "sample_signal k ob t = \<lparr>sigKind = k, sigSource = ''osv'', sigObservation = ob,
     sigConfidence = ''high'', sigRetrievedAt = t, sigFreshUntil = t + 5000000\<rparr>"

section \<open>Properties\<close>

text \<open>
  A snapshot does not depend on the order in which its observations were collected, nor on
  the order of the provider state map: permuting the observations and relisting the same states
  gives the same identity and the same canonical observations. Timestamps are not before year 1.
\<close>

lemma NewSnapshot_order_independent:
  assumes "\<forall>ob \<in> set obs. timed ob" "mset obs' = mset obs"
    and "wf_map st" "wf_map st'" "map_of st = map_of st'"
  shows "snapID (NewSnapshot h pkg v obs' st' t) = snapID (NewSnapshot h pkg v obs st t) \<and>
         snapObservations (NewSnapshot h pkg v obs' st' t) = snapObservations (NewSnapshot h pkg v obs st t)"
  using assms by (rule NewSnapshot_perm)

text \<open>
  Storing and reloading: the JSON form of a snapshot is accepted and gives the snapshot back,
  whatever the hash function.
\<close>

lemma UnmarshalJSON_MarshalJSON:
  "UnmarshalJSON h (MarshalJSON (NewSnapshot h pkg v obs st t)) = Inr (NewSnapshot h pkg v obs st t)"
  by (simp add: UnmarshalJSON_def MarshalJSON_def NewSnapshot_def Let_def canonicalizeObservations_idem)

text \<open>
  A stored snapshot is accepted exactly when its identity is absent or is the identity
  recomputed from its content; an accepted snapshot always carries the recomputed identity.
\<close>

lemma UnmarshalJSON_identity:
  "(\<exists>s. UnmarshalJSON h raw = Inr s) \<longleftrightarrow>
     sjID raw = [] \<or> sjID raw = snapID (NewSnapshot h (sjPackage raw) (sjVersion raw)
                        (sjObservations raw) (sjProviderStates raw) (sjCreatedAt raw))"
  by (auto simp: UnmarshalJSON_def NewSnapshot_def Let_def)

end
