(* ===== verification/Evidence_Cache.thy ===== *)
theory Evidence_Cache
  imports Freshness
begin

text \<open>
  The evidence and decision cache: \<^verbatim>\<open>src/internal/evidence/cache.go\<close>. The Go interface
  \<^verbatim>\<open>Cache\<close> is the record \<open>Cache_ops\<close> of its methods over a state type, the contract its
  clients rely on is the locale \<open>evidence_cache\<close>, and \<open>MemoryCache\<close> is the
  implementation the program uses. Its two Go maps are association lists; its lock is not
  modelled, every method being one atomic step.
\<close>

section \<open>Cached decisions\<close>

record CachedAllow =
  caDecision :: Decision
  caSnapshotID :: string
  caRetrievedAt :: gotime
  caFreshUntil :: gotime
  caStaleUntil :: gotime

definition CachedAllow_IsFresh :: "CachedAllow \<Rightarrow> gotime \<Rightarrow> bool" where
  "CachedAllow_IsFresh ca now = (\<not> normalizeTime now > caFreshUntil ca)"

definition CachedAllow_IsStale :: "CachedAllow \<Rightarrow> gotime \<Rightarrow> bool" where
  "CachedAllow_IsStale ca now =
     (let normNow = normalizeTime now in normNow > caFreshUntil ca \<and> \<not> normNow > caStaleUntil ca)"

definition CachedAllow_IsExpired :: "CachedAllow \<Rightarrow> gotime \<Rightarrow> bool" where
  "CachedAllow_IsExpired ca now = (normalizeTime now > caStaleUntil ca)"

lemmas cached_allow_defs = CachedAllow_IsFresh_def CachedAllow_IsStale_def CachedAllow_IsExpired_def

record cacheEntry =
  ceOutcome :: Outcome
  ceFreshUntil :: gotime
  ceStaleUntil :: gotime

record CacheStats =
  TotalEntries :: nat
  FreshEntries :: nat
  StaleEntries :: nat
  OldestEntry :: "gotime option"
  NewestEntry :: "gotime option"

section \<open>The cache interface\<close>

record 'c Cache_ops =
  opGet :: "'c \<Rightarrow> string \<Rightarrow> string \<Rightarrow> string \<Rightarrow> gotime \<Rightarrow> Outcome option"
  opPut :: "'c \<Rightarrow> string \<Rightarrow> string \<Rightarrow> Outcome \<Rightarrow> gotime \<Rightarrow> 'c"
  opGetCachedAllow :: "'c \<Rightarrow> string \<Rightarrow> string \<Rightarrow> gotime \<Rightarrow> CachedAllow option"
  opPutCachedAllow ::
    "'c \<Rightarrow> string \<Rightarrow> string \<Rightarrow> Decision \<Rightarrow> string \<Rightarrow> gotime \<Rightarrow> gotime \<Rightarrow> gotime \<Rightarrow> 'c"

text \<open>
  What the assembler relies on: a cache never answers with unavailable evidence, what is stored
  under one kind does not change what is found under another for the same coordinates, a stored
  outcome is found as long as its retention lasts, an unavailable outcome is not stored, evidence
  and decisions do not disturb each other, and only allow decisions are kept.
\<close>

locale evidence_cache =
  fixes ops :: "'c Cache_ops" and inv :: "'c \<Rightarrow> bool"
  assumes get_usable:
      "opGet ops c kind pkg version now = Some ou \<Longrightarrow> IsAvailable ou \<or> IsStale ou"
    and get_put_same:
      "\<not> IsUnavailable ou \<Longrightarrow> outKind ou = kind \<Longrightarrow>
       opGet ops (opPut ops c pkg version ou staleUntil) kind pkg version now =
         (if normalizeTime now \<le> outFreshUntil ou then Some (ou\<lparr>outState := StateAvailable\<rparr>)
          else if normalizeTime now \<le> normalizeTime staleUntil
          then Some (ou\<lparr>outState := StateStale,
                 outReason := ''served from cache: past freshness window but within stale tolerance''\<rparr>)
          else None)"
    and get_put_other:
      "kind \<noteq> outKind ou \<Longrightarrow>
       opGet ops (opPut ops c pkg version ou staleUntil) kind pkg version now = opGet ops c kind pkg version now"
    and put_unavailable: "IsUnavailable ou \<Longrightarrow> opPut ops c pkg version ou staleUntil = c"
    and allow_put: "opGetCachedAllow ops (opPut ops c pkg version ou staleUntil) = opGetCachedAllow ops c"
    and inv_put: "inv c \<Longrightarrow> inv (opPut ops c pkg version ou staleUntil)"
    and inv_put_allow: "inv c \<Longrightarrow> inv (opPutCachedAllow ops c pkg version d sid r f s)"
    and allow_inv:
      "inv c \<Longrightarrow> opGetCachedAllow ops c pkg version now = Some ca \<Longrightarrow>
       decVerdict (caDecision ca) = Allow \<and> \<not> CachedAllow_IsExpired ca now"

section \<open>MemoryCache\<close>

record MemoryCache =
  evidence :: "(string \<times> cacheEntry) list"
  decisions :: "(string \<times> CachedAllow) list"

definition NewMemoryCache :: MemoryCache where
  "NewMemoryCache = \<lparr>evidence = [], decisions = []\<rparr>"

definition evidenceKey :: "string \<Rightarrow> string \<Rightarrow> string \<Rightarrow> string" where
  "evidenceKey kind pkg version = kind @ '':'' @ pkg @ ''@'' @ version"

definition decisionKey :: "string \<Rightarrow> string \<Rightarrow> string" where
  "decisionKey pkg version = pkg @ ''@'' @ version"

definition MemoryCache_Get :: "MemoryCache \<Rightarrow> string \<Rightarrow> string \<Rightarrow> string \<Rightarrow> gotime \<Rightarrow> Outcome option" where
  "MemoryCache_Get mc kind pkg version now =
     (case map_of (evidence mc) (evidenceKey kind pkg version) of
        None \<Rightarrow> None
      | Some entry \<Rightarrow>
          let normNow = normalizeTime now in
          if \<not> normNow > ceFreshUntil entry then Some ((ceOutcome entry)\<lparr>outState := StateAvailable\<rparr>)
          else if \<not> normNow > ceStaleUntil entry
          then Some ((ceOutcome entry)\<lparr>outState := StateStale,
                 outReason := ''served from cache: past freshness window but within stale tolerance''\<rparr>)
          else None)"

definition MemoryCache_Put :: "MemoryCache \<Rightarrow> string \<Rightarrow> string \<Rightarrow> Outcome \<Rightarrow> gotime \<Rightarrow> MemoryCache" where
  "MemoryCache_Put mc pkg version ou staleUntil =
     (if Outcome_State ou = StateUnavailable then mc
      else mc\<lparr>evidence := AList.update (evidenceKey (outKind ou) pkg version)
             \<lparr>ceOutcome = ou, ceFreshUntil = outFreshUntil ou, ceStaleUntil = normalizeTime staleUntil\<rparr>
             (evidence mc)\<rparr>)"

definition MemoryCache_GetCachedAllow ::
  "MemoryCache \<Rightarrow> string \<Rightarrow> string \<Rightarrow> gotime \<Rightarrow> CachedAllow option" where
  "MemoryCache_GetCachedAllow mc pkg version now =
     (case map_of (decisions mc) (decisionKey pkg version) of
        None \<Rightarrow> None
      | Some allow \<Rightarrow> if CachedAllow_IsExpired allow now then None else Some allow)"

definition MemoryCache_PutCachedAllow ::
  "MemoryCache \<Rightarrow> string \<Rightarrow> string \<Rightarrow> Decision \<Rightarrow> string \<Rightarrow> gotime \<Rightarrow> gotime \<Rightarrow> gotime \<Rightarrow> MemoryCache" where
  "MemoryCache_PutCachedAllow mc pkg version d snapshotID retrievedAt freshUntil staleUntil =
     (if decVerdict d \<noteq> Allow then mc
      else mc\<lparr>decisions := AList.update (decisionKey pkg version)
             \<lparr>caDecision = d, caSnapshotID = snapshotID, caRetrievedAt = normalizeTime retrievedAt,
              caFreshUntil = normalizeTime freshUntil, caStaleUntil = normalizeTime staleUntil\<rparr>
             (decisions mc)\<rparr>)"

text \<open>The zero time stands for a boundary that has not been set.\<close>

definition updateTimestamps :: "gotime \<Rightarrow> gotime \<times> gotime \<Rightarrow> gotime \<times> gotime" where
  "updateTimestamps t ON =
     (if t = 0 then ON
      else (if fst ON = 0 \<or> t < fst ON then t else fst ON, if snd ON = 0 \<or> t > snd ON then t else snd ON))"

definition FreshnessStats :: "MemoryCache \<Rightarrow> gotime \<Rightarrow> CacheStats" where
  "FreshnessStats mc now =
     (let normNow = normalizeTime now;
          es = map snd (evidence mc); ds = map snd (decisions mc);
          fresh_e = filter (\<lambda>e. \<not> normNow > ceFreshUntil e) es;
          stale_e = filter (\<lambda>e. normNow > ceFreshUntil e \<and> \<not> normNow > ceStaleUntil e) es;
          fresh_d = filter (\<lambda>a. CachedAllow_IsFresh a normNow) ds;
          stale_d = filter (\<lambda>a. \<not> CachedAllow_IsFresh a normNow \<and> CachedAllow_IsStale a normNow) ds;
          ends = fold updateTimestamps
            (map (\<lambda>e. outRetrievedAt (ceOutcome e)) es @ map caRetrievedAt ds) (0, 0)
      in \<lparr>TotalEntries = length es + length ds,
          FreshEntries = length fresh_e + length fresh_d,
          StaleEntries = length stale_e + length stale_d,
          OldestEntry = (if fst ends = 0 then None else Some (fst ends)),
          NewestEntry = (if snd ends = 0 then None else Some (snd ends))\<rparr>)"

definition memory_ops :: "MemoryCache Cache_ops" where
  "memory_ops = \<lparr>opGet = MemoryCache_Get, opPut = MemoryCache_Put,
     opGetCachedAllow = MemoryCache_GetCachedAllow, opPutCachedAllow = MemoryCache_PutCachedAllow\<rparr>"

section \<open>MemoryCache implements the interface\<close>

definition cache_inv :: "MemoryCache \<Rightarrow> bool" where
  "cache_inv mc = (wf_map (evidence mc) \<and> wf_map (decisions mc)
     \<and> (\<forall>(k, e) \<in> set (evidence mc). \<not> IsUnavailable (ceOutcome e))
     \<and> (\<forall>(k, a) \<in> set (decisions mc). decVerdict (caDecision a) = Allow))"

lemmas cache_op_defs = MemoryCache_Get_def MemoryCache_Put_def MemoryCache_GetCachedAllow_def
  MemoryCache_PutCachedAllow_def memory_ops_def

lemma evidenceKey_kind [simp]: "evidenceKey k pkg v = evidenceKey k' pkg v \<longleftrightarrow> k = k'"
  by (simp add: evidenceKey_def)

lemma set_AList_update:
  "set (AList.update k v xs) \<subseteq> insert (k, v) (set xs)"
  by (induction xs) auto

lemma cache_inv_New: "cache_inv NewMemoryCache"
  by (simp add: cache_inv_def NewMemoryCache_def wf_map_def)

lemma cache_inv_Put:
  assumes "cache_inv mc" shows "cache_inv (MemoryCache_Put mc pkg v ou s)"
proof (cases "Outcome_State ou = StateUnavailable")
  case False
  then show ?thesis
    using assms set_AList_update
    by (fastforce simp: cache_inv_def MemoryCache_Put_def IsUnavailable_def)
qed (use assms in \<open>simp add: MemoryCache_Put_def\<close>)

lemma cache_inv_PutCachedAllow:
  assumes "cache_inv mc" shows "cache_inv (MemoryCache_PutCachedAllow mc pkg v d sid r f s)"
proof (cases "decVerdict d = Allow")
  case True
  then show ?thesis
    using assms set_AList_update
    by (fastforce simp: cache_inv_def MemoryCache_PutCachedAllow_def)
qed (use assms in \<open>simp add: MemoryCache_PutCachedAllow_def\<close>)

interpretation mem_cache: evidence_cache memory_ops cache_inv
proof
  show "cache_inv c \<Longrightarrow> opGetCachedAllow memory_ops c pkg v now = Some ca \<Longrightarrow>
      decVerdict (caDecision ca) = Allow \<and> \<not> CachedAllow_IsExpired ca now" for c pkg v now ca
    by (auto simp: cache_op_defs cache_inv_def dest!: map_of_SomeD split: option.splits if_splits)
  show "cache_inv c \<Longrightarrow> cache_inv (opPut memory_ops c pkg v ou s)" for c pkg v ou s
    by (simp add: memory_ops_def cache_inv_Put)
  show "cache_inv c \<Longrightarrow> cache_inv (opPutCachedAllow memory_ops c pkg v d sid r f s)" for c pkg v d sid r f s
    by (simp add: memory_ops_def cache_inv_PutCachedAllow)
qed (auto simp: cache_op_defs outcome_state_defs Let_def intro!: ext split: option.splits if_splits)

lemma length_filter_split:
  "length (filter P xs) + length (filter (\<lambda>x. \<not> P x \<and> Q x) xs) \<le> length xs"
  by (induction xs) auto

lemma FreshnessStats_counts:
  "FreshEntries (FreshnessStats mc now) + StaleEntries (FreshnessStats mc now)
     \<le> TotalEntries (FreshnessStats mc now)"
proof -
  show ?thesis
    using length_filter_split [where xs = "map snd (evidence mc)"
            and P = "\<lambda>e. \<not> normalizeTime now > ceFreshUntil e" and Q = "\<lambda>e. \<not> normalizeTime now > ceStaleUntil e"]
          length_filter_split [where xs = "map snd (decisions mc)"
            and P = "\<lambda>a. CachedAllow_IsFresh a (normalizeTime now)"
            and Q = "\<lambda>a. CachedAllow_IsStale a (normalizeTime now)"]
    by (simp add: FreshnessStats_def Let_def)
qed

end
