(* ===== verification/Assembler.thy ===== *)
theory Assembler
  imports Snapshot Evidence_Cache
begin

text \<open>
  Snapshot assembly: \<^verbatim>\<open>src/internal/evidence/assembler.go\<close>. A provider is its kind and its
  answer to the query; the clock is the argument \<open>clock\<close>, the instant it returns. The cache
  is used through \<open>Cache_ops\<close> only. \<^verbatim>\<open>NewAssembler\<close> always installs a cache and the
  options never remove it, so the \<^verbatim>\<open>a.cache != nil\<close> tests hold.
\<close>

record Query =
  qPackage :: string
  qVersion :: string

record Provider =
  provKind :: string
  Provide :: "Query \<Rightarrow> Outcome"

record Assembler =
  asmProviders :: "Provider list"
  asmFreshness :: FreshnessPolicy
  asmRequiredKinds :: "string list"

definition NewAssembler :: Assembler where
  "NewAssembler = \<lparr>asmProviders = [], asmFreshness = DefaultFreshnessPolicy, asmRequiredKinds = []\<rparr>"

definition WithProviders :: "Provider list \<Rightarrow> Assembler \<Rightarrow> Assembler" where
  "WithProviders ps a = a\<lparr>asmProviders := asmProviders a @ ps\<rparr>"

definition WithFreshnessPolicy :: "FreshnessPolicy option \<Rightarrow> Assembler \<Rightarrow> Assembler" where
  "WithFreshnessPolicy fp a = (case fp of None \<Rightarrow> a | Some p \<Rightarrow> a\<lparr>asmFreshness := p\<rparr>)"

definition WithRequiredKinds :: "string list \<Rightarrow> Assembler \<Rightarrow> Assembler" where
  "WithRequiredKinds kinds a = a\<lparr>asmRequiredKinds := asmRequiredKinds a @ kinds\<rparr>"

text \<open>The variables of \<^verbatim>\<open>Assemble\<close> while its loops run, the cache included.\<close>

record 'c asm_state =
  asObservations :: "Signal list"
  asStates :: ProviderStates
  asCovered :: "string list"
  asCache :: 'c

text \<open>The prior allow decision, as an observation of kind cache.\<close>

definition cached_allow_observations :: "'c Cache_ops \<Rightarrow> 'c \<Rightarrow> string \<Rightarrow> string \<Rightarrow> gotime \<Rightarrow> Signal list" where
  "cached_allow_observations ops c pkg version now =
     (case opGetCachedAllow ops c pkg version now of
        None \<Rightarrow> []
      | Some ca \<Rightarrow>
          if CachedAllow_IsFresh ca now
          then [\<lparr>sigKind = KindCache, sigSource = ''cache'', sigObservation = ''fresh_allow'',
                 sigConfidence = ConfidenceHigh, sigRetrievedAt = caRetrievedAt ca, sigFreshUntil = caFreshUntil ca\<rparr>]
          else if CachedAllow_IsStale ca now
          then [\<lparr>sigKind = KindCache, sigSource = ''cache'', sigObservation = ''stale_allow'',
                 sigConfidence = ConfidenceLow, sigRetrievedAt = caRetrievedAt ca, sigFreshUntil = caFreshUntil ca\<rparr>]
          else [])"

text \<open>The outcome used for one provider, with the cache after it: a fresh cached outcome, else the
  live one, else a stale cached one.\<close>

definition choose_outcome ::
  "'c Cache_ops \<Rightarrow> FreshnessPolicy \<Rightarrow> gotime \<Rightarrow> string \<Rightarrow> string \<Rightarrow> Provider \<Rightarrow> 'c \<Rightarrow> Outcome \<times> 'c" where
  "choose_outcome ops fp now pkg version p c =
     (let kind = provKind p;
          cached = opGet ops c kind pkg version now;
          cacheHit = (case cached of None \<Rightarrow> False | Some ou \<Rightarrow> IsAvailable ou);
          outcome = (case cached of None \<Rightarrow> zeroOutcome
                     | Some ou \<Rightarrow> if IsAvailable ou \<or> IsStale ou then ou else zeroOutcome)
      in if cacheHit then (outcome, c)
         else let live = Provide p \<lparr>qPackage = pkg, qVersion = version\<rparr> in
           if IsAvailable live
           then (live, opPut ops c pkg version live (FreshnessPolicy_StaleUntil fp kind (outRetrievedAt live)))
           else if IsStale live \<or> IsDegraded live then (live, c)
           else if IsStale outcome then (outcome, c)
           else (live, c))"

definition complete_signal :: "FreshnessPolicy \<Rightarrow> gotime \<Rightarrow> Signal \<Rightarrow> Signal" where
  "complete_signal fp now s =
     (let s1 = (if sigRetrievedAt s = 0 then s\<lparr>sigRetrievedAt := now\<rparr> else s) in
      if sigFreshUntil s1 = 0
      then s1\<lparr>sigFreshUntil := FreshnessPolicy_FreshUntil fp (sigKind s1) (sigRetrievedAt s1)\<rparr> else s1)"

definition provider_step ::
  "'c Cache_ops \<Rightarrow> FreshnessPolicy \<Rightarrow> gotime \<Rightarrow> string \<Rightarrow> string \<Rightarrow> Provider \<Rightarrow> 'c asm_state \<Rightarrow> 'c asm_state" where
  "provider_step ops fp now pkg version p st =
     (let (outcome, c) = choose_outcome ops fp now pkg version p (asCache st) in
      \<lparr>asObservations = asObservations st @ map (complete_signal fp now) (Outcome_Signals outcome),
       asStates = AList.update (provKind p) (Outcome_State outcome) (asStates st),
       asCovered = provKind p # asCovered st,
       asCache = c\<rparr>)"

definition required_step :: "gotime \<Rightarrow> string \<Rightarrow> 'c asm_state \<Rightarrow> 'c asm_state" where
  "required_step now reqKind st =
     (if reqKind \<in> set (asCovered st) then st
      else st\<lparr>asStates := AList.update reqKind StateUnavailable (asStates st),
             asObservations := asObservations st @
               [\<lparr>sigKind = reqKind, sigSource = ''assembler'', sigObservation = ''unavailable'',
                 sigConfidence = ConfidenceNone, sigRetrievedAt = now, sigFreshUntil = now\<rparr>]\<rparr>)"

definition assemble_run ::
  "'c Cache_ops \<Rightarrow> Assembler \<Rightarrow> gotime \<Rightarrow> string \<Rightarrow> string \<Rightarrow> 'c \<Rightarrow> 'c asm_state" where
  "assemble_run ops a now pkg version c =
     (let s0 = \<lparr>asObservations = cached_allow_observations ops c pkg version now, asStates = [],
                asCovered = [], asCache = c\<rparr>;
          s1 = fold (provider_step ops (asmFreshness a) now pkg version) (asmProviders a) s0
      in fold (required_step now) (asmRequiredKinds a) s1)"

definition Assemble ::
  "(string \<Rightarrow> string) \<Rightarrow> 'c Cache_ops \<Rightarrow> Assembler \<Rightarrow> gotime \<Rightarrow> string \<Rightarrow> string \<Rightarrow> 'c \<Rightarrow> Snapshot \<times> 'c" where
  "Assemble sha256_hex ops a clock pkg version c =
     (let now = normalizeTime clock; st = assemble_run ops a now pkg version c in
      (NewSnapshot sha256_hex pkg version (asObservations st) (asStates st) now, asCache st))"

section \<open>What the loops keep\<close>

lemma complete_signal_fields [simp]:
  "sigKind (complete_signal fp now s) = sigKind s"
  "sigObservation (complete_signal fp now s) = sigObservation s"
  "sigSource (complete_signal fp now s) = sigSource s"
  by (simp_all add: complete_signal_def Let_def)

lemma provider_step_grows: "set (asObservations st) \<subseteq> set (asObservations (provider_step ops fp now pkg v p st))"
  by (auto simp: provider_step_def split: prod.splits)

lemma provider_step_cache [simp]:
  "asCache (provider_step ops fp now pkg v p st) = snd (choose_outcome ops fp now pkg v p (asCache st))"
  by (simp add: provider_step_def split: prod.splits)

lemma fold_grows:
  "(\<And>x st. set (asObservations st) \<subseteq> set (asObservations (f x st))) \<Longrightarrow>
   set (asObservations st) \<subseteq> set (asObservations (fold f xs st))"
  by (induction xs arbitrary: st) (simp, fastforce)

lemma required_step_grows: "set (asObservations st) \<subseteq> set (asObservations (required_step now k st))"
  by (auto simp: required_step_def)

lemma fold_provider_covered:
  "set (asCovered (fold (provider_step ops fp now pkg v) ps st)) = provKind ` set ps \<union> set (asCovered st)"
  by (induction ps arbitrary: st) (auto simp: provider_step_def split: prod.splits)

lemma required_step_covered [simp]: "asCovered (required_step now k st) = asCovered st"
  by (simp add: required_step_def)

lemma required_step_state:
  "map_of (asStates (required_step now k st)) k' =
     (if k' = k \<and> k \<notin> set (asCovered st) then Some StateUnavailable else map_of (asStates st) k')"
  by (auto simp: required_step_def)

lemma fold_required:
  "map_of (asStates (fold (required_step now) ks st)) k =
     (if k \<in> set ks \<and> k \<notin> set (asCovered st) then Some StateUnavailable else map_of (asStates st) k)"
  by (induction ks arbitrary: st) (auto simp: required_step_state)

lemma fold_required_cache [simp]: "asCache (fold (required_step now) ks st) = asCache st"
  by (induction ks arbitrary: st) (auto simp: required_step_def)

lemma fold_required_visible:
  "k \<in> set ks \<Longrightarrow> k \<notin> set (asCovered st) \<Longrightarrow>
   \<exists>ob \<in> set (asObservations (fold (required_step now) ks st)).
     sigKind ob = k \<and> sigObservation ob = ''unavailable''"
proof (induction ks arbitrary: st)
  case (Cons j ks)
  show ?case
  proof (cases "k = j")
    case True
    have "\<exists>ob \<in> set (asObservations (required_step now j st)). sigKind ob = k \<and> sigObservation ob = ''unavailable''"
      using Cons.prems True by (simp add: required_step_def)
    then show ?thesis
      using fold_grows [of "required_step now" "required_step now j st" ks, OF required_step_grows] by auto
  next
    case False
    then show ?thesis using Cons by simp
  qed
qed simp

lemma fold_provider_states_other:
  "k \<notin> provKind ` set ps \<Longrightarrow>
   map_of (asStates (fold (provider_step ops fp now pkg v) ps st)) k = map_of (asStates st) k"
  by (induction ps arbitrary: st) (auto simp: provider_step_def split: prod.splits)

section \<open>Assembly over the cache contract\<close>

text \<open>Providers answer with evidence of their own kind.\<close>

definition own_kind :: "Provider \<Rightarrow> bool" where
  "own_kind p = (\<forall>q. outKind (Provide p q) = provKind p)"

context evidence_cache
begin

lemma choose_outcome_cache_other:
  assumes "outKind (Provide p \<lparr>qPackage = pkg, qVersion = v\<rparr>) \<noteq> k"
  shows "opGet ops (snd (choose_outcome ops fp now pkg v p c)) k pkg v now = opGet ops c k pkg v now"
  using assms get_put_other [of k] by (auto simp: choose_outcome_def Let_def)

lemma fold_cache_other:
  assumes "\<forall>p \<in> set ps. own_kind p" "k \<notin> provKind ` set ps"
  shows "opGet ops (asCache (fold (provider_step ops fp now pkg v) ps st)) k pkg v now
       = opGet ops (asCache st) k pkg v now"
  using assms
proof (induction ps arbitrary: st)
  case (Cons p ps)
  then have "outKind (Provide p \<lparr>qPackage = pkg, qVersion = v\<rparr>) \<noteq> k" by (auto simp: own_kind_def)
  then have "opGet ops (asCache (provider_step ops fp now pkg v p st)) k pkg v now
      = opGet ops (asCache st) k pkg v now"
    by (simp add: choose_outcome_cache_other)
  then show ?case using Cons by simp
qed simp

lemma choose_outcome_inv: "inv c \<Longrightarrow> inv (snd (choose_outcome ops fp now pkg v p c))"
  using inv_put by (simp add: choose_outcome_def Let_def)

lemma assemble_inv:
  assumes "inv c" shows "inv (snd (Assemble h ops a clock pkg v c))"
proof -
  have "inv (asCache st) \<Longrightarrow> inv (asCache (fold (provider_step ops fp now pkg v) ps st))" for fp now ps st
    by (induction ps arbitrary: st) (simp_all add: choose_outcome_inv)
  then show ?thesis using assms by (simp add: Assemble_def assemble_run_def Let_def)
qed

lemma choose_outcome_outage:
  assumes "IsUnavailable (Provide p \<lparr>qPackage = pkg, qVersion = v\<rparr>)"
    and "opGet ops c (provKind p) pkg v now = None"
  shows "choose_outcome ops fp now pkg v p c = (Provide p \<lparr>qPackage = pkg, qVersion = v\<rparr>, c)"
  using assms by (auto simp: choose_outcome_def Let_def IsUnavailable_def IsAvailable_def IsStale_def IsDegraded_def)

lemma outage_run:
  assumes ps: "asmProviders a = before @ p # after"
    and own: "\<forall>p \<in> set (asmProviders a). own_kind p" and dist: "distinct (map provKind (asmProviders a))"
    and out: "IsUnavailable (Provide p \<lparr>qPackage = pkg, qVersion = v\<rparr>)"
    and none: "opGet ops c (provKind p) pkg v now = None"
  defines "st \<equiv> assemble_run ops a now pkg v c"
  shows "map_of (asStates st) (provKind p) = Some StateUnavailable"
    and "set (map (complete_signal (asmFreshness a) now) (Outcome_Signals (Provide p \<lparr>qPackage = pkg, qVersion = v\<rparr>)))
           \<subseteq> set (asObservations st)"
proof -
  let ?step = "provider_step ops (asmFreshness a) now pkg v"
  let ?s0 = "\<lparr>asObservations = cached_allow_observations ops c pkg v now, asStates = [],
      asCovered = [], asCache = c\<rparr>"
  let ?s1 = "fold ?step before ?s0"
  let ?s2 = "?step p ?s1"
  have "opGet ops (asCache ?s1) (provKind p) pkg v now = opGet ops c (provKind p) pkg v now"
    using own dist ps by (subst fold_cache_other) auto
  then have s2: "?s2 = \<lparr>asObservations = asObservations ?s1 @
        map (complete_signal (asmFreshness a) now) (Outcome_Signals (Provide p \<lparr>qPackage = pkg, qVersion = v\<rparr>)),
      asStates = AList.update (provKind p) StateUnavailable (asStates ?s1),
      asCovered = provKind p # asCovered ?s1, asCache = asCache ?s1\<rparr>"
    using out none choose_outcome_outage [OF out] by (simp add: provider_step_def IsUnavailable_def)
  have st: "st = fold (required_step now) (asmRequiredKinds a) (fold ?step after ?s2)"
    by (simp add: st_def assemble_run_def ps Let_def)
  have "provKind p \<notin> provKind ` set after" using dist ps by auto
  then show "map_of (asStates st) (provKind p) = Some StateUnavailable"
    using s2 by (simp add: st fold_required fold_provider_covered fold_provider_states_other)
  have "set (asObservations ?s2) \<subseteq> set (asObservations st)"
    unfolding st
    using fold_grows [of ?step ?s2 after, OF provider_step_grows]
      fold_grows [of "required_step now" "fold ?step after ?s2" "asmRequiredKinds a", OF required_step_grows]
    by blast
  then show "set (map (complete_signal (asmFreshness a) now)
      (Outcome_Signals (Provide p \<lparr>qPackage = pkg, qVersion = v\<rparr>))) \<subseteq> set (asObservations st)"
    using s2 by auto
qed

end

lemma in_snd_map_of: "map_of xs k = Some v \<Longrightarrow> v \<in> snd ` set xs"
  by (force dest: map_of_SomeD)

lemma required_kind_run:
  assumes "k \<in> set (asmRequiredKinds a)" "k \<notin> provKind ` set (asmProviders a)"
  shows "map_of (asStates (assemble_run ops a now pkg v c)) k = Some StateUnavailable"
    and "\<exists>ob \<in> set (asObservations (assemble_run ops a now pkg v c)).
           sigKind ob = k \<and> sigObservation ob = ''unavailable''"
  using assms
  by (simp_all add: assemble_run_def Let_def fold_required fold_provider_covered fold_required_visible)

end
