(* ===== verification/Gopath.thy ===== *)
theory Gopath
  imports Prelude
begin

text \<open>
  The slash-separated path functions of Go's \<^verbatim>\<open>path\<close> and \<^verbatim>\<open>path/filepath\<close> packages that the
  sources use, on a Unix system: \<open>Clean\<close>, \<open>Join\<close>, \<open>Dir\<close>, \<open>IsAbs\<close>.
\<close>

definition IsAbs :: "string \<Rightarrow> bool" where
  "IsAbs p = HasPrefix p ''/''"

text \<open>One element of a path against the stack of elements kept so far, innermost first.\<close>

definition clean_step :: "bool \<Rightarrow> string \<Rightarrow> string list \<Rightarrow> string list" where
  "clean_step rooted e stack =
     (if e = [] \<or> e = ''.'' then stack
      else if e = ''..'' then
        (case stack of
           [] \<Rightarrow> if rooted then [] else [''..'']
         | prev # rest \<Rightarrow> if prev = ''..'' then ''..'' # stack else rest)
      else e # stack)"

definition clean_elems :: "string \<Rightarrow> string list" where
  "clean_elems p = rev (fold (clean_step (IsAbs p)) (Split CHR ''/'' p) [])"

definition Clean :: "string \<Rightarrow> string" where
  "Clean p =
     (if p = [] then ''.''
      else let out = (if IsAbs p then ''/'' else []) @ Join ''/'' (clean_elems p)
           in if out = [] then ''.'' else out)"

definition path_Join :: "string list \<Rightarrow> string" where
  "path_Join elems =
     (let ne = filter (\<lambda>e. e \<noteq> []) elems in if ne = [] then [] else Clean (Join ''/'' ne))"

definition path_Dir :: "string \<Rightarrow> string" where
  "path_Dir p = Clean (case LastIndexByte CHR ''/'' p of None \<Rightarrow> [] | Some i \<Rightarrow> take (Suc i) p)"

definition path_Base :: "string \<Rightarrow> string" where
  "path_Base p =
     (if p = [] then ''.''
      else let q = rev (dropWhile (\<lambda>c. c = CHR ''/'') (rev p));
               b = (case LastIndexByte CHR ''/'' q of None \<Rightarrow> q | Some i \<Rightarrow> drop (Suc i) q)
           in if b = [] then ''/'' else b)"

section \<open>Clean paths\<close>

text \<open>An element of a cleaned path has no separator and is neither empty nor a dot.\<close>

definition plain_elem :: "string \<Rightarrow> bool" where
  "plain_elem e = (e \<noteq> [] \<and> e \<noteq> ''.'' \<and> CHR ''/'' \<notin> set e)"

text \<open>A stack kept by the loop: parent references only at the bottom, none when rooted.\<close>

definition clean_stack :: "bool \<Rightarrow> string list \<Rightarrow> bool" where
  "clean_stack rooted stack =
     (list_all plain_elem stack \<and>
      (\<exists>names ups. stack = names @ ups \<and> ''..'' \<notin> set names \<and> (\<forall>u \<in> set ups. u = ''..'') \<and> (rooted \<longrightarrow> ups = [])))"

lemma clean_stack_step:
  assumes "clean_stack rooted stack" "CHR ''/'' \<notin> set e"
  shows "clean_stack rooted (clean_step rooted e stack)"
proof -
  obtain names ups where d: "list_all plain_elem stack" "stack = names @ ups" "''..'' \<notin> set names"
      "\<forall>u \<in> set ups. u = ''..''" "rooted \<longrightarrow> ups = []"
    using assms(1) unfolding clean_stack_def by blast
  consider "e = [] \<or> e = ''.''" | (up) "e = ''..''" | (name) "e \<noteq> []" "e \<noteq> ''.''" "e \<noteq> ''..''" by blast
  then show ?thesis
  proof cases
    case 1
    then show ?thesis using assms(1) by (simp add: clean_step_def)
  next
    case up
    have pu: "plain_elem ''..''" by (simp add: plain_elem_def)
    show ?thesis
    proof (cases names)
      case Nil
      show ?thesis
      proof (cases ups)
        case Nil
        have "clean_stack False [''..'']" unfolding clean_stack_def
          using pu by (intro conjI exI [of _ "[]"] exI [of _ "[''..'']"]) auto
        moreover have "clean_stack True []" by (simp add: clean_stack_def)
        ultimately show ?thesis using up Nil \<open>names = []\<close> d(2) by (cases rooted) (simp_all add: clean_step_def)
      next
        case (Cons u us)
        then have "clean_step rooted e stack = ''..'' # ups"
          using up d \<open>names = []\<close> by (simp add: clean_step_def)
        moreover have "clean_stack rooted (''..'' # ups)" unfolding clean_stack_def
          using pu d \<open>names = []\<close> Cons by (intro conjI exI [of _ "[]"] exI [of _ "''..'' # ups"]) auto
        ultimately show ?thesis by simp
      qed
    next
      case (Cons n ns)
      then have "clean_step rooted e stack = ns @ ups" using up d by (auto simp: clean_step_def)
      moreover have "clean_stack rooted (ns @ ups)" unfolding clean_stack_def
        using d Cons by (intro conjI exI [of _ ns] exI [of _ ups]) auto
      ultimately show ?thesis by simp
    qed
  next
    case name
    then have "clean_step rooted e stack = e # stack" by (simp add: clean_step_def)
    moreover have "clean_stack rooted (e # stack)" unfolding clean_stack_def
      using d name assms(2)
      by (intro conjI exI [of _ "e # names"] exI [of _ ups]) (auto simp: plain_elem_def)
    ultimately show ?thesis by simp
  qed
qed

lemma clean_stack_fold:
  "clean_stack rooted stack \<Longrightarrow> \<forall>e \<in> set es. CHR ''/'' \<notin> set e \<Longrightarrow> clean_stack rooted (fold (clean_step rooted) es stack)"
  by (induction es arbitrary: stack) (auto simp: clean_stack_step)

lemma clean_elems_stack: "clean_stack (IsAbs p) (rev (clean_elems p))"
proof -
  have "\<forall>e \<in> set (Split CHR ''/'' p). CHR ''/'' \<notin> set e" using Split_parts_no_sep by blast
  moreover have "clean_stack (IsAbs p) []" by (simp add: clean_stack_def)
  ultimately show ?thesis by (simp add: clean_elems_def clean_stack_fold)
qed

lemma clean_elems_plain: "e \<in> set (clean_elems p) \<Longrightarrow> plain_elem e"
  using clean_elems_stack [of p] by (auto simp: clean_stack_def list_all_iff)

text \<open>Unless the cleaned path starts with a parent reference it has none at all.\<close>

lemma clean_elems_no_parent:
  assumes "clean_elems p = [] \<or> hd (clean_elems p) \<noteq> ''..''"
  shows "''..'' \<notin> set (clean_elems p)"
proof -
  obtain names ups where d: "rev (clean_elems p) = names @ ups" "''..'' \<notin> set names" "\<forall>u \<in> set ups. u = ''..''"
    using clean_elems_stack [of p] unfolding clean_stack_def by blast
  then have e: "clean_elems p = rev ups @ rev names" by (metis rev_append rev_rev_ident)
  have "ups = []"
  proof (rule ccontr)
    assume "ups \<noteq> []"
    then have "hd (rev ups) \<in> set ups" by (metis hd_in_set rev_is_Nil_conv set_rev)
    then show False using assms d(3) e \<open>ups \<noteq> []\<close> by (auto simp: hd_append)
  qed
  then show ?thesis using d(2) e by simp
qed

lemma Join_Cons: "xs \<noteq> [] \<Longrightarrow> Join sep (x # xs) = x @ sep @ Join sep xs"
  by (cases xs) auto

text \<open>A relative path whose cleaned form does not lead to the parent has no parent reference.\<close>

lemma Clean_inside:
  assumes "\<not> IsAbs p" "Clean p \<noteq> ''..''" "\<not> HasPrefix (Clean p) ''../''"
  shows "''..'' \<notin> set (clean_elems p)"
proof (rule clean_elems_no_parent, rule ccontr)
  assume "\<not> (clean_elems p = [] \<or> hd (clean_elems p) \<noteq> ''..'')"
  then obtain es where es: "clean_elems p = ''..'' # es" by (cases "clean_elems p") auto
  have p: "p \<noteq> []"
  proof
    assume "p = []"
    then show False using es by (simp add: clean_elems_def clean_step_def)
  qed
  have "Clean p = Join ''/'' (clean_elems p)"
    using assms(1) p es by (cases es) (auto simp: Clean_def Let_def)
  then show False using assms(2,3) es by (cases "es = []") (auto simp: Join_Cons)
qed

lemma IsAbs_Clean: "IsAbs p \<Longrightarrow> HasPrefix (Clean p) ''/''"
  by (cases p) (auto simp: IsAbs_def Clean_def Let_def)

lemma Join_hd:
  assumes "es \<noteq> []" "\<forall>e \<in> set es. plain_elem e"
  shows "Join ''/'' es \<noteq> [] \<and> hd (Join ''/'' es) \<noteq> CHR ''/''"
proof -
  obtain e rest where es: "es = e # rest" using assms(1) by (cases es) auto
  obtain x xs where e: "e = x # xs" "x \<noteq> CHR ''/''" using assms(2) es by (cases e) (auto simp: plain_elem_def)
  show ?thesis using es e by (cases "rest = []") (auto simp: Join_Cons)
qed

lemma Clean_relative: "\<not> IsAbs p \<Longrightarrow> Clean p \<noteq> [] \<and> hd (Clean p) \<noteq> CHR ''/''"
  using Join_hd [of "clean_elems p"] clean_elems_plain [of _ p]
  by (cases "clean_elems p = []") (auto simp: Clean_def Let_def)

lemma IsAbs_hd: "IsAbs p \<longleftrightarrow> p \<noteq> [] \<and> hd p = CHR ''/''"
  by (cases p) (auto simp: IsAbs_def)

lemma path_Dir_relative:
  assumes "\<not> IsAbs p" shows "path_Dir p \<noteq> [] \<and> \<not> IsAbs (path_Dir p)"
proof -
  have "\<not> IsAbs (case LastIndexByte CHR ''/'' p of None \<Rightarrow> [] | Some i \<Rightarrow> take (Suc i) p)"
    using assms by (cases p) (auto simp: IsAbs_hd split: option.splits)
  from Clean_relative [OF this] show ?thesis by (simp add: path_Dir_def IsAbs_hd)
qed

lemma path_Join_relative:
  assumes "d \<noteq> []" "\<not> IsAbs d" shows "\<not> IsAbs (path_Join [d, l])"
proof -
  have "\<not> IsAbs (Join ''/'' (filter (\<lambda>e. e \<noteq> []) [d, l]))" using assms by (cases d) (auto simp: IsAbs_hd)
  from Clean_relative [OF this] show ?thesis using assms(1) by (auto simp: path_Join_def Let_def IsAbs_hd)
qed

end
