(* ===== verification/Policy.thy ===== *)
theory Policy
  imports Assembler Gopath
begin

text \<open>
  The decision matrix and repository policy: \<^verbatim>\<open>src/internal/policy/evaluate.go\<close> and
  \<^verbatim>\<open>src/internal/policy/policy.go\<close>. Profiles and severities are strings, as in the code. The YAML
  package is a parameter: \<open>yaml_map\<close> decodes a document into its top-level keys with
  their values as \<^verbatim>\<open>fmt.Sprintf("%v")\<close> prints them, \<open>yaml_decode\<close> is the strict decoding into
  \<^verbatim>\<open>Policy\<close>.
\<close>

section \<open>Profiles, severities and assessments\<close>

type_synonym Profile = string
type_synonym Severity = string

definition Balanced :: Profile where "Balanced = ''balanced''"
definition Strict :: Profile where "Strict = ''strict''"

definition SeverityLow :: Severity where "SeverityLow = ''low''"
definition SeverityMedium :: Severity where "SeverityMedium = ''medium''"
definition SeverityHigh :: Severity where "SeverityHigh = ''high''"
definition SeverityCritical :: Severity where "SeverityCritical = ''critical''"

lemmas severity_defs = SeverityLow_def SeverityMedium_def SeverityHigh_def SeverityCritical_def
lemmas profile_defs = Balanced_def Strict_def

definition severityRanks :: "(Severity \<times> int) list" where
  "severityRanks = [(SeverityLow, 1), (SeverityMedium, 2), (SeverityHigh, 3), (SeverityCritical, 4)]"

definition Severity_Valid :: "Severity \<Rightarrow> bool" where
  "Severity_Valid s = (map_of severityRanks s \<noteq> None)"

definition Severity_Rank :: "Severity \<Rightarrow> int" where
  "Severity_Rank s = (case map_of severityRanks s of Some r \<Rightarrow> r | None \<Rightarrow> 0)"

record Assessment =
  IntegrityMismatch :: bool
  KnownMalicious :: bool
  VulnerabilityAboveThreshold :: bool
  StrongNameConfusion :: bool
  NewbornOrFresh :: bool
  PublisherOrProvenanceChanged :: bool
  InstallScriptAdded :: bool
  HasInstallScriptOrNativeBuild :: bool
  EvidenceUnavailable :: bool
  FreshCachedAllow :: bool
  LowPopularity :: bool
  MissingRepository :: bool
  PackageNotFound :: bool
  ConfusedWith :: string
  DangerousInstallScript :: bool
  DangerousScriptNames :: "string list"
  DangerousScriptReasons :: "string list"
  InspectionTruncated :: bool

definition zeroAssessment :: Assessment where
  "zeroAssessment = \<lparr>IntegrityMismatch = False, KnownMalicious = False, VulnerabilityAboveThreshold = False,
     StrongNameConfusion = False, NewbornOrFresh = False, PublisherOrProvenanceChanged = False,
     InstallScriptAdded = False, HasInstallScriptOrNativeBuild = False, EvidenceUnavailable = False,
     FreshCachedAllow = False, LowPopularity = False, MissingRepository = False, PackageNotFound = False,
     ConfusedWith = [], DangerousInstallScript = False, DangerousScriptNames = [],
     DangerousScriptReasons = [], InspectionTruncated = False\<rparr>"

section \<open>The decision matrix\<close>

definition decision :: "verdict_kind \<Rightarrow> string \<Rightarrow> string \<Rightarrow> bool \<Rightarrow> string list \<Rightarrow> Decision" where
  "decision kind ruleID summary degraded signals =
     \<lparr>decVerdict = kind,
      decReasons = [\<lparr>reasonRuleID = ruleID, reasonSummary = summary, reasonSignalKinds = signals\<rparr>],
      decDegraded = degraded\<rparr>"

fun uniqueStrings_loop :: "string list \<Rightarrow> string list \<Rightarrow> string list" where
  "uniqueStrings_loop seen [] = []"
| "uniqueStrings_loop seen (s # ss) =
     (if s \<in> set seen then uniqueStrings_loop seen ss else s # uniqueStrings_loop (s # seen) ss)"

definition uniqueStrings :: "string list \<Rightarrow> string list" where
  "uniqueStrings slice = uniqueStrings_loop [] slice"

definition dangerous_summary :: "Assessment \<Rightarrow> string" where
  "dangerous_summary a =
     (let scriptName = (if length (DangerousScriptNames a) > 0
                        then Join '', '' (uniqueStrings (DangerousScriptNames a)) else ''lifecycle script'')
      in ''dangerous install script detected in '' @ scriptName @
         (if length (DangerousScriptReasons a) > 0
          then '': '' @ Join ''; '' (uniqueStrings (DangerousScriptReasons a)) else []))"

definition confusable_summary :: "Assessment \<Rightarrow> string" where
  "confusable_summary a =
     ''a strongly confusing package name is corroborated by package freshness'' @
     (if ConfusedWith a \<noteq> [] then '': confusable with target '' @ Quote (ConfusedWith a) else [])"

definition Evaluate :: "Profile \<Rightarrow> Assessment \<Rightarrow> Decision" where
  "Evaluate profile a =
     (let degraded = InspectionTruncated a in
      if PackageNotFound a
      then decision Block ''registry.package-not-found''
             ''package or version does not exist in the registry'' degraded [''publish_history'']
      else if IntegrityMismatch a \<or> KnownMalicious a
      then decision Block ''core.integrity-or-malicious''
             ''integrity mismatch or known malicious evidence'' degraded [''integrity'', ''malicious'']
      else if DangerousInstallScript a
      then decision Block ''execution.dangerous-install-script'' (dangerous_summary a) degraded [''install_script'']
      else if VulnerabilityAboveThreshold a
      then decision Block ''core.vulnerability-threshold''
             ''vulnerability exceeds the configured threshold'' degraded [''vulnerability'']
      else if StrongNameConfusion a \<and> NewbornOrFresh a
      then (if profile = Strict
            then decision Block ''identity.confusable-new'' (confusable_summary a) degraded
                   [''name_confusion'', ''package_age'']
            else decision ApprovalRequired ''identity.confusable-new'' (confusable_summary a) degraded
                   [''name_confusion'', ''package_age''])
      else if PublisherOrProvenanceChanged a \<and> InstallScriptAdded a
      then (if profile = Strict
            then decision Block ''release.provenance-script-change''
                   ''publisher or provenance changed when an install script was added'' degraded
                   [''provenance'', ''install_script'']
            else decision ApprovalRequired ''release.provenance-script-change''
                   ''publisher or provenance changed when an install script was added'' degraded
                   [''provenance'', ''install_script''])
      else if HasInstallScriptOrNativeBuild a \<and> \<not> EvidenceUnavailable a
      then (if profile = Strict
            then decision ApprovalRequired ''execution.install-time''
                   ''the package can execute install-time code'' degraded [''install_script'']
            else decision Warn ''execution.install-time''
                   ''the package can execute install-time code'' degraded [''install_script''])
      else if EvidenceUnavailable a \<and> FreshCachedAllow a
      then (if profile = Strict
            then decision ApprovalRequired ''availability.fresh-cache''
                   ''live evidence is unavailable; a fresh cached allow requires approval under the strict profile''
                   True [''availability'', ''cache'']
            else decision Allow ''availability.fresh-cache''
                   ''live evidence is unavailable; a fresh cached allow remains usable with a stale-evidence warning''
                   True [''availability'', ''cache''])
      else if EvidenceUnavailable a
      then (if profile = Strict
            then decision Block ''availability.strict''
                   ''required evidence is unavailable under the strict profile'' True [''availability'']
            else decision ApprovalRequired ''availability.no-cache''
                   ''required evidence is unavailable and no usable cached allow exists'' True [''availability''])
      else if LowPopularity a \<or> MissingRepository a
      then (if profile = Strict
            then decision Warn ''reputation.weak-signal''
                   ''weak reputation evidence is informational and not proof of maliciousness'' degraded [''reputation'']
            else decision Allow ''reputation.informational''
                   ''weak reputation evidence alone does not justify a hold'' degraded [''reputation''])
      else decision Allow ''core.policy-satisfied''
             ''available evidence satisfies the configured policy'' degraded [])"

section \<open>Assessment of a snapshot\<close>

definition parseSeverityRank :: "string \<Rightarrow> string + int" where
  "parseSeverityRank s =
     (let l = ToLower s in
      if l = ''critical'' then Inr 4
      else if l = ''high'' then Inr 3
      else if l = ''medium'' \<or> l = ''moderate'' then Inr 2
      else if l = ''low'' then Inr 1
      else Inl (''unknown severity: '' @ s))"

definition isVulnerabilityAboveThreshold :: "string \<Rightarrow> Severity \<Rightarrow> bool" where
  "isVulnerabilityAboveThreshold ob threshold =
     (if ob = ''above_threshold'' then True
      else if ob = ''below_threshold'' \<or> ob = ''none'' \<or> ob = ''no_record_found'' then False
      else case parseSeverityRank ob of
        Inl _ \<Rightarrow> False
      | Inr obsRank \<Rightarrow>
          let targetRank = (case map_of severityRanks threshold of
                Some r \<Rightarrow> r | None \<Rightarrow> the (map_of severityRanks SeverityHigh))
          in obsRank \<ge> targetRank)"

definition assess_name_confusion :: "string \<Rightarrow> Assessment \<Rightarrow> Assessment" where
  "assess_name_confusion ob a =
     (let a1 = (if ob = ''confusion_detected'' \<or> ob = ''true'' \<or> HasPrefix ob ''confusion_detected:''
                then (let b = a\<lparr>StrongNameConfusion := True\<rparr> in
                      if HasPrefix ob ''confusion_detected:''
                      then b\<lparr>ConfusedWith := TrimPrefix ob ''confusion_detected:''\<rparr> else b)
                else a)
      in if HasPrefix ob ''target:'' then a1\<lparr>ConfusedWith := TrimPrefix ob ''target:''\<rparr> else a1)"

definition assess_install_script :: "string \<Rightarrow> Assessment \<Rightarrow> Assessment" where
  "assess_install_script ob a =
     (if ob = ''script_added'' then a\<lparr>InstallScriptAdded := True, HasInstallScriptOrNativeBuild := True\<rparr>
      else if ob = ''present'' \<or> ob = ''native_build'' then a\<lparr>HasInstallScriptOrNativeBuild := True\<rparr>
      else if ob = ''inspect_truncated'' then a\<lparr>InspectionTruncated := True\<rparr>
      else if HasPrefix ob ''indicator:''
      then (let b = a\<lparr>DangerousInstallScript := True, HasInstallScriptOrNativeBuild := True\<rparr>;
                parts = Split CHR '':'' ob
            in if length parts \<ge> 4 \<and> parts ! 2 = ''script''
               then b\<lparr>DangerousScriptNames := DangerousScriptNames b @ [parts ! 3],
                      DangerousScriptReasons := DangerousScriptReasons b @
                        [parts ! 1 @ '' indicator in '' @ parts ! 3]\<rparr>
               else b)
      else if HasPrefix ob ''dangerous_script:''
      then a\<lparr>DangerousInstallScript := True, HasInstallScriptOrNativeBuild := True,
             DangerousScriptNames := DangerousScriptNames a @ [TrimPrefix ob ''dangerous_script:'']\<rparr>
      else a)"

definition assess_kind :: "Severity \<Rightarrow> Signal \<Rightarrow> Assessment \<Rightarrow> Assessment" where
  "assess_kind threshold obs a =
     (let k = sigKind obs; ob = sigObservation obs in
      if k = KindIntegrity
      then (if ob = ''mismatch'' \<or> ob = ''failed'' then a\<lparr>IntegrityMismatch := True\<rparr> else a)
      else if k = KindMalicious
      then (if ob = ''true'' \<or> ob = ''malicious'' then a\<lparr>KnownMalicious := True\<rparr> else a)
      else if k = KindVulnerability
      then (if ob = ''malicious'' then a\<lparr>KnownMalicious := True\<rparr>
            else if isVulnerabilityAboveThreshold ob threshold then a\<lparr>VulnerabilityAboveThreshold := True\<rparr>
            else a)
      else if k = KindNameConfusion then assess_name_confusion ob a
      else if k = KindPublishHistory
      then (if ob = ''not_found'' \<or> ob = ''package_not_found'' \<or> ob = ''version_not_found''
            then a\<lparr>PackageNotFound := True\<rparr> else a)
      else if k = KindPackageAge
      then (if ob = ''fresh'' \<or> ob = ''newborn'' then a\<lparr>NewbornOrFresh := True\<rparr>
            else if ob = ''not_found'' then a\<lparr>PackageNotFound := True\<rparr> else a)
      else if k = KindProvenance
      then (if ob = ''changed'' \<or> ob = ''unexpected'' then a\<lparr>PublisherOrProvenanceChanged := True\<rparr> else a)
      else if k = KindInstallScript then assess_install_script ob a
      else if k = KindReputation
      then (if ob = ''low_popularity'' then a\<lparr>LowPopularity := True\<rparr>
            else if ob = ''missing_repository'' then a\<lparr>MissingRepository := True\<rparr> else a)
      else if k = KindCache
      then (if ob = ''fresh_allow'' then a\<lparr>FreshCachedAllow := True\<rparr> else a)
      else if k = KindAvailability
      then (if ob = ''unavailable'' then a\<lparr>EvidenceUnavailable := True\<rparr> else a)
      else a)"

definition assess_step :: "Severity \<Rightarrow> Signal \<Rightarrow> Assessment \<Rightarrow> Assessment" where
  "assess_step threshold obs a =
     (let b = assess_kind threshold obs a in
      if sigObservation obs = ''unavailable'' then b\<lparr>EvidenceUnavailable := True\<rparr> else b)"

definition AssessWithThreshold :: "Snapshot \<Rightarrow> Severity \<Rightarrow> Assessment" where
  "AssessWithThreshold snap threshold =
     (let a = fold (assess_step threshold) (snapObservations snap) zeroAssessment in
      if HasUnavailableEvidence snap then a\<lparr>EvidenceUnavailable := True\<rparr> else a)"

definition Assess :: "Snapshot \<Rightarrow> Assessment" where
  "Assess snap = AssessWithThreshold snap SeverityHigh"

definition EvaluateSnapshot :: "Profile \<Rightarrow> Snapshot \<Rightarrow> Decision" where
  "EvaluateSnapshot profile snap = Evaluate profile (Assess snap)"

section \<open>Repository policy\<close>

definition CurrentPolicyVersion :: string where "CurrentPolicyVersion = ''1''"
definition DefaultPolicyFileName :: string where "DefaultPolicyFileName = ''installgate.yaml''"

record Policy =
  polVersion :: string
  polProfile :: Profile
  polThreshold :: Severity

datatype policy_error =
  PolicyNil | VersionRequired | UnsupportedVersion string | ProfileRequired | InvalidProfile string |
  ThresholdRequired | InvalidThreshold string | EmptyContent | MalformedYAML string |
  LooseningField string | UnknownField string | ReadFailed string

definition NewDefaultPolicy :: Policy where
  "NewDefaultPolicy = \<lparr>polVersion = CurrentPolicyVersion, polProfile = Balanced, polThreshold = SeverityHigh\<rparr>"

text \<open>No error is \<^term>\<open>None\<close>; the nil policy is the argument \<^term>\<open>None\<close>.\<close>

definition ValidatePolicy :: "Policy option \<Rightarrow> policy_error option" where
  "ValidatePolicy po =
     (case po of None \<Rightarrow> Some PolicyNil
      | Some p \<Rightarrow>
        if polVersion p = [] then Some VersionRequired
        else if polVersion p \<noteq> CurrentPolicyVersion then Some (UnsupportedVersion (polVersion p))
        else if polProfile p = Balanced \<or> polProfile p = Strict then
          (if polThreshold p = SeverityLow \<or> polThreshold p = SeverityMedium
              \<or> polThreshold p = SeverityHigh \<or> polThreshold p = SeverityCritical then None
           else if polThreshold p = [] then Some ThresholdRequired
           else Some (InvalidThreshold (polThreshold p)))
        else if polProfile p = [] then Some ProfileRequired
        else Some (InvalidProfile (polProfile p)))"

definition holds_word :: "string \<Rightarrow> bool" where
  "holds_word s = (Contains s ''block'' \<or> Contains s ''approval'')"

text \<open>The attempts to loosen a core invariant, in the order the code looks for them.\<close>

definition loosening_field :: "(string \<times> string) list \<Rightarrow> string option" where
  "loosening_field raw =
     (if map_of raw ''allow_malicious'' \<noteq> None then Some ''allow_malicious''
      else if map_of raw ''ignore_integrity'' \<noteq> None then Some ''ignore_integrity''
      else if map_of raw ''ignore_outages'' \<noteq> None then Some ''ignore_outages''
      else if (case map_of raw ''reputation'' of Some s \<Rightarrow> holds_word s | None \<Rightarrow> False) then Some ''reputation''
      else if (case map_of raw ''low_popularity'' of Some s \<Rightarrow> holds_word s | None \<Rightarrow> False) then Some ''low_popularity''
      else None)"

definition decode_error :: "string \<Rightarrow> policy_error" where
  "decode_error msg =
     (case Index msg ''field '' of
        None \<Rightarrow> MalformedYAML msg
      | Some idx \<Rightarrow>
          let rem = drop (idx + length ''field '') msg in
          (case Index rem '' '' of None \<Rightarrow> MalformedYAML msg | Some e \<Rightarrow> UnknownField (take e rem)))"

definition ParsePolicy ::
  "(string \<Rightarrow> string + (string \<times> string) list) \<Rightarrow> (string \<Rightarrow> string + Policy) \<Rightarrow> string \<Rightarrow> policy_error + Policy" where
  "ParsePolicy yaml_map yaml_decode data =
     (if length (TrimSpace data) = 0 then Inl EmptyContent
      else case yaml_map data of
        Inl err \<Rightarrow> Inl (MalformedYAML err)
      | Inr raw \<Rightarrow>
          (case loosening_field raw of
             Some f \<Rightarrow> Inl (LooseningField f)
           | None \<Rightarrow>
               (case yaml_decode data of
                  Inl msg \<Rightarrow> Inl (decode_error msg)
                | Inr p0 \<Rightarrow>
                    let p = p0\<lparr>polProfile := ToLower (polProfile p0), polThreshold := ToLower (polThreshold p0)\<rparr>
                    in (case ValidatePolicy (Some p) of Some err \<Rightarrow> Inl err | None \<Rightarrow> Inr p))))"

text \<open>The file system: what reading a path gives (\<^term>\<open>Inl\<close> is an error) and whether it exists.\<close>

definition LoadPolicyFile ::
  "(string \<Rightarrow> string + (string \<times> string) list) \<Rightarrow> (string \<Rightarrow> string + Policy) \<Rightarrow>
   (string \<Rightarrow> string + string) \<Rightarrow> string \<Rightarrow> policy_error + Policy" where
  "LoadPolicyFile yaml_map yaml_decode readFile filePath =
     (case readFile filePath of
        Inl _ \<Rightarrow> Inl (ReadFailed filePath)
      | Inr data \<Rightarrow> ParsePolicy yaml_map yaml_decode data)"

definition LoadDefaultPolicy ::
  "(string \<Rightarrow> string + (string \<times> string) list) \<Rightarrow> (string \<Rightarrow> string + Policy) \<Rightarrow>
   (string \<Rightarrow> bool) \<Rightarrow> (string \<Rightarrow> string + string) \<Rightarrow> string \<Rightarrow> policy_error + Policy" where
  "LoadDefaultPolicy yaml_map yaml_decode stat readFile dir =
     (case find stat [path_Join [dir, DefaultPolicyFileName], path_Join [dir, ''.installgate.yaml''],
                      path_Join [dir, ''.installgate.yml'']] of
        Some path \<Rightarrow> LoadPolicyFile yaml_map yaml_decode readFile path
      | None \<Rightarrow> Inr NewDefaultPolicy)"

definition Policy_Assess :: "Policy \<Rightarrow> Snapshot \<Rightarrow> Assessment" where
  "Policy_Assess p snap = AssessWithThreshold snap (polThreshold p)"

definition Policy_EvaluateSnapshot :: "Policy \<Rightarrow> Snapshot \<Rightarrow> Decision" where
  "Policy_EvaluateSnapshot p snap = Evaluate (polProfile p) (Policy_Assess p snap)"

section \<open>What an assessment records\<close>

text \<open>The observations that raise the flags of an assessment, one predicate per flag.\<close>

definition integrity_signal :: "Signal \<Rightarrow> bool" where
  "integrity_signal ob = (sigKind ob = ''integrity'' \<and> sigObservation ob \<in> {''mismatch'', ''failed''})"

definition malicious_signal :: "Signal \<Rightarrow> bool" where
  "malicious_signal ob = (sigKind ob = ''malicious'' \<and> sigObservation ob \<in> {''true'', ''malicious''}
     \<or> sigKind ob = ''vulnerability'' \<and> sigObservation ob = ''malicious'')"

definition not_found_signal :: "Signal \<Rightarrow> bool" where
  "not_found_signal ob = (sigKind ob = ''publish_history''
       \<and> sigObservation ob \<in> {''not_found'', ''package_not_found'', ''version_not_found''}
     \<or> sigKind ob = ''package_age'' \<and> sigObservation ob = ''not_found'')"

definition dangerous_signal :: "Signal \<Rightarrow> bool" where
  "dangerous_signal ob = (sigKind ob = ''install_script''
     \<and> (HasPrefix (sigObservation ob) ''indicator:'' \<or> HasPrefix (sigObservation ob) ''dangerous_script:''))"

definition vulnerable_signal :: "Severity \<Rightarrow> Signal \<Rightarrow> bool" where
  "vulnerable_signal t ob = (sigKind ob = ''vulnerability'' \<and> sigObservation ob \<noteq> ''malicious''
     \<and> isVulnerabilityAboveThreshold (sigObservation ob) t)"

definition cache_allow_signal :: "Signal \<Rightarrow> bool" where
  "cache_allow_signal ob = (sigKind ob = ''cache'' \<and> sigObservation ob = ''fresh_allow'')"

lemmas signal_defs = integrity_signal_def malicious_signal_def not_found_signal_def dangerous_signal_def
  vulnerable_signal_def cache_allow_signal_def
lemmas assess_defs = assess_step_def assess_kind_def assess_name_confusion_def assess_install_script_def Let_def

text \<open>A flag that a step raises exactly on some observations is raised by the loop exactly when one
  of them occurs.\<close>

lemma fold_flag:
  "(\<And>ob a. F (f ob a) \<longleftrightarrow> F a \<or> P ob) \<Longrightarrow> F (fold f obs a) \<longleftrightarrow> F a \<or> (\<exists>ob \<in> set obs. P ob)"
  by (induction obs arbitrary: a) auto

lemma assess_step_integrity: "IntegrityMismatch (assess_step t ob a) \<longleftrightarrow> IntegrityMismatch a \<or> integrity_signal ob"
  unfolding assess_defs
  by (simp add: if_distrib [of IntegrityMismatch] cong del: if_weak_cong split del: if_split)
    (simp add: integrity_signal_def kind_defs)

lemma assess_step_malicious: "KnownMalicious (assess_step t ob a) \<longleftrightarrow> KnownMalicious a \<or> malicious_signal ob"
  unfolding assess_defs
  by (simp add: if_distrib [of KnownMalicious] cong del: if_weak_cong split del: if_split)
    (simp add: malicious_signal_def kind_defs)

lemma assess_step_not_found: "PackageNotFound (assess_step t ob a) \<longleftrightarrow> PackageNotFound a \<or> not_found_signal ob"
  unfolding assess_defs
  by (simp add: if_distrib [of PackageNotFound] cong del: if_weak_cong split del: if_split)
    (simp add: not_found_signal_def kind_defs)

lemma assess_step_dangerous: "DangerousInstallScript (assess_step t ob a) \<longleftrightarrow> DangerousInstallScript a \<or> dangerous_signal ob"
  unfolding assess_defs
  by (simp add: if_distrib [of DangerousInstallScript] cong del: if_weak_cong split del: if_split)
    (auto simp: dangerous_signal_def kind_defs)

lemma assess_step_vulnerable:
  "VulnerabilityAboveThreshold (assess_step t ob a) \<longleftrightarrow> VulnerabilityAboveThreshold a \<or> vulnerable_signal t ob"
  unfolding assess_defs
  by (simp add: if_distrib [of VulnerabilityAboveThreshold] cong del: if_weak_cong split del: if_split)
    (simp add: vulnerable_signal_def kind_defs)

lemma assess_step_cache: "FreshCachedAllow (assess_step t ob a) \<longleftrightarrow> FreshCachedAllow a \<or> cache_allow_signal ob"
  unfolding assess_defs
  by (simp add: if_distrib [of FreshCachedAllow] cong del: if_weak_cong split del: if_split)
    (simp add: cache_allow_signal_def kind_defs)

lemma assess_step_unavailable:
  "EvidenceUnavailable (assess_step t ob a) \<longleftrightarrow> EvidenceUnavailable a \<or> sigObservation ob = ''unavailable''"
  unfolding assess_defs
  by (simp add: if_distrib [of EvidenceUnavailable] cong del: if_weak_cong split del: if_split) simp

lemmas assess_flags =
  fold_flag [where F = IntegrityMismatch, OF assess_step_integrity]
  fold_flag [where F = KnownMalicious, OF assess_step_malicious]
  fold_flag [where F = PackageNotFound, OF assess_step_not_found]
  fold_flag [where F = DangerousInstallScript, OF assess_step_dangerous]
  fold_flag [where F = VulnerabilityAboveThreshold, OF assess_step_vulnerable]
  fold_flag [where F = FreshCachedAllow, OF assess_step_cache]
  fold_flag [where F = EvidenceUnavailable, OF assess_step_unavailable]

lemma Assess_flags:
  "IntegrityMismatch (AssessWithThreshold s t) \<longleftrightarrow> (\<exists>ob \<in> set (snapObservations s). integrity_signal ob)"
  "KnownMalicious (AssessWithThreshold s t) \<longleftrightarrow> (\<exists>ob \<in> set (snapObservations s). malicious_signal ob)"
  "PackageNotFound (AssessWithThreshold s t) \<longleftrightarrow> (\<exists>ob \<in> set (snapObservations s). not_found_signal ob)"
  "DangerousInstallScript (AssessWithThreshold s t) \<longleftrightarrow> (\<exists>ob \<in> set (snapObservations s). dangerous_signal ob)"
  "VulnerabilityAboveThreshold (AssessWithThreshold s t) \<longleftrightarrow> (\<exists>ob \<in> set (snapObservations s). vulnerable_signal t ob)"
  "FreshCachedAllow (AssessWithThreshold s t) \<longleftrightarrow> (\<exists>ob \<in> set (snapObservations s). cache_allow_signal ob)"
  by (simp_all add: AssessWithThreshold_def Let_def assess_flags zeroAssessment_def)

lemma Assess_unavailable: "EvidenceUnavailable (AssessWithThreshold s t) \<longleftrightarrow> HasUnavailableEvidence s"
  by (auto simp: AssessWithThreshold_def Let_def assess_flags zeroAssessment_def HasUnavailableEvidence_iff)

text \<open>The threshold changes the vulnerability flag and nothing else.\<close>

definition forget_vulnerability :: "Assessment \<Rightarrow> Assessment" where
  "forget_vulnerability a = a\<lparr>VulnerabilityAboveThreshold := False\<rparr>"

lemma forget_vulnerability_update [simp]:
  "forget_vulnerability (forget_vulnerability a) = forget_vulnerability a"
  "forget_vulnerability (a\<lparr>VulnerabilityAboveThreshold := v\<rparr>) = forget_vulnerability a"
  "forget_vulnerability (a\<lparr>IntegrityMismatch := v\<rparr>) = (forget_vulnerability a)\<lparr>IntegrityMismatch := v\<rparr>"
  "forget_vulnerability (a\<lparr>KnownMalicious := v\<rparr>) = (forget_vulnerability a)\<lparr>KnownMalicious := v\<rparr>"
  "forget_vulnerability (a\<lparr>StrongNameConfusion := v\<rparr>) = (forget_vulnerability a)\<lparr>StrongNameConfusion := v\<rparr>"
  "forget_vulnerability (a\<lparr>NewbornOrFresh := v\<rparr>) = (forget_vulnerability a)\<lparr>NewbornOrFresh := v\<rparr>"
  "forget_vulnerability (a\<lparr>PublisherOrProvenanceChanged := v\<rparr>)
     = (forget_vulnerability a)\<lparr>PublisherOrProvenanceChanged := v\<rparr>"
  "forget_vulnerability (a\<lparr>InstallScriptAdded := v\<rparr>) = (forget_vulnerability a)\<lparr>InstallScriptAdded := v\<rparr>"
  "forget_vulnerability (a\<lparr>HasInstallScriptOrNativeBuild := v\<rparr>)
     = (forget_vulnerability a)\<lparr>HasInstallScriptOrNativeBuild := v\<rparr>"
  "forget_vulnerability (a\<lparr>EvidenceUnavailable := v\<rparr>) = (forget_vulnerability a)\<lparr>EvidenceUnavailable := v\<rparr>"
  "forget_vulnerability (a\<lparr>FreshCachedAllow := v\<rparr>) = (forget_vulnerability a)\<lparr>FreshCachedAllow := v\<rparr>"
  "forget_vulnerability (a\<lparr>LowPopularity := v\<rparr>) = (forget_vulnerability a)\<lparr>LowPopularity := v\<rparr>"
  "forget_vulnerability (a\<lparr>MissingRepository := v\<rparr>) = (forget_vulnerability a)\<lparr>MissingRepository := v\<rparr>"
  "forget_vulnerability (a\<lparr>PackageNotFound := v\<rparr>) = (forget_vulnerability a)\<lparr>PackageNotFound := v\<rparr>"
  "forget_vulnerability (a\<lparr>ConfusedWith := s\<rparr>) = (forget_vulnerability a)\<lparr>ConfusedWith := s\<rparr>"
  "forget_vulnerability (a\<lparr>DangerousInstallScript := v\<rparr>) = (forget_vulnerability a)\<lparr>DangerousInstallScript := v\<rparr>"
  "forget_vulnerability (a\<lparr>DangerousScriptNames := l\<rparr>) = (forget_vulnerability a)\<lparr>DangerousScriptNames := l\<rparr>"
  "forget_vulnerability (a\<lparr>DangerousScriptReasons := l\<rparr>) = (forget_vulnerability a)\<lparr>DangerousScriptReasons := l\<rparr>"
  "forget_vulnerability (a\<lparr>InspectionTruncated := v\<rparr>) = (forget_vulnerability a)\<lparr>InspectionTruncated := v\<rparr>"
  "DangerousScriptNames (forget_vulnerability a) = DangerousScriptNames a"
  "DangerousScriptReasons (forget_vulnerability a) = DangerousScriptReasons a"
  by (simp_all add: forget_vulnerability_def)

lemma forget_parts [simp]:
  "forget_vulnerability (assess_name_confusion ob a) = assess_name_confusion ob (forget_vulnerability a)"
  "forget_vulnerability (assess_install_script ob a) = assess_install_script ob (forget_vulnerability a)"
  unfolding assess_name_confusion_def assess_install_script_def Let_def
  by (simp_all add: if_distrib [of forget_vulnerability] cong del: if_weak_cong split del: if_split)

lemma assess_step_threshold:
  "forget_vulnerability (assess_step t ob a) = forget_vulnerability (assess_step t' ob (forget_vulnerability a))"
  unfolding assess_step_def assess_kind_def Let_def
  by (simp add: if_distrib [of forget_vulnerability] cong del: if_weak_cong split del: if_split)

lemma fold_assess_threshold:
  "forget_vulnerability a = forget_vulnerability b \<Longrightarrow>
   forget_vulnerability (fold (assess_step t) obs a) = forget_vulnerability (fold (assess_step t') obs b)"
proof (induction obs arbitrary: a b)
  case (Cons ob obs)
  have "forget_vulnerability (assess_step t ob a) = forget_vulnerability (assess_step t' ob b)"
    by (metis Cons.prems assess_step_threshold)
  then show ?case using Cons.IH by simp
qed simp

lemma Assess_threshold:
  "forget_vulnerability (AssessWithThreshold s t) = forget_vulnerability (AssessWithThreshold s t')"
  using fold_assess_threshold [of zeroAssessment zeroAssessment t "snapObservations s" t']
  by (simp add: AssessWithThreshold_def Let_def)

section \<open>The matrix as a table\<close>

text \<open>
  The documented matrix: one row per condition, with the verdict under the balanced and under the
  strict profile. The first row that applies decides.
\<close>

definition matrix :: "((Assessment \<Rightarrow> bool) \<times> verdict_kind \<times> verdict_kind) list" where
  "matrix =
    [(PackageNotFound, Block, Block),
     (\<lambda>a. IntegrityMismatch a \<or> KnownMalicious a, Block, Block),
     (DangerousInstallScript, Block, Block),
     (VulnerabilityAboveThreshold, Block, Block),
     (\<lambda>a. StrongNameConfusion a \<and> NewbornOrFresh a, ApprovalRequired, Block),
     (\<lambda>a. PublisherOrProvenanceChanged a \<and> InstallScriptAdded a, ApprovalRequired, Block),
     (\<lambda>a. HasInstallScriptOrNativeBuild a \<and> \<not> EvidenceUnavailable a, Warn, ApprovalRequired),
     (\<lambda>a. EvidenceUnavailable a \<and> FreshCachedAllow a, Allow, ApprovalRequired),
     (EvidenceUnavailable, ApprovalRequired, Block),
     (\<lambda>a. LowPopularity a \<or> MissingRepository a, Allow, Warn),
     (\<lambda>a. True, Allow, Allow)]"

definition matrix_verdict :: "Profile \<Rightarrow> Assessment \<Rightarrow> verdict_kind" where
  "matrix_verdict profile a =
     (case find (\<lambda>(row, b, s). row a) matrix of
        None \<Rightarrow> Allow | Some (_, b, s) \<Rightarrow> if profile = Strict then s else b)"

lemma decision_simps [simp]:
  "decVerdict (decision k r m d sg) = k" "decDegraded (decision k r m d sg) = d"
  "decReasons (decision k r m d sg) =
     [\<lparr>reasonRuleID = r, reasonSummary = m, reasonSignalKinds = sg\<rparr>]"
  by (simp_all add: decision_def)

lemma Evaluate_verdict: "decVerdict (Evaluate profile a) = matrix_verdict profile a"
  by (simp add: Evaluate_def matrix_verdict_def matrix_def Let_def)

lemma matrix_columns: "(row, b, s) \<in> set matrix \<Longrightarrow> b \<le> s"
  by (auto simp: matrix_def verdict_order)

lemma Evaluate_core_block:
  "PackageNotFound a \<or> IntegrityMismatch a \<or> KnownMalicious a \<or> DangerousInstallScript a \<or> VulnerabilityAboveThreshold a
   \<Longrightarrow> decVerdict (Evaluate profile a) = Block"
  by (auto simp: Evaluate_def Let_def)

lemma forget_vulnerability_id: "\<not> VulnerabilityAboveThreshold a \<Longrightarrow> forget_vulnerability a = a"
  by (simp add: forget_vulnerability_def)

lemma Evaluate_threshold_irrelevant:
  assumes "\<not> VulnerabilityAboveThreshold (AssessWithThreshold s t)"
    and "\<not> VulnerabilityAboveThreshold (AssessWithThreshold s t')"
  shows "Evaluate profile (AssessWithThreshold s t) = Evaluate profile (AssessWithThreshold s t')"
  using assms Assess_threshold [of s t t'] by (simp add: forget_vulnerability_id)

lemma vulnerable_signal_mono:
  assumes "Severity_Valid t" "Severity_Valid t'" "Severity_Rank t \<le> Severity_Rank t'" "vulnerable_signal t' ob"
  shows "vulnerable_signal t ob"
proof -
  obtain r r' where r: "map_of severityRanks t = Some r" "map_of severityRanks t' = Some r'"
    using assms(1,2) by (auto simp: Severity_Valid_def)
  then have "r \<le> r'" using assms(3) by (simp add: Severity_Rank_def)
  then show ?thesis
    using assms(4) r
    by (auto simp: vulnerable_signal_def isVulnerabilityAboveThreshold_def Let_def split: if_splits sum.splits)
qed

lemma le_Block: "v \<le> Block"
  by (cases v) (simp_all add: verdict_order)

lemma strict_profile_top: "decVerdict (Evaluate profile a) \<le> decVerdict (Evaluate Strict a)"
proof -
  have "find (\<lambda>(row, b, s). row a) matrix \<noteq> None" by (auto simp: find_None_iff matrix_def)
  then obtain r where "find (\<lambda>(row, b, s). row a) matrix = Some r" by blast
  moreover from this have "r \<in> set matrix" by (metis find_Some_iff nth_mem)
  ultimately show ?thesis
    using matrix_columns [of "fst r" "fst (snd r)" "snd (snd r)"]
    by (auto simp: Evaluate_verdict matrix_verdict_def split: prod.splits)
qed

lemma Evaluate_outage:
  "EvidenceUnavailable a \<Longrightarrow> held (decVerdict (Evaluate q a)) \<or>
   decVerdict (Evaluate q a) = Allow \<and> decDegraded (Evaluate q a) \<and> q \<noteq> Strict \<and> FreshCachedAllow a"
  by (simp add: Evaluate_def held_def Let_def)

lemma assess_reputation_step:
  assumes "sigKind ob = ''reputation''"
  shows "StrongNameConfusion (assess_step t ob a) = StrongNameConfusion a \<and>
     PublisherOrProvenanceChanged (assess_step t ob a) = PublisherOrProvenanceChanged a \<and>
     HasInstallScriptOrNativeBuild (assess_step t ob a) = HasInstallScriptOrNativeBuild a"
  using assms by (simp add: assess_step_def assess_kind_def Let_def kind_defs)

lemma assess_reputation_fold:
  "\<forall>ob \<in> set obs. sigKind ob = ''reputation'' \<Longrightarrow>
   StrongNameConfusion (fold (assess_step t) obs a) = StrongNameConfusion a \<and>
   PublisherOrProvenanceChanged (fold (assess_step t) obs a) = PublisherOrProvenanceChanged a \<and>
   HasInstallScriptOrNativeBuild (fold (assess_step t) obs a) = HasInstallScriptOrNativeBuild a"
  by (induction obs arbitrary: a) (simp_all add: assess_reputation_step)

lemma severity_valid_iff:
  "Severity_Valid s \<longleftrightarrow> s = SeverityLow \<or> s = SeverityMedium \<or> s = SeverityHigh \<or> s = SeverityCritical"
  by (auto simp: Severity_Valid_def severityRanks_def)

lemma ValidatePolicy_None:
  "ValidatePolicy (Some p) = None \<longleftrightarrow>
     polVersion p = ''1'' \<and> polProfile p \<in> {Balanced, Strict} \<and> Severity_Valid (polThreshold p)"
  by (auto simp: ValidatePolicy_def severity_valid_iff CurrentPolicyVersion_def)

lemma loosening_field_None:
  "loosening_field raw = None \<Longrightarrow>
   map_of raw ''allow_malicious'' = None \<and> map_of raw ''ignore_integrity'' = None \<and> map_of raw ''ignore_outages'' = None"
  by (auto simp: loosening_field_def split: if_splits)

lemma ParsePolicy_Inr:
  assumes "ParsePolicy yaml_map yaml_decode data = Inr p"
  shows "ValidatePolicy (Some p) = None \<and> (\<exists>raw. yaml_map data = Inr raw \<and> loosening_field raw = None)"
  using assms by (auto simp: ParsePolicy_def Let_def split: if_splits sum.splits option.splits)

lemma policy_outage:
  assumes "HasUnavailableEvidence snap"
  shows "held (decVerdict (Policy_EvaluateSnapshot p snap)) \<or>
         decVerdict (Policy_EvaluateSnapshot p snap) = Allow \<and> decDegraded (Policy_EvaluateSnapshot p snap)
           \<and> polProfile p \<noteq> Strict \<and> (\<exists>ob \<in> set (snapObservations snap). cache_allow_signal ob)"
proof -
  define a where "a = AssessWithThreshold snap (polThreshold p)"
  have "EvidenceUnavailable a" "FreshCachedAllow a \<longleftrightarrow> (\<exists>ob \<in> set (snapObservations snap). cache_allow_signal ob)"
    using assms by (simp_all add: a_def Assess_unavailable Assess_flags)
  then show ?thesis
    using Evaluate_outage [of a "polProfile p"]
    by (simp add: Policy_EvaluateSnapshot_def Policy_Assess_def flip: a_def)
qed

section \<open>Properties\<close>

text \<open>
  The strict profile is never more permissive than any other profile, on any assessment.
\<close>

lemma strict_never_more_permissive:
  "decVerdict (Evaluate profile a) \<le> decVerdict (Evaluate Strict a)"
  by (rule strict_profile_top)

text \<open>
  C3. The core invariants cannot be loosened by any policy: whatever its profile and threshold, a
  snapshot with an integrity mismatch, known malicious evidence, a package the registry does not
  have, or a dangerous install script is blocked.
\<close>

theorem core_evidence_always_blocks:
  assumes "ob \<in> set (snapObservations snap)"
    and "integrity_signal ob \<or> malicious_signal ob \<or> not_found_signal ob \<or> dangerous_signal ob"
  shows "decVerdict (Policy_EvaluateSnapshot p snap) = Block"
  unfolding Policy_EvaluateSnapshot_def Policy_Assess_def
  by (rule Evaluate_core_block) (use assms in \<open>auto simp: Assess_flags\<close>)

definition sample_snapshot :: "Signal list \<Rightarrow> Snapshot" where
  "sample_snapshot obs = \<lparr>snapID = [], snapPkg = ''left-pad'', snapVersion = ''1.0.0'',
     snapObservations = obs, snapProviderStates = [], snapCreatedAt = 0\<rparr>"

theorem core_evidence_always_blocks_witness:
  "decVerdict (Policy_EvaluateSnapshot NewDefaultPolicy
     (sample_snapshot [sample_signal ''cache'' ''fresh_allow'' 7, sample_signal ''integrity'' ''mismatch'' 9])) = Block"
  by (rule core_evidence_always_blocks [where ob = "sample_signal ''integrity'' ''mismatch'' 9"])
     (simp_all add: sample_snapshot_def sample_signal_def integrity_signal_def)

text \<open>
  C2. An outage is never a silent allow. With unavailable evidence in the snapshot, under any
  policy, the package is held; or the profile is not strict, a fresh cached allow is among the
  observations, and the allow is marked degraded.
\<close>

theorem outage_never_silently_allows:
  assumes "HasUnavailableEvidence snap"
  shows "held (decVerdict (Policy_EvaluateSnapshot p snap)) \<or>
         decVerdict (Policy_EvaluateSnapshot p snap) = Allow \<and> decDegraded (Policy_EvaluateSnapshot p snap)
           \<and> polProfile p \<noteq> Strict \<and> (\<exists>ob \<in> set (snapObservations snap). cache_allow_signal ob)"
  using assms by (rule policy_outage)

theorem outage_never_silently_allows_witness:
  "held (decVerdict (Policy_EvaluateSnapshot NewDefaultPolicy
     (sample_snapshot [sample_signal ''malicious'' ''unavailable'' 9])))"
  using outage_never_silently_allows
    [of "sample_snapshot [sample_signal ''malicious'' ''unavailable'' 9]" NewDefaultPolicy]
  by (auto simp: HasUnavailableEvidence_iff sample_snapshot_def sample_signal_def cache_allow_signal_def)

text \<open>
  C30. Repository policy can only tighten: a policy whose profile is strict where the other's is,
  and whose threshold is at most the other's, never gives a less restrictive verdict on the same
  snapshot.
\<close>

theorem policy_only_tightens:
  assumes "Severity_Valid (polThreshold p)" "Severity_Valid (polThreshold q)"
    and "Severity_Rank (polThreshold q) \<le> Severity_Rank (polThreshold p)"
    and "polProfile q = polProfile p \<or> polProfile q = Strict"
  shows "decVerdict (Policy_EvaluateSnapshot p snap) \<le> decVerdict (Policy_EvaluateSnapshot q snap)"
proof -
  let ?ap = "AssessWithThreshold snap (polThreshold p)" and ?aq = "AssessWithThreshold snap (polThreshold q)"
  have profile: "decVerdict (Evaluate (polProfile p) b) \<le> decVerdict (Evaluate (polProfile q) b)" for b
    using assms(4) strict_profile_top by auto
  show ?thesis
  proof (cases "VulnerabilityAboveThreshold ?aq")
    case True
    then have "decVerdict (Evaluate (polProfile q) ?aq) = Block" by (simp add: Evaluate_core_block)
    then show ?thesis
      by (simp add: Policy_EvaluateSnapshot_def Policy_Assess_def le_Block)
  next
    case False
    then have "\<not> VulnerabilityAboveThreshold ?ap"
      using vulnerable_signal_mono [OF assms(2,1,3)] by (auto simp: Assess_flags)
    then show ?thesis
      using False profile Evaluate_threshold_irrelevant [of snap "polThreshold p" "polThreshold q"]
      by (simp add: Policy_EvaluateSnapshot_def Policy_Assess_def)
  qed
qed

definition strict_low_policy :: Policy where
  "strict_low_policy = \<lparr>polVersion = ''1'', polProfile = Strict, polThreshold = SeverityLow\<rparr>"

theorem policy_only_tightens_witness:
  "decVerdict (Policy_EvaluateSnapshot NewDefaultPolicy (sample_snapshot [sample_signal ''vulnerability'' ''low'' 9]))
     \<le> decVerdict (Policy_EvaluateSnapshot strict_low_policy (sample_snapshot [sample_signal ''vulnerability'' ''low'' 9]))"
  by (rule policy_only_tightens)
     (simp_all add: NewDefaultPolicy_def strict_low_policy_def Severity_Valid_def Severity_Rank_def
        severityRanks_def severity_defs profile_defs)

text \<open>
  A policy file is accepted only when the policy is well-formed, and never with a key that
  would disable a core check; this holds for any YAML decoder.
\<close>

lemma ParsePolicy_sound:
  assumes "ParsePolicy yaml_map yaml_decode data = Inr p"
  shows "polVersion p = ''1'' \<and> polProfile p \<in> {Balanced, Strict} \<and> Severity_Valid (polThreshold p) \<and>
         (\<exists>raw. yaml_map data = Inr raw \<and> map_of raw ''allow_malicious'' = None
            \<and> map_of raw ''ignore_integrity'' = None \<and> map_of raw ''ignore_outages'' = None)"
  using ParsePolicy_Inr [OF assms] loosening_field_None ValidatePolicy_None by blast

definition sample_yaml_decode :: "string \<Rightarrow> string + Policy" where
  "sample_yaml_decode data = Inr \<lparr>polVersion = ''1'', polProfile = ''Strict'', polThreshold = ''LOW''\<rparr>"

text \<open>
  Weak reputation evidence alone never holds a package: when every observation is of kind
  reputation and nothing is unavailable, the verdict is at most a warning under any policy.
\<close>

lemma reputation_alone_never_holds:
  assumes "\<forall>ob \<in> set (snapObservations snap). sigKind ob = ''reputation''" "\<not> HasUnavailableEvidence snap"
  shows "decVerdict (Policy_EvaluateSnapshot p snap) \<le> Warn"
proof -
  define a where "a = AssessWithThreshold snap (polThreshold p)"
  have "\<not> PackageNotFound a" "\<not> IntegrityMismatch a" "\<not> KnownMalicious a" "\<not> DangerousInstallScript a"
      "\<not> VulnerabilityAboveThreshold a" "\<not> EvidenceUnavailable a"
    using assms by (auto simp: a_def Assess_flags Assess_unavailable signal_defs)
  moreover have "\<not> StrongNameConfusion a \<and> \<not> PublisherOrProvenanceChanged a \<and> \<not> HasInstallScriptOrNativeBuild a"
    using assms(1) unfolding a_def AssessWithThreshold_def Let_def
    by (simp add: assess_reputation_fold zeroAssessment_def)
  ultimately show ?thesis
    by (simp add: Policy_EvaluateSnapshot_def Policy_Assess_def Evaluate_def Let_def verdict_order flip: a_def)
qed

end
