(* ===== verification/Explanation.thy ===== *)
theory Explanation
  imports Policy
begin

text \<open>
  Decision documents: \<^verbatim>\<open>src/internal/explanation/document.go\<close>, \<^verbatim>\<open>sanitize.go\<close>,
  \<^verbatim>\<open>render_human.go\<close>, \<^verbatim>\<open>render_json.go\<close> and \<^verbatim>\<open>store.go\<close>. The regular expressions of
  \<^verbatim>\<open>sanitize.go\<close> are the parameter \<open>re\<close>, one replacement function per expression, and the
  order in which they are applied is the source's. The JSON encoder and decoder of documents are
  the parameters \<open>render\<close> and \<open>parse\<close>. A \<^verbatim>\<open>verdict.Kind\<close> in a document is the string it is
  in Go, since a document can be read from a file.
\<close>

section \<open>Sanitising\<close>

datatype sanitize_regex =
  AuthHeaderRegex | ProxyAuthRegex | BearerRegex | BasicRegex | UrlCredsRegex | NpmTokenRegex
| GhTokenRegex | SkTokenRegex | NtnTokenRegex | AuthTokenRegex

type_synonym regexes = "sanitize_regex \<Rightarrow> string \<Rightarrow> string"

definition sanitize_order :: "sanitize_regex list" where
  "sanitize_order = [AuthHeaderRegex, ProxyAuthRegex, BearerRegex, BasicRegex, UrlCredsRegex,
     NpmTokenRegex, GhTokenRegex, SkTokenRegex, NtnTokenRegex, AuthTokenRegex]"

definition containsBinaryContent :: "string \<Rightarrow> bool" where
  "containsBinaryContent s =
     (length s > 4096 \<or>
      list_ex (\<lambda>c. byte c = 0 \<or> (byte c < 32 \<and> c \<noteq> CHR 0x0A \<and> c \<noteq> CHR 0x0D \<and> c \<noteq> CHR 0x09)) s)"

definition SanitizeText :: "regexes \<Rightarrow> string \<Rightarrow> string" where
  "SanitizeText re s =
     (if s = [] then []
      else let res = fold (\<lambda>r t. re r t) sanitize_order s in
        if containsBinaryContent res then ''[PACKAGE_CONTENT_REDACTED]'' else res)"

datatype coord_error = MissingPackage | MissingVersion | ControlCharacters | SchemePrefix

definition control_char :: "char \<Rightarrow> bool" where
  "control_char c = (c = CHR 0x0D \<or> c = CHR 0x0A \<or> c = CHR 0x00)"

definition ValidateCoordinates :: "string \<Rightarrow> string \<Rightarrow> coord_error option" where
  "ValidateCoordinates pkg version =
     (if TrimSpace pkg = [] then Some MissingPackage
      else if TrimSpace version = [] then Some MissingVersion
      else if list_ex control_char pkg \<or> list_ex control_char version then Some ControlCharacters
      else if Contains pkg ''://'' \<or> Contains version ''://'' then Some SchemePrefix
      else None)"

section \<open>Documents\<close>

record EvidenceRecord =
  erKind :: string
  erSource :: string
  erObservedValue :: string
  erConfidence :: string
  erRetrievedAt :: gotime
  erFreshUntil :: gotime
  erFreshness :: string

record ReasonExplanation =
  reRuleID :: string
  reSummary :: string
  reEvidence :: "EvidenceRecord list"

record MissingEvidence =
  miKind :: string
  miSource :: string
  miReason :: string

record ChangeExplanation =
  chKind :: string
  chSummary :: string

record DecisionDocument =
  docSchemaVersion :: string
  docDecisionID :: string
  docPackage :: string
  docVersion :: string
  docVerdict :: string
  docDegraded :: bool
  docSnapshotID :: string
  docReasons :: "ReasonExplanation list"
  docChanges :: "ChangeExplanation list"
  docMissingEvidence :: "MissingEvidence list"
  docNextCommand :: string

definition CurrentSchemaVersion :: string where "CurrentSchemaVersion = ''1''"

record docConfig =
  customID :: string
  nextCommand :: string
  refTime :: gotime

definition emptyConfig :: docConfig where
  "emptyConfig = \<lparr>customID = [], nextCommand = [], refTime = 0\<rparr>"

text \<open>The identifier is the first eight bytes, sixteen hexadecimal digits, of the hash.\<close>

definition ComputeDecisionID :: "(string \<Rightarrow> string) \<Rightarrow> string \<Rightarrow> string \<Rightarrow> string \<Rightarrow> string \<Rightarrow> string" where
  "ComputeDecisionID sha256_hex pkg version snapshotID v =
     ''dec_'' @ take 16 (sha256_hex (pkg @ '':'' @ version @ '':'' @ snapshotID @ '':'' @ v))"

definition classifyFreshness :: "Signal \<Rightarrow> gotime \<Rightarrow> string" where
  "classifyFreshness obs t =
     (if sigObservation obs = ''unavailable'' then ''unavailable''
      else if sigRetrievedAt obs = 0 then ''unknown''
      else if sigFreshUntil obs \<noteq> 0 \<and> t > sigFreshUntil obs then ''stale''
      else ''fresh'')"

text \<open>One entry per key \<open>kind:source\<close>; the accumulator is the list of keys seen and the entries.\<close>

definition missing_key :: "MissingEvidence \<Rightarrow> string" where
  "missing_key m = miKind m @ '':'' @ miSource m"

definition failed_provider :: "string \<Rightarrow> string \<Rightarrow> MissingEvidence" where
  "failed_provider kind source =
     \<lparr>miKind = kind, miSource = source, miReason = ''provider request failed or timed out''\<rparr>"

definition add_missing :: "string \<Rightarrow> string \<Rightarrow> MissingEvidence list \<Rightarrow> MissingEvidence list" where
  "add_missing kind source missing =
     (if list_ex (\<lambda>m. missing_key m = kind @ '':'' @ source) missing then missing
      else missing @ [failed_provider kind source])"

definition missing_from_observation :: "Signal \<Rightarrow> MissingEvidence list \<Rightarrow> MissingEvidence list" where
  "missing_from_observation obs missing =
     (if sigObservation obs = ''unavailable''
      then add_missing (sigKind obs) (if sigSource obs = [] then ''provider'' else sigSource obs) missing
      else missing)"

definition missing_from_state :: "Snapshot \<Rightarrow> string \<times> State \<Rightarrow> MissingEvidence list \<Rightarrow> MissingEvidence list" where
  "missing_from_state snap ks missing =
     (if snd ks = StateUnavailable
      then add_missing (fst ks)
             (case Snapshot_Observation snap (fst ks) of
                Some obs \<Rightarrow> if sigSource obs \<noteq> [] then sigSource obs else ''provider''
              | None \<Rightarrow> ''provider'') missing
      else missing)"

definition missing_less :: "MissingEvidence \<Rightarrow> MissingEvidence \<Rightarrow> bool" where
  "missing_less a b = (if miKind a \<noteq> miKind b then miKind a < miKind b else miSource a < miSource b)"

definition collectMissingEvidence :: "Snapshot \<Rightarrow> MissingEvidence list" where
  "collectMissingEvidence snap =
     SortSlice missing_less
       (fold (missing_from_state snap) (snapProviderStates snap)
          (fold missing_from_observation (snapObservations snap) []))"

definition change_of :: "Signal \<Rightarrow> ChangeExplanation list" where
  "change_of obs =
     (if sigKind obs = KindProvenance then
        (if sigObservation obs = ''changed'' \<or> sigObservation obs = ''unexpected''
         then [\<lparr>chKind = ''provenance'', chSummary = ''publisher or provenance changed from prior releases''\<rparr>] else [])
      else if sigKind obs = KindInstallScript then
        (if sigObservation obs = ''script_added''
         then [\<lparr>chKind = ''install_script'', chSummary = ''install script newly introduced in this version''\<rparr>] else [])
      else if sigKind obs = KindNameConfusion then
        (if HasPrefix (sigObservation obs) ''confusion_detected:''
         then [\<lparr>chKind = ''name_confusion'', chSummary = ''package name confusable with target '' @
                  Quote (TrimPrefix (sigObservation obs) ''confusion_detected:'')\<rparr>] else [])
      else [])"

definition collectChanges :: "Snapshot \<Rightarrow> ChangeExplanation list" where
  "collectChanges snap = concat (map change_of (snapObservations snap))"

definition determineNextCommand ::
  "string \<Rightarrow> string \<Rightarrow> verdict_kind \<Rightarrow> string \<Rightarrow> string \<Rightarrow> string \<Rightarrow> bool \<Rightarrow> string" where
  "determineNextCommand pkg version v decisionID safeVersion confusableTarget integrityMismatch =
     (case v of
        ApprovalRequired \<Rightarrow> ''installgate approve '' @ decisionID
      | Block \<Rightarrow>
          if safeVersion \<noteq> [] then ''npm install '' @ pkg @ ''@'' @ safeVersion
          else if confusableTarget \<noteq> [] then ''npm install '' @ confusableTarget
          else if integrityMismatch then ''npm cache clean --force && npm install '' @ pkg @ ''@'' @ version
          else ''npm view '' @ pkg @ '' versions''
      | Warn \<Rightarrow> ''npm install '' @ pkg @ ''@'' @ version
      | Allow \<Rightarrow> ''npm install '' @ pkg @ ''@'' @ version)"

section \<open>Assembling a document\<close>

text \<open>What the loop over the observations notices; a later suggestion replaces an earlier one.\<close>

record doc_flags =
  hasMaliciousRecord :: bool
  hasIntegrityMismatch :: bool
  safeVersionSuggested :: string
  confusableTarget :: string

definition malicious_record :: "Signal \<Rightarrow> bool" where
  "malicious_record obs =
     ((sigKind obs = KindMalicious \<and> (sigObservation obs = ''malicious'' \<or> sigObservation obs = ''true'')) \<or>
      (sigKind obs = KindVulnerability \<and> sigObservation obs = ''malicious''))"

definition mismatch_record :: "Signal \<Rightarrow> bool" where
  "mismatch_record obs =
     (sigKind obs = KindIntegrity \<and> (sigObservation obs = ''mismatch'' \<or> sigObservation obs = ''failed''))"

definition flag_step :: "Signal \<Rightarrow> doc_flags \<Rightarrow> doc_flags" where
  "flag_step obs f =
     \<lparr>hasMaliciousRecord = hasMaliciousRecord f \<or> malicious_record obs,
      hasIntegrityMismatch = hasIntegrityMismatch f \<or> mismatch_record obs,
      safeVersionSuggested =
        (if HasPrefix (sigObservation obs) ''safe_version_suggested:''
         then TrimPrefix (sigObservation obs) ''safe_version_suggested:'' else safeVersionSuggested f),
      confusableTarget =
        (if HasPrefix (sigObservation obs) ''confusion_detected:''
         then TrimPrefix (sigObservation obs) ''confusion_detected:''
         else if HasPrefix (sigObservation obs) ''target:''
         then TrimPrefix (sigObservation obs) ''target:'' else confusableTarget f)\<rparr>"

definition doc_flags_of :: "Signal list \<Rightarrow> doc_flags" where
  "doc_flags_of obs = fold flag_step obs
     \<lparr>hasMaliciousRecord = False, hasIntegrityMismatch = False, safeVersionSuggested = [], confusableTarget = []\<rparr>"

definition reason_summary :: "doc_flags \<Rightarrow> Reason \<Rightarrow> string" where
  "reason_summary f r =
     (if reasonRuleID r = ''core.integrity-or-malicious'' then
        (if hasIntegrityMismatch f \<and> \<not> hasMaliciousRecord f
         then ''package integrity verification failed (checksum mismatch)''
         else if hasMaliciousRecord f \<and> \<not> hasIntegrityMismatch f
         then ''known malicious package record found in advisory database''
         else if hasIntegrityMismatch f \<and> hasMaliciousRecord f
         then ''package integrity verification failed and known malicious package record found''
         else reasonSummary r)
      else reasonSummary r)"

definition signal_key :: "Signal \<Rightarrow> string" where
  "signal_key obs = sigKind obs @ '':'' @ sigSource obs @ '':'' @ sigObservation obs"

definition evidence_record :: "regexes \<Rightarrow> gotime \<Rightarrow> Signal \<Rightarrow> EvidenceRecord" where
  "evidence_record re t obs =
     \<lparr>erKind = sigKind obs, erSource = SanitizeText re (sigSource obs),
      erObservedValue = SanitizeText re (sigObservation obs), erConfidence = sigConfidence obs,
      erRetrievedAt = sigRetrievedAt obs, erFreshUntil = sigFreshUntil obs,
      erFreshness = classifyFreshness obs t\<rparr>"

definition evidence_step :: "regexes \<Rightarrow> gotime \<Rightarrow> Signal \<Rightarrow> string list \<times> EvidenceRecord list \<Rightarrow> string list \<times> EvidenceRecord list" where
  "evidence_step re t obs acc =
     (if List.member (fst acc) (signal_key obs) then acc
      else (signal_key obs # fst acc, snd acc @ [evidence_record re t obs]))"

definition evidence_less :: "EvidenceRecord \<Rightarrow> EvidenceRecord \<Rightarrow> bool" where
  "evidence_less a b =
     (if erKind a \<noteq> erKind b then erKind a < erKind b
      else if erSource a \<noteq> erSource b then erSource a < erSource b
      else erObservedValue a < erObservedValue b)"

definition reason_evidence :: "regexes \<Rightarrow> gotime \<Rightarrow> Snapshot \<Rightarrow> Reason \<Rightarrow> EvidenceRecord list" where
  "reason_evidence re t snap r =
     SortSlice evidence_less
       (snd (fold (evidence_step re t) (concat (map (ObservationsByKind snap) (reasonSignalKinds r))) ([], [])))"

definition explain_reason :: "regexes \<Rightarrow> gotime \<Rightarrow> Snapshot \<Rightarrow> doc_flags \<Rightarrow> Reason \<Rightarrow> ReasonExplanation" where
  "explain_reason re t snap f r =
     \<lparr>reRuleID = reasonRuleID r, reSummary = SanitizeText re (reason_summary f r),
      reEvidence = reason_evidence re t snap r\<rparr>"

definition reference_time :: "docConfig \<Rightarrow> Snapshot \<Rightarrow> gotime \<Rightarrow> gotime" where
  "reference_time cfg snap now =
     (if refTime cfg \<noteq> 0 then refTime cfg else if snapCreatedAt snap \<noteq> 0 then snapCreatedAt snap else now)"

definition NewDecisionDocument ::
  "regexes \<Rightarrow> (string \<Rightarrow> string) \<Rightarrow> gotime \<Rightarrow> string \<Rightarrow> string \<Rightarrow> Decision \<Rightarrow> Snapshot \<Rightarrow> docConfig \<Rightarrow>
   coord_error + DecisionDocument" where
  "NewDecisionDocument re sha256_hex now pkg version dec snap cfg =
     (case ValidateCoordinates pkg version of
        Some e \<Rightarrow> Inl e
      | None \<Rightarrow>
          let t = reference_time cfg snap now;
              snapshotID = (if snapID snap = [] then ''sha256:empty'' else snapID snap);
              decID = (if customID cfg = []
                       then ComputeDecisionID sha256_hex pkg version snapshotID (kind_string (decVerdict dec))
                       else customID cfg);
              f = doc_flags_of (snapObservations snap);
              nextCmd = (if nextCommand cfg = []
                         then determineNextCommand pkg version (decVerdict dec) decID (safeVersionSuggested f)
                                (confusableTarget f) (hasIntegrityMismatch f)
                         else nextCommand cfg)
          in Inr \<lparr>docSchemaVersion = CurrentSchemaVersion, docDecisionID = decID,
               docPackage = SanitizeText re pkg, docVersion = SanitizeText re version,
               docVerdict = kind_string (decVerdict dec),
               docDegraded = (decDegraded dec \<or> HasUnavailableEvidence snap),
               docSnapshotID = snapshotID,
               docReasons = map (explain_reason re t snap f) (decReasons dec),
               docChanges = collectChanges snap,
               docMissingEvidence = collectMissingEvidence snap,
               docNextCommand = SanitizeText re nextCmd\<rparr>)"

section \<open>The terminal rendering\<close>

definition nl :: string where "nl = [CHR 0x0A]"

definition Format_RFC3339 :: "gotime \<Rightarrow> string" where
  "Format_RFC3339 t = Format_RFC3339Nano (t - t mod Second)"

text \<open>The default case of \<^verbatim>\<open>humanVerdict\<close> upper-cases the text, byte by byte for ASCII.\<close>

definition humanVerdict :: "string \<Rightarrow> string" where
  "humanVerdict v =
     (if v = kind_string Allow then ''ALLOWED''
      else if v = kind_string Warn then ''WARNING''
      else if v = kind_string ApprovalRequired then ''APPROVAL REQUIRED''
      else if v = kind_string Block then ''BLOCKED''
      else map upper_byte v)"

definition degraded_notice :: string where
  "degraded_notice = ''DEGRADED DECISION: live evidence unavailable; evaluation completed with fallback policy.''"

definition render_freshness :: "EvidenceRecord \<Rightarrow> string" where
  "render_freshness ev =
     erFreshness ev @
     (if erRetrievedAt ev = 0 then []
      else '' (retrieved '' @ Format_RFC3339 (erRetrievedAt ev) @
           (if erFreshUntil ev = 0 then [] else '', fresh until '' @ Format_RFC3339 (erFreshUntil ev)) @ '')'')"

definition render_evidence :: "EvidenceRecord \<Rightarrow> string" where
  "render_evidence ev =
     ''    - Kind:       '' @ erKind ev @ nl @
     ''      Source:     '' @ erSource ev @ nl @
     ''      Observed:   '' @ erObservedValue ev @ nl @
     ''      Confidence: '' @ erConfidence ev @ nl @
     ''      Freshness:  '' @ render_freshness ev @ nl"

definition render_reason :: "ReasonExplanation \<Rightarrow> string" where
  "render_reason r =
     ''  Rule:    '' @ reRuleID r @ nl @
     ''  Summary: '' @ reSummary r @ nl @
     ''  Evidence:'' @ nl @
     (if reEvidence r = [] then ''    none recorded'' @ nl else concat (map render_evidence (reEvidence r)))"

definition render_missing :: "MissingEvidence \<Rightarrow> string" where
  "render_missing m =
     ''  - Kind:   '' @ miKind m @ nl @ ''    Source: '' @ miSource m @ nl @ ''    Reason: '' @ miReason m @ nl"

definition section_title :: "string \<Rightarrow> string" where
  "section_title v =
     (if v = kind_string Allow then ''POLICY EVALUATION:''
      else if v = kind_string Warn then ''WARNING EVIDENCE:'' else ''HOLD EVIDENCE:'')"

definition hasOSV :: "DecisionDocument \<Rightarrow> bool" where
  "hasOSV doc = list_ex (\<lambda>r. list_ex (\<lambda>ev. EqualFold (erSource ev) ''osv'') (reEvidence r)) (docReasons doc)"

definition RenderHuman :: "DecisionDocument \<Rightarrow> string" where
  "RenderHuman doc =
     (if docDegraded doc then degraded_notice @ nl @ nl else []) @
     ''InstallGate Decision: '' @ humanVerdict (docVerdict doc) @ nl @
     ''Decision ID: '' @ docDecisionID doc @ nl @
     ''Package:     '' @ docPackage doc @ ''@'' @ docVersion doc @ nl @
     ''Snapshot:    '' @ docSnapshotID doc @ nl @ nl @
     section_title (docVerdict doc) @ nl @
     (if docReasons doc = [] then ''  none recorded'' @ nl @ nl
      else concat (map render_reason (docReasons doc)) @ nl) @
     ''MISSING EVIDENCE:'' @ nl @
     (if docMissingEvidence doc = [] then ''  none (complete evaluation)'' @ nl @ nl
      else concat (map render_missing (docMissingEvidence doc)) @ nl) @
     ''CHANGES DETECTED:'' @ nl @
     (if docChanges doc = [] then ''  none (no unexpected changes observed)'' @ nl @ nl
      else concat (map (\<lambda>ch. ''  - '' @ chKind ch @ '': '' @ chSummary ch @ nl) (docChanges doc)) @ nl) @
     ''NEXT COMMAND:'' @ nl @
     (if docNextCommand doc \<noteq> [] then ''  '' @ docNextCommand doc @ nl
      else ''  installgate explain '' @ docDecisionID doc @ nl) @
     (if hasOSV doc then nl @ ''NOTE: Advisory evidence sourced from OSV (GitHub Advisory Database).'' @ nl else [])"

section \<open>Missing evidence\<close>

lemma missing_less_key: "missing_less a b \<longleftrightarrow> [miKind a, miSource a] < [miKind b, miSource b]"
  by (auto simp: missing_less_def)

text \<open>The entries that one pass over a list of candidate pairs leaves.\<close>

lemma add_missing_mono: "m \<in> set ms \<Longrightarrow> m \<in> set (add_missing k s ms)"
  by (simp add: add_missing_def)

lemma add_missing_cases: "m \<in> set (add_missing k s ms) \<Longrightarrow> m \<in> set ms \<or> m = failed_provider k s"
  by (auto simp: add_missing_def split: if_splits)

lemma add_missing_key: "\<exists>m \<in> set (add_missing k s ms). missing_key m = k @ '':'' @ s"
proof (cases "list_ex (\<lambda>m. missing_key m = k @ '':'' @ s) ms")
  case True
  then show ?thesis by (simp add: add_missing_def list_ex_iff)
next
  case False
  then show ?thesis by (simp add: add_missing_def missing_key_def failed_provider_def)
qed

lemma fold_missing_observation_mono: "m \<in> set ms \<Longrightarrow> m \<in> set (fold missing_from_observation obs ms)"
  by (induction obs arbitrary: ms) (simp_all add: missing_from_observation_def add_missing_mono)

lemma fold_missing_state_mono: "m \<in> set ms \<Longrightarrow> m \<in> set (fold (missing_from_state snap) sts ms)"
  by (induction sts arbitrary: ms) (simp_all add: missing_from_state_def add_missing_mono)

lemma fold_missing_observation_complete:
  assumes "ob \<in> set obs" "sigObservation ob = ''unavailable''"
  shows "\<exists>m \<in> set (fold missing_from_observation obs ms). \<exists>s. missing_key m = sigKind ob @ '':'' @ s"
  using assms(1)
proof (induction obs arbitrary: ms)
  case (Cons ob' obs)
  show ?case
  proof (cases "ob' = ob")
    case True
    have e: "missing_from_observation ob ms = add_missing (sigKind ob) (if sigSource ob = [] then ''provider'' else sigSource ob) ms"
      using assms(2) by (simp add: missing_from_observation_def)
    obtain m where m: "m \<in> set (missing_from_observation ob ms)" "\<exists>s. missing_key m = sigKind ob @ '':'' @ s"
      unfolding e using add_missing_key by blast
    from fold_missing_observation_mono [OF m(1)] show ?thesis using True m(2) by auto
  next
    case False
    then show ?thesis using Cons.IH [of "missing_from_observation ob' ms"] Cons.prems by simp
  qed
qed simp

lemma fold_missing_state_complete:
  assumes "(k, StateUnavailable) \<in> set sts"
  shows "\<exists>m \<in> set (fold (missing_from_state snap) sts ms). \<exists>s. missing_key m = k @ '':'' @ s"
  using assms
proof (induction sts arbitrary: ms)
  case (Cons st sts)
  show ?case
  proof (cases "st = (k, StateUnavailable)")
    case True
    define src where "src = (case Snapshot_Observation snap k of
        Some obs \<Rightarrow> if sigSource obs \<noteq> [] then sigSource obs else ''provider'' | None \<Rightarrow> ''provider'')"
    have e: "missing_from_state snap st ms = add_missing k src ms"
      using True by (simp add: missing_from_state_def src_def)
    obtain m where m: "m \<in> set (missing_from_state snap st ms)" "\<exists>s. missing_key m = k @ '':'' @ s"
      unfolding e using add_missing_key by blast
    from fold_missing_state_mono [OF m(1)] show ?thesis using m(2) by auto
  next
    case False
    then show ?thesis using Cons.IH [of "missing_from_state snap st ms"] Cons.prems by simp
  qed
qed simp

lemma fold_missing_observation_sound:
  "m \<in> set (fold missing_from_observation obs ms) \<Longrightarrow>
   m \<in> set ms \<or> (\<exists>ob \<in> set obs. sigObservation ob = ''unavailable'' \<and> miKind m = sigKind ob)"
proof (induction obs arbitrary: ms)
  case (Cons ob obs)
  have "m \<in> set ms \<or> (sigObservation ob = ''unavailable'' \<and> miKind m = sigKind ob)"
    if "m \<in> set (missing_from_observation ob ms)"
  proof (cases "sigObservation ob = ''unavailable''")
    case True
    then have "m \<in> set (add_missing (sigKind ob) (if sigSource ob = [] then ''provider'' else sigSource ob) ms)"
      using that by (simp add: missing_from_observation_def)
    from add_missing_cases [OF this] show ?thesis using True by (auto simp: failed_provider_def)
  next
    case False
    then show ?thesis using that by (simp add: missing_from_observation_def)
  qed
  then show ?case using Cons.IH [of "missing_from_observation ob ms"] Cons.prems by auto
qed simp

lemma fold_missing_state_sound:
  "m \<in> set (fold (missing_from_state snap) sts ms) \<Longrightarrow> m \<in> set ms \<or> (miKind m, StateUnavailable) \<in> set sts"
proof (induction sts arbitrary: ms)
  case (Cons st sts)
  have "m \<in> set ms \<or> st = (miKind m, StateUnavailable)" if "m \<in> set (missing_from_state snap st ms)"
  proof (cases "snd st = StateUnavailable")
    case True
    define src where "src = (case Snapshot_Observation snap (fst st) of
        Some obs \<Rightarrow> if sigSource obs \<noteq> [] then sigSource obs else ''provider'' | None \<Rightarrow> ''provider'')"
    have "m \<in> set (add_missing (fst st) src ms)"
      using that True by (simp add: missing_from_state_def src_def)
    from add_missing_cases [OF this] show ?thesis using True by (cases st) (auto simp: failed_provider_def)
  next
    case False
    then show ?thesis using that by (simp add: missing_from_state_def)
  qed
  then show ?case using Cons.IH [of "missing_from_state snap st ms"] Cons.prems by auto
qed simp

lemma key_kind_unique:
  "CHR '':'' \<notin> set a \<Longrightarrow> CHR '':'' \<notin> set b \<Longrightarrow> a @ '':'' @ s = b @ '':'' @ t \<Longrightarrow> a = b"
proof -
  assume a: "CHR '':'' \<notin> set a" "CHR '':'' \<notin> set b" "a @ '':'' @ s = b @ '':'' @ t"
  then have "IndexByte CHR '':'' (a @ '':'' @ s) = Some (length a)" "IndexByte CHR '':'' (b @ '':'' @ t) = Some (length b)"
    using IndexByte_append [of "CHR '':''" a s] IndexByte_append [of "CHR '':''" b t] by simp_all
  then have "length a = length b" using a(3) by simp
  then show ?thesis using a(3) by simp
qed

text \<open>The kinds that have unavailable evidence in a snapshot.\<close>

definition unavailable_kinds :: "Snapshot \<Rightarrow> string set" where
  "unavailable_kinds snap =
     {k. (k, StateUnavailable) \<in> set (snapProviderStates snap)} \<union>
     {sigKind ob | ob. ob \<in> set (snapObservations snap) \<and> sigObservation ob = ''unavailable''}"

lemma HasUnavailableEvidence_kinds: "HasUnavailableEvidence snap \<longleftrightarrow> unavailable_kinds snap \<noteq> {}"
  by (auto simp: HasUnavailableEvidence_def unavailable_kinds_def list_ex_iff)

lemma missing_kinds_sound: "miKind ` set (collectMissingEvidence snap) \<subseteq> unavailable_kinds snap"
proof
  fix k assume "k \<in> miKind ` set (collectMissingEvidence snap)"
  then obtain m where m: "k = miKind m"
      "m \<in> set (fold (missing_from_state snap) (snapProviderStates snap) (fold missing_from_observation (snapObservations snap) []))"
    by (auto simp: collectMissingEvidence_def)
  from fold_missing_state_sound [OF m(2)] show "k \<in> unavailable_kinds snap"
  proof
    assume "m \<in> set (fold missing_from_observation (snapObservations snap) [])"
    from fold_missing_observation_sound [OF this] show ?thesis using m(1) by (auto simp: unavailable_kinds_def)
  next
    assume "(miKind m, StateUnavailable) \<in> set (snapProviderStates snap)"
    then show ?thesis using m(1) by (simp add: unavailable_kinds_def)
  qed
qed

lemma missing_kinds_complete:
  assumes "\<forall>k \<in> unavailable_kinds snap. CHR '':'' \<notin> set k"
  shows "unavailable_kinds snap \<subseteq> miKind ` set (collectMissingEvidence snap)"
proof
  fix k assume k: "k \<in> unavailable_kinds snap"
  let ?obs = "fold missing_from_observation (snapObservations snap) []"
  have "\<exists>m \<in> set (collectMissingEvidence snap). \<exists>s. missing_key m = k @ '':'' @ s"
  proof (cases "(k, StateUnavailable) \<in> set (snapProviderStates snap)")
    case True
    from fold_missing_state_complete [OF this, of snap ?obs] show ?thesis by (simp add: collectMissingEvidence_def)
  next
    case False
    then obtain ob where "ob \<in> set (snapObservations snap)" "sigObservation ob = ''unavailable''" "k = sigKind ob"
      using k by (auto simp: unavailable_kinds_def)
    then obtain m where m: "m \<in> set ?obs" "\<exists>s. missing_key m = k @ '':'' @ s"
      using fold_missing_observation_complete by blast
    have "m \<in> set (collectMissingEvidence snap)"
      unfolding collectMissingEvidence_def using fold_missing_state_mono [OF m(1)] by simp
    then show ?thesis using m(2) by blast
  qed
  then obtain m s where m: "m \<in> set (collectMissingEvidence snap)" "miKind m @ '':'' @ miSource m = k @ '':'' @ s"
    by (auto simp: missing_key_def)
  moreover have "miKind m \<in> unavailable_kinds snap" using m(1) missing_kinds_sound by blast
  ultimately have "miKind m = k" using assms k key_kind_unique by blast
  then show "k \<in> miKind ` set (collectMissingEvidence snap)" using m(1) by blast
qed

section \<open>Reasons\<close>

lemma flag_step_fold:
  "hasMaliciousRecord (fold flag_step obs f) \<longleftrightarrow> hasMaliciousRecord f \<or> (\<exists>ob \<in> set obs. malicious_record ob)"
  "hasIntegrityMismatch (fold flag_step obs f) \<longleftrightarrow> hasIntegrityMismatch f \<or> (\<exists>ob \<in> set obs. mismatch_record ob)"
  by (induction obs arbitrary: f) (auto simp: flag_step_def)

lemma doc_flags_of_records:
  "hasMaliciousRecord (doc_flags_of obs) \<longleftrightarrow> (\<exists>ob \<in> set obs. malicious_record ob)"
  "hasIntegrityMismatch (doc_flags_of obs) \<longleftrightarrow> (\<exists>ob \<in> set obs. mismatch_record ob)"
  by (simp_all add: doc_flags_of_def flag_step_fold)

text \<open>The document reads the same records as the policy does.\<close>

lemma record_signals: "malicious_record = malicious_signal" "mismatch_record = integrity_signal"
  by (auto simp: fun_eq_iff malicious_record_def malicious_signal_def mismatch_record_def integrity_signal_def kind_defs)

lemma decReasons_decision [simp]:
  "decReasons (decision v i sm d ks) = [\<lparr>reasonRuleID = i, reasonSummary = sm, reasonSignalKinds = ks\<rparr>]"
  by (simp add: decision_def)

lemma Evaluate_core_rule:
  assumes "r \<in> set (decReasons (Evaluate profile a))" "reasonRuleID r = ''core.integrity-or-malicious''"
  shows "IntegrityMismatch a \<or> KnownMalicious a"
proof (rule ccontr)
  assume "\<not> ?thesis"
  then have n: "\<not> (IntegrityMismatch a \<or> KnownMalicious a)" by simp
  have "\<forall>r \<in> set (decReasons (Evaluate profile a)). reasonRuleID r \<noteq> ''core.integrity-or-malicious''"
    unfolding Evaluate_def Let_def if_not_P [OF n]
    by (simp add: if_distrib [of decReasons] if_distrib [of set] cong del: if_weak_cong)
  then show False using assms by blast
qed

lemma Evaluate_one_reason: "\<exists>r. decReasons (Evaluate profile a) = [r]"
  unfolding Evaluate_def Let_def by (simp add: if_distrib [of decReasons] cong del: if_weak_cong)

lemma NewDecisionDocument_Inr:
  assumes "NewDecisionDocument re sha now pkg version dec snap cfg = Inr doc"
  shows "docVerdict doc = kind_string (decVerdict dec)" "docDegraded doc \<longleftrightarrow> decDegraded dec \<or> HasUnavailableEvidence snap"
    "docReasons doc = map (explain_reason re (reference_time cfg snap now) snap (doc_flags_of (snapObservations snap))) (decReasons dec)"
    "docMissingEvidence doc = collectMissingEvidence snap" "docPackage doc = SanitizeText re pkg"
    "docVersion doc = SanitizeText re version" "ValidateCoordinates pkg version = None" "docChanges doc = collectChanges snap"
    "docDecisionID doc = (if customID cfg = [] then ComputeDecisionID sha pkg version
       (if snapID snap = [] then ''sha256:empty'' else snapID snap) (kind_string (decVerdict dec)) else customID cfg)"
  using assms by (auto simp: NewDecisionDocument_def Let_def split: option.splits)

section \<open>Properties\<close>

text \<open>
  Missing evidence is listed exactly and announced. The kinds a document lists as missing are
  precisely those the snapshot has unavailable evidence for, by a provider state or by an
  observation, and when there is one the document is degraded and its terminal rendering opens
  with the notice of degradation. Kinds contain no colon, as all of the program's.
\<close>

lemma missing_evidence_exact:
  assumes "NewDecisionDocument re sha now pkg version dec snap cfg = Inr doc"
    and "\<forall>k \<in> unavailable_kinds snap. CHR '':'' \<notin> set k"
  shows "miKind ` set (docMissingEvidence doc) = unavailable_kinds snap \<and>
         (unavailable_kinds snap \<noteq> {} \<longrightarrow> docDegraded doc \<and> HasPrefix (RenderHuman doc) (degraded_notice @ nl))"
proof -
  note d = NewDecisionDocument_Inr [OF assms(1)]
  have "miKind ` set (docMissingEvidence doc) = unavailable_kinds snap"
    unfolding d(4) using missing_kinds_sound missing_kinds_complete [OF assms(2)] by blast
  moreover have "docDegraded doc \<and> HasPrefix (RenderHuman doc) (degraded_notice @ nl)" if "unavailable_kinds snap \<noteq> {}"
  proof -
    have "docDegraded doc" using that d(2) by (simp add: HasUnavailableEvidence_kinds)
    then show ?thesis by (simp add: RenderHuman_def HasPrefix_iff)
  qed
  ultimately show ?thesis by blast
qed

definition outage_snapshot :: Snapshot where
  "outage_snapshot = (sample_snapshot [sample_signal ''malicious'' ''unavailable'' 9])
     \<lparr>snapProviderStates := [(''vulnerability'', StateUnavailable), (''reputation'', StateAvailable)]\<rparr>"

text \<open>
  A blocked package is called malicious only on a malicious record. When the policy blocks on
  the rule shared by integrity failures and malicious records, the snapshot has one of the two, and
  the summary in the document says which: without a malicious record it is the checksum text.
\<close>

lemma malicious_only_on_record:
  assumes "NewDecisionDocument re sha now pkg version (Policy_EvaluateSnapshot p snap) snap cfg = Inr doc"
    and "r \<in> set (docReasons doc)" "reRuleID r = ''core.integrity-or-malicious''"
  shows "(\<exists>ob \<in> set (snapObservations snap). malicious_record ob \<or> mismatch_record ob) \<and>
         reSummary r = SanitizeText re
           (if \<exists>ob \<in> set (snapObservations snap). malicious_record ob
            then (if \<exists>ob \<in> set (snapObservations snap). mismatch_record ob
                  then ''package integrity verification failed and known malicious package record found''
                  else ''known malicious package record found in advisory database'')
            else ''package integrity verification failed (checksum mismatch)'')"
proof -
  let ?f = "doc_flags_of (snapObservations snap)"
  obtain q where q: "q \<in> set (decReasons (Policy_EvaluateSnapshot p snap))"
      "r = explain_reason re (reference_time cfg snap now) snap ?f q"
    using assms(2) unfolding NewDecisionDocument_Inr(3) [OF assms(1)] by auto
  then have rule: "reasonRuleID q = ''core.integrity-or-malicious''" using assms(3) by (simp add: explain_reason_def)
  then have "IntegrityMismatch (Policy_Assess p snap) \<or> KnownMalicious (Policy_Assess p snap)"
    using q(1) Evaluate_core_rule unfolding Policy_EvaluateSnapshot_def by blast
  then have some: "(\<exists>ob \<in> set (snapObservations snap). malicious_record ob) \<or> (\<exists>ob \<in> set (snapObservations snap). mismatch_record ob)"
    by (auto simp: Policy_Assess_def Assess_flags record_signals)
  have "reSummary r = SanitizeText re (reason_summary ?f q)" by (simp add: q(2) explain_reason_def)
  moreover have "reason_summary ?f q =
      (if \<exists>ob \<in> set (snapObservations snap). malicious_record ob
       then (if \<exists>ob \<in> set (snapObservations snap). mismatch_record ob
             then ''package integrity verification failed and known malicious package record found''
             else ''known malicious package record found in advisory database'')
       else ''package integrity verification failed (checksum mismatch)'')"
    using some by (simp only: reason_summary_def rule doc_flags_of_records if_True HOL.simp_thms if_False) auto
  ultimately have "reSummary r = SanitizeText re
      (if \<exists>ob \<in> set (snapObservations snap). malicious_record ob
       then (if \<exists>ob \<in> set (snapObservations snap). mismatch_record ob
             then ''package integrity verification failed and known malicious package record found''
             else ''known malicious package record found in advisory database'')
       else ''package integrity verification failed (checksum mismatch)'')" by (simp only:)
  with some show ?thesis by blast
qed

definition mismatch_snapshot :: Snapshot where
  "mismatch_snapshot = sample_snapshot [sample_signal ''integrity'' ''mismatch'' 9]"

end
