(* ===== verification/Decision_Store.thy ===== *)
theory Decision_Store
  imports Explanation Gopath
begin

text \<open>
  Stores of decision documents: \<^verbatim>\<open>src/internal/explanation/store.go\<close> and the codec calls of
  \<^verbatim>\<open>render_json.go\<close>. The JSON encoder and decoder are the parameters \<open>render\<close> and \<open>parse\<close>;
  a failing encoder or decoder is \<^term>\<open>None\<close>. The Go interface \<^verbatim>\<open>DecisionStore\<close> is the locale
  \<open>decision_store\<close>: a store is a refinement of a finite map from identifiers to documents.
  A directory of the file store is an association list from file names to contents, and \<open>io\<close>
  says which file-system calls succeed. A failed write leaves at most a temporary file behind,
  whose name ends in \<^verbatim>\<open>.tmp\<close>; such files are not part of the model.
\<close>

datatype doc_error =
  ErrNoDecisionID | ErrInvalidDecisionID string | ErrRender | ErrParse | ErrDecisionNotFound
| ErrDecisionIO | ErrTargetRequired | ErrNoStore | ErrNamedNotFound string

type_synonym renderer = "DecisionDocument \<Rightarrow> string option"
type_synonym parser = "string \<Rightarrow> DecisionDocument option"

definition RenderJSON :: "renderer \<Rightarrow> DecisionDocument \<Rightarrow> doc_error + string" where
  "RenderJSON render doc = (case render doc of None \<Rightarrow> Inl ErrRender | Some b \<Rightarrow> Inr b)"

text \<open>The encoder at a prefix and an indentation, two blanks and no prefix in \<open>RenderJSON\<close>.\<close>

definition RenderJSONIndent :: "(string \<Rightarrow> string \<Rightarrow> renderer) \<Rightarrow> string \<Rightarrow> string \<Rightarrow> DecisionDocument \<Rightarrow> doc_error + string" where
  "RenderJSONIndent encode pre indent doc = (case encode pre indent doc of None \<Rightarrow> Inl ErrRender | Some b \<Rightarrow> Inr b)"

definition ParseJSON :: "parser \<Rightarrow> string \<Rightarrow> doc_error + DecisionDocument" where
  "ParseJSON parse b = (case parse b of None \<Rightarrow> Inl ErrParse | Some d \<Rightarrow> Inr d)"

section \<open>The in-memory store\<close>

type_synonym MemoryStore = "(string \<times> DecisionDocument) list"

definition NewMemoryStore :: MemoryStore where "NewMemoryStore = []"

definition MemoryStore_Save :: "renderer \<Rightarrow> parser \<Rightarrow> DecisionDocument \<Rightarrow> MemoryStore \<Rightarrow> doc_error option \<times> MemoryStore" where
  "MemoryStore_Save render parse doc m =
     (if docDecisionID doc = [] then (Some ErrNoDecisionID, m)
      else case RenderJSON render doc of
        Inl e \<Rightarrow> (Some e, m)
      | Inr b \<Rightarrow> (case ParseJSON parse b of
            Inl e \<Rightarrow> (Some e, m)
          | Inr cloned \<Rightarrow> (None, AList.update (docDecisionID doc) cloned m)))"

definition MemoryStore_Get :: "renderer \<Rightarrow> parser \<Rightarrow> string \<Rightarrow> MemoryStore \<Rightarrow> doc_error + DecisionDocument" where
  "MemoryStore_Get render parse decisionID m =
     (case map_of m decisionID of
        None \<Rightarrow> Inl ErrDecisionNotFound
      | Some doc \<Rightarrow> (case RenderJSON render doc of Inl e \<Rightarrow> Inl e | Inr b \<Rightarrow> ParseJSON parse b))"

section \<open>The file store\<close>

datatype file_step = FileCreateTemp | FileWrite | FileSync | FileClose | FileChmod | FileRename | FileRead

type_synonym FileStore = "(string \<times> string) list"

text \<open>The expression \<^verbatim>\<open>[a-zA-Z0-9_-]+\<close>, anchored at both ends.\<close>

definition id_char :: "char \<Rightarrow> bool" where
  "id_char c = ((97 \<le> byte c \<and> byte c \<le> 122) \<or> (65 \<le> byte c \<and> byte c \<le> 90) \<or> (48 \<le> byte c \<and> byte c \<le> 57)
     \<or> c = CHR ''_'' \<or> c = CHR ''-'')"

definition validDecisionIDRegex :: "string \<Rightarrow> bool" where
  "validDecisionIDRegex s = (s \<noteq> [] \<and> list_all id_char s)"

definition decision_file :: "string \<Rightarrow> string" where
  "decision_file decisionID = decisionID @ ''.json''"

definition NewFileStore :: "(string \<Rightarrow> bool) \<Rightarrow> (string \<Rightarrow> FileStore) \<Rightarrow> string \<Rightarrow> doc_error + FileStore" where
  "NewFileStore mkdir files dir =
     (if dir = [] then Inl ErrTargetRequired else if \<not> mkdir dir then Inl ErrDecisionIO else Inr (files dir))"

definition FileStore_Save :: "renderer \<Rightarrow> (file_step \<Rightarrow> bool) \<Rightarrow> DecisionDocument \<Rightarrow> FileStore \<Rightarrow> doc_error option \<times> FileStore" where
  "FileStore_Save render io doc fs =
     (if docDecisionID doc = [] then (Some ErrNoDecisionID, fs)
      else if \<not> validDecisionIDRegex (docDecisionID doc) then (Some (ErrInvalidDecisionID (docDecisionID doc)), fs)
      else case RenderJSON render doc of
        Inl e \<Rightarrow> (Some e, fs)
      | Inr b \<Rightarrow>
          if \<not> (io FileCreateTemp \<and> io FileWrite \<and> io FileSync \<and> io FileClose \<and> io FileChmod \<and> io FileRename)
          then (Some ErrDecisionIO, fs)
          else (None, AList.update (decision_file (docDecisionID doc)) b fs))"

definition FileStore_Get :: "parser \<Rightarrow> string \<Rightarrow> FileStore \<Rightarrow> doc_error + DecisionDocument" where
  "FileStore_Get parse decisionID fs =
     (if \<not> validDecisionIDRegex decisionID then Inl (ErrInvalidDecisionID decisionID)
      else case map_of fs (decision_file decisionID) of
        None \<Rightarrow> Inl ErrDecisionNotFound
      | Some b \<Rightarrow> ParseJSON parse b)"

definition DefaultDecisionDir :: "string \<Rightarrow> string option \<Rightarrow> string" where
  "DefaultDecisionDir dataDirEnv home =
     (if dataDirEnv \<noteq> [] then path_Join [dataDirEnv, ''decisions'']
      else case home of
        Some h \<Rightarrow> if h \<noteq> [] then path_Join [h, ''.installgate'', ''decisions''] else path_Join [''.installgate'', ''decisions'']
      | None \<Rightarrow> path_Join [''.installgate'', ''decisions''])"

section \<open>Resolving a decision\<close>

text \<open>\<open>regular\<close> says which paths are existing files that are not directories and \<open>read\<close> gives
  their contents, \<^term>\<open>None\<close> when reading fails. A missing store is \<^term>\<open>None\<close>.\<close>

definition Resolve ::
  "parser \<Rightarrow> (string \<Rightarrow> bool) \<Rightarrow> (string \<Rightarrow> string option) \<Rightarrow> string \<Rightarrow> (string \<Rightarrow> doc_error + DecisionDocument) option \<Rightarrow>
   doc_error + DecisionDocument" where
  "Resolve parse regular read target store =
     (if target = [] then Inl ErrTargetRequired
      else if regular target then
        (case read target of None \<Rightarrow> Inl ErrDecisionIO | Some b \<Rightarrow> ParseJSON parse b)
      else case store of
        None \<Rightarrow> Inl ErrNoStore
      | Some get \<Rightarrow> (case get target of
            Inl e \<Rightarrow> if e = ErrDecisionNotFound then Inl (ErrNamedNotFound target) else Inl e
          | Inr doc \<Rightarrow> Inr doc))"

section \<open>The store interface\<close>

text \<open>
  A document survives the codec when its encoding decodes to it. For such documents a store is a
  map: a successful save sets the document under its identifier and nothing else, a failed one
  changes nothing, and a lookup reads the map.
\<close>

definition codec_exact :: "renderer \<Rightarrow> parser \<Rightarrow> DecisionDocument \<Rightarrow> bool" where
  "codec_exact render parse d = (\<forall>b. render d = Some b \<longrightarrow> parse b = Some d)"

fun run_saves :: "('d \<Rightarrow> 's \<Rightarrow> 'e option \<times> 's) \<Rightarrow> 'd list \<Rightarrow> 's \<Rightarrow> 's" where
  "run_saves save [] s = s"
| "run_saves save (d # ds) s = run_saves save ds (snd (save d s))"

fun accepted_saves :: "('d \<Rightarrow> 's \<Rightarrow> 'e option \<times> 's) \<Rightarrow> 'd list \<Rightarrow> 's \<Rightarrow> 'd list" where
  "accepted_saves save [] s = []"
| "accepted_saves save (d # ds) s = (if fst (save d s) = None then [d] else []) @ accepted_saves save ds (snd (save d s))"

locale decision_store =
  fixes save :: "DecisionDocument \<Rightarrow> 's \<Rightarrow> 'e option \<times> 's"
    and get :: "string \<Rightarrow> 's \<Rightarrow> 'f + DecisionDocument"
    and docs :: "'s \<Rightarrow> string \<Rightarrow> DecisionDocument option"
    and exact :: "DecisionDocument \<Rightarrow> bool"
  assumes save_sets: "exact d \<Longrightarrow> save d s = (None, s') \<Longrightarrow> docs s' = (docs s)(docDecisionID d \<mapsto> d)"
    and save_failed: "save d s = (Some e, s') \<Longrightarrow> docs s' = docs s"
    and get_reads: "get i s = Inr d \<longleftrightarrow> docs s i = Some d"
begin

lemma get_save_same: "exact d \<Longrightarrow> save d s = (None, s') \<Longrightarrow> get (docDecisionID d) s' = Inr d"
  by (simp add: get_reads save_sets)

lemma get_save_other:
  "exact d \<Longrightarrow> save d s = (r, s') \<Longrightarrow> i \<noteq> docDecisionID d \<Longrightarrow> get i s' = Inr e \<longleftrightarrow> get i s = Inr e"
  by (cases r) (auto simp: get_reads save_sets save_failed)

text \<open>A sequence of saves is a sequence of map updates, the failed ones skipped.\<close>

lemma docs_run_saves:
  "\<forall>d \<in> set ds. exact d \<Longrightarrow>
   docs (run_saves save ds s) = fold (\<lambda>d m. m(docDecisionID d \<mapsto> d)) (accepted_saves save ds s) (docs s)"
proof (induction ds arbitrary: s)
  case (Cons d ds)
  obtain r s' where r: "save d s = (r, s')" by (cases "save d s")
  then have "docs s' = (if r = None then (docs s)(docDecisionID d \<mapsto> d) else docs s)"
    using save_sets [of d s s'] save_failed [of d s _ s'] Cons.prems by (cases r) auto
  then show ?case using Cons r by (auto simp: fun_upd_def split: if_splits)
qed simp

lemma get_run_saves_other:
  "\<forall>d \<in> set ds. exact d \<and> docDecisionID d \<noteq> i \<Longrightarrow> get i (run_saves save ds s) = Inr e \<longleftrightarrow> get i s = Inr e"
proof (induction ds arbitrary: s)
  case (Cons d ds)
  obtain r s' where r: "save d s = (r, s')" by (cases "save d s")
  then have "get i s' = Inr e \<longleftrightarrow> get i s = Inr e" using get_save_other [of d s r s' i e] Cons.prems by auto
  then show ?case using Cons r by simp
qed simp

end

definition memory_docs :: "renderer \<Rightarrow> parser \<Rightarrow> MemoryStore \<Rightarrow> string \<Rightarrow> DecisionDocument option" where
  "memory_docs render parse m i =
     (case map_of m i of None \<Rightarrow> None | Some d \<Rightarrow> (case render d of None \<Rightarrow> None | Some b \<Rightarrow> parse b))"

definition file_docs :: "parser \<Rightarrow> FileStore \<Rightarrow> string \<Rightarrow> DecisionDocument option" where
  "file_docs parse fs i =
     (if validDecisionIDRegex i then (case map_of fs (decision_file i) of None \<Rightarrow> None | Some b \<Rightarrow> parse b) else None)"

lemma decision_file_eq [simp]: "decision_file i = decision_file j \<longleftrightarrow> i = j"
  by (simp add: decision_file_def)

interpretation mem_store: decision_store "MemoryStore_Save render parse" "MemoryStore_Get render parse"
  "memory_docs render parse" "codec_exact render parse"
proof unfold_locales
  fix d s s' assume "codec_exact render parse d" "MemoryStore_Save render parse d s = (None, s')"
  then show "memory_docs render parse s' = (memory_docs render parse s)(docDecisionID d \<mapsto> d)"
    by (auto simp: MemoryStore_Save_def RenderJSON_def ParseJSON_def codec_exact_def memory_docs_def fun_eq_iff
        split: if_splits option.splits)
next
  fix d s s' e assume "MemoryStore_Save render parse d s = (Some e, s')"
  then show "memory_docs render parse s' = memory_docs render parse s"
    by (auto simp: MemoryStore_Save_def RenderJSON_def ParseJSON_def split: if_splits option.splits sum.splits)
next
  fix i s d
  show "MemoryStore_Get render parse i s = Inr d \<longleftrightarrow> memory_docs render parse s i = Some d"
    by (auto simp: MemoryStore_Get_def RenderJSON_def ParseJSON_def memory_docs_def split: option.splits)
qed

interpretation dir_store: decision_store "FileStore_Save render io" "FileStore_Get parse" "file_docs parse" "codec_exact render parse"
proof unfold_locales
  fix d s s' assume a: "codec_exact render parse d" "FileStore_Save render io d s = (None, s')"
  then obtain b where b: "validDecisionIDRegex (docDecisionID d)" "render d = Some b"
      "s' = AList.update (decision_file (docDecisionID d)) b s"
    by (auto simp: FileStore_Save_def RenderJSON_def split: if_splits option.splits)
  then show "file_docs parse s' = (file_docs parse s)(docDecisionID d \<mapsto> d)"
    using a(1) by (auto simp: file_docs_def codec_exact_def fun_eq_iff)
next
  fix d s s' e assume "FileStore_Save render io d s = (Some e, s')"
  then show "file_docs parse s' = file_docs parse s"
    by (auto simp: FileStore_Save_def RenderJSON_def split: if_splits option.splits)
next
  fix i s d
  show "FileStore_Get parse i s = Inr d \<longleftrightarrow> file_docs parse s i = Some d"
    by (auto simp: FileStore_Get_def ParseJSON_def file_docs_def split: option.splits)
qed

section \<open>Properties\<close>


definition sample_doc :: "string \<Rightarrow> DecisionDocument" where
  "sample_doc i = \<lparr>docSchemaVersion = ''1'', docDecisionID = i, docPackage = ''left-pad'', docVersion = ''1.0.0'',
     docVerdict = ''allow'', docDegraded = False, docSnapshotID = ''s'', docReasons = [], docChanges = [],
     docMissingEvidence = [], docNextCommand = []\<rparr>"

text \<open>A codec that is exact on the sample documents: the identifier stands for the whole.\<close>

definition sample_render :: renderer where "sample_render d = Some (docDecisionID d)"
definition sample_parse :: parser where "sample_parse b = Some (sample_doc b)"

lemma sample_codec: "codec_exact sample_render sample_parse (sample_doc i)"
  by (simp add: codec_exact_def sample_render_def sample_parse_def sample_doc_def)


text \<open>
  A saved decision can be explained later: when the write succeeds, the identifier resolves to
  the document, whatever other decisions are saved afterwards and whichever of those writes fail.
\<close>

lemma saved_decision_resolves:
  assumes "validDecisionIDRegex (docDecisionID d)" "render d = Some b" "codec_exact render parse d"
    and "\<forall>step. io step" "\<not> regular (docDecisionID d)"
    and "\<forall>e \<in> set later. codec_exact render parse e \<and> docDecisionID e \<noteq> docDecisionID d"
  shows "Resolve parse regular read (docDecisionID d)
           (Some (\<lambda>i. FileStore_Get parse i (run_saves (FileStore_Save render io') later (snd (FileStore_Save render io d fs))))) = Inr d"
proof -
  have ne: "docDecisionID d \<noteq> []" using assms(1) by (simp add: validDecisionIDRegex_def)
  then have "FileStore_Save render io d fs = (None, snd (FileStore_Save render io d fs))"
    using assms(1,2,4) by (simp add: FileStore_Save_def RenderJSON_def)
  then have "FileStore_Get parse (docDecisionID d) (snd (FileStore_Save render io d fs)) = Inr d"
    by (rule dir_store.get_save_same [OF assms(3)])
  then have "FileStore_Get parse (docDecisionID d) (run_saves (FileStore_Save render io') later (snd (FileStore_Save render io d fs))) = Inr d"
    using dir_store.get_run_saves_other [OF assms(6)] by blast
  then show ?thesis using ne assms(5) by (simp add: Resolve_def)
qed

end
