(* ===== verification/Store.thy ===== *)
theory Store
  imports Decision_Store Evidence_Cache
begin

text \<open>
  The persistent store: \<^verbatim>\<open>src/internal/store/store.go\<close>, \<^verbatim>\<open>sqlite.go\<close>, \<^verbatim>\<open>sanitize.go\<close>.
  A table is a list of rows and each statement is the relational operation its SQL text denotes;
  \<open>ok\<close> says whether the database executed the statement, and \<open>scan\<close> is the order in which it
  visits the rows of a table, which decides between rows that an \<^verbatim>\<open>ORDER BY\<close> does not separate.
  Instants are compared as instants. The JSON codecs of columns are the record \<open>store_codec\<close>,
  and the regular expression engine behind the redaction is the parameter \<open>ra\<close>. The handle
  itself (opening, closing, vacuum, backup) is not modelled, and a pointer argument is never nil.
\<close>

section \<open>Redaction\<close>

datatype sensitive_pattern =
  PatAuthToken | PatBearer | PatBasic | PatToken | PatSecret | PatPassword | PatNpm | PatGithubPat
| PatKey | PatAuth | PatGhp | PatSk

definition sensitivePatterns :: "sensitive_pattern list" where
  "sensitivePatterns = [PatAuthToken, PatBearer, PatBasic, PatToken, PatSecret, PatPassword, PatNpm,
     PatGithubPat, PatKey, PatAuth, PatGhp, PatSk]"

text \<open>\<open>ra p f s\<close> replaces every match of the pattern \<open>p\<close> in \<open>s\<close> by the image of \<open>f\<close>.\<close>

type_synonym replace_all = "sensitive_pattern \<Rightarrow> (string \<Rightarrow> string) \<Rightarrow> string \<Rightarrow> string"

definition redact_match :: "string \<Rightarrow> string" where
  "redact_match m =
     (if Contains m '':'' \<or> Contains m ''='' \<or> HasPrefix (ToLower m) ''bearer '' \<or> HasPrefix (ToLower m) ''basic ''
      then (case SplitN2 CHR '' '' m of
              [a, b] \<Rightarrow> a @ '' [REDACTED]''
            | _ \<Rightarrow>
                let sep = (if Contains m '':'' \<and> \<not> Contains m ''='' then CHR '':'' else CHR ''='') in
                (case SplitN2 sep m of [a, b] \<Rightarrow> a @ [sep] @ ''[REDACTED]'' | _ \<Rightarrow> ''[REDACTED]''))
      else ''[REDACTED]'')"

definition RedactSensitiveString :: "replace_all \<Rightarrow> string \<Rightarrow> string" where
  "RedactSensitiveString ra s =
     (if s = [] then s else fold (\<lambda>p result. ra p redact_match result) sensitivePatterns s)"

type_synonym metadata = "(string \<times> string) list"

definition sanitizeMetadata :: "replace_all \<Rightarrow> metadata \<Rightarrow> metadata" where
  "sanitizeMetadata ra m = map (\<lambda>(k, v). (k, RedactSensitiveString ra v)) m"

section \<open>Records and tables\<close>

record Approval =
  appID :: string
  appPackage :: string
  appVersion :: string
  appReason :: string
  appActor :: string
  appCreatedAt :: gotime
  appExpiresAt :: gotime
  appRevokedAt :: "gotime option"

definition IsActive :: "Approval \<Rightarrow> gotime \<Rightarrow> bool" where
  "IsActive a now =
     (if (case appRevokedAt a of Some t \<Rightarrow> \<not> now < t | None \<Rightarrow> False) then False else now < appExpiresAt a)"

record AuditEvent =
  aeID :: int
  aeEventTime :: gotime
  aeEventType :: string
  aePackage :: string
  aeVersion :: string
  aeDecisionID :: string
  aeRuleID :: string
  aeVerdict :: string
  aeActor :: string
  aeMetadata :: "metadata option"
  aeSnapshot :: "Snapshot option"

record ConfigRecord =
  crID :: int
  crAction :: string
  crPhase :: string
  crPayload :: string
  crCreatedAt :: gotime

text \<open>A row of \<^verbatim>\<open>audit_events\<close>: the JSON columns are text, empty when absent.\<close>

record audit_row =
  arID :: int
  arEventTime :: gotime
  arEventType :: string
  arPackage :: string
  arVersion :: string
  arDecisionID :: string
  arRuleID :: string
  arVerdict :: string
  arActor :: string
  arMetadataJSON :: string
  arSnapshotJSON :: string

record decision_row =
  drPackage :: string
  drVersion :: string
  drVerdict :: string
  drReason :: string
  drRuleID :: string
  drDocumentJSON :: string
  drCreatedAt :: gotime

record evidence_row =
  evOutcomeJSON :: string
  evRetrievedAt :: gotime
  evFreshUntil :: gotime
  evStaleUntil :: gotime

record allow_row =
  alDecisionJSON :: string
  alSnapshotID :: string
  alRetrievedAt :: gotime
  alFreshUntil :: gotime
  alStaleUntil :: gotime

record SQLiteStore =
  dbMigrations :: "(int \<times> string \<times> gotime) list"
  dbObjects :: "string list"
  dbApprovals :: "Approval list"
  dbAudit :: "audit_row list"
  dbAuditSeq :: int
  dbDecisions :: "(string \<times> decision_row) list"
  dbConfig :: "ConfigRecord list"
  dbConfigSeq :: int
  dbEvidence :: "((string \<times> string \<times> string) \<times> evidence_row) list"
  dbAllows :: "((string \<times> string) \<times> allow_row) list"

definition emptyDB :: SQLiteStore where
  "emptyDB = \<lparr>dbMigrations = [], dbObjects = [], dbApprovals = [], dbAudit = [], dbAuditSeq = 0, dbDecisions = [],
     dbConfig = [], dbConfigSeq = 0, dbEvidence = [], dbAllows = []\<rparr>"

record store_codec =
  metaEnc :: "metadata \<Rightarrow> string"
  metaDec :: "string \<Rightarrow> metadata option"
  snapEnc :: "snapshotJSON \<Rightarrow> string"
  snapDec :: "string \<Rightarrow> snapshotJSON option"
  decEnc :: "Decision \<Rightarrow> string"
  decDec :: "string \<Rightarrow> Decision option"
  docEnc :: renderer
  docDec :: parser
  sha256 :: "string \<Rightarrow> string"

datatype store_error =
  ErrApprovalField string | ErrNonHumanActor | ErrApprovalNotFound | ErrDB | ErrEventType | ErrAuditNotFound
| ErrDocumentID | ErrDocumentRender | ErrNoDecision | ErrDocumentParse | ErrCorruptCache
| ErrNotDecisionEvent string | ErrNoSnapshot | ErrMarshal | ErrWrite

section \<open>Approvals\<close>

definition isAutomatedActor :: "string \<Rightarrow> bool" where
  "isAutomatedActor actor =
     (let lower = ToLower (TrimSpace actor) in
      lower = [] \<or> HasPrefix lower ''mcp'' \<or> HasPrefix lower ''agent'' \<or> HasPrefix lower ''bot'' \<or>
      HasPrefix lower ''automated'' \<or> Contains lower ''ai'' \<or> Contains lower ''claude'' \<or> Contains lower ''llm'')"

definition matchApprovalVersion :: "string \<Rightarrow> string \<Rightarrow> bool" where
  "matchApprovalVersion pat tgt =
     (let pattern = TrimSpace pat; target = TrimSpace tgt in
      if pattern = [] \<or> pattern = ''*'' then True
      else if pattern = target then True
      else if HasPrefix pattern ''^'' then
        (case Split CHR ''.'' (TrimPrefix pattern ''^'') of
           [] \<Rightarrow> False
         | part # _ \<Rightarrow>
             if part \<noteq> [] then (case Split CHR ''.'' target of [] \<Rightarrow> False | t # _ \<Rightarrow> t = part) else False)
      else False)"

definition CreateApproval :: "bool \<Rightarrow> Approval \<Rightarrow> SQLiteStore \<Rightarrow> store_error option \<times> SQLiteStore" where
  "CreateApproval ok app s =
     (if appID app = [] then (Some (ErrApprovalField ''id''), s)
      else if appPackage app = [] then (Some (ErrApprovalField ''package''), s)
      else if appReason app = [] then (Some (ErrApprovalField ''reason''), s)
      else if appActor app = [] then (Some (ErrApprovalField ''actor''), s)
      else if isAutomatedActor (appActor app) then (Some ErrNonHumanActor, s)
      else if appExpiresAt app = 0 then (Some (ErrApprovalField ''expiry''), s)
      else if \<not> ok \<or> list_ex (\<lambda>a. appID a = appID app) (dbApprovals s) then (Some ErrDB, s)
      else (None, s\<lparr>dbApprovals := dbApprovals s @ [app]\<rparr>))"

definition GetApproval :: "bool \<Rightarrow> string \<Rightarrow> SQLiteStore \<Rightarrow> store_error + Approval" where
  "GetApproval ok i s =
     (if \<not> ok then Inl ErrDB
      else case find (\<lambda>a. appID a = i) (dbApprovals s) of None \<Rightarrow> Inl ErrApprovalNotFound | Some a \<Rightarrow> Inr a)"

type_synonym approval_scan = "Approval list \<Rightarrow> Approval list"

definition newest_first :: "Approval \<Rightarrow> Approval \<Rightarrow> bool" where
  "newest_first a b = (appCreatedAt a > appCreatedAt b)"

definition FindActiveApproval ::
  "approval_scan \<Rightarrow> bool \<Rightarrow> string \<Rightarrow> string \<Rightarrow> gotime \<Rightarrow> SQLiteStore \<Rightarrow> store_error + Approval option" where
  "FindActiveApproval scan ok pkg version now s =
     (if \<not> ok then Inl ErrDB
      else let rows = SortSlice newest_first (filter (\<lambda>a. appPackage a = pkg \<and> appExpiresAt a > now \<and> appRevokedAt a = None)
                        (scan (dbApprovals s)))
           in Inr (find (\<lambda>a. matchApprovalVersion (appVersion a) version) rows))"

definition ListApprovals :: "approval_scan \<Rightarrow> bool \<Rightarrow> bool \<Rightarrow> gotime \<Rightarrow> SQLiteStore \<Rightarrow> store_error + Approval list" where
  "ListApprovals scan ok activeOnly now s =
     (if \<not> ok then Inl ErrDB
      else Inr (SortSlice newest_first
        (if activeOnly then filter (\<lambda>a. appExpiresAt a > now \<and> appRevokedAt a = None) (scan (dbApprovals s))
         else scan (dbApprovals s))))"

definition RevokeApproval :: "bool \<Rightarrow> string \<Rightarrow> gotime \<Rightarrow> SQLiteStore \<Rightarrow> store_error option \<times> SQLiteStore" where
  "RevokeApproval ok i revokedAt s =
     (if \<not> ok then (Some ErrDB, s)
      else let s' = s\<lparr>dbApprovals := map (\<lambda>a. if appID a = i then a\<lparr>appRevokedAt := Some revokedAt\<rparr> else a) (dbApprovals s)\<rparr>
           in if \<not> list_ex (\<lambda>a. appID a = i) (dbApprovals s) then (Some ErrApprovalNotFound, s') else (None, s'))"

section \<open>The audit log\<close>

text \<open>The event comes back with its time filled in and the identifier the database gave it.\<close>

definition AppendAudit ::
  "store_codec \<Rightarrow> replace_all \<Rightarrow> bool \<Rightarrow> gotime \<Rightarrow> AuditEvent \<Rightarrow> SQLiteStore \<Rightarrow> store_error option \<times> AuditEvent \<times> SQLiteStore" where
  "AppendAudit k ra ok now event s =
     (if aeEventType event = [] then (Some ErrEventType, event, s)
      else
        let event = (if aeEventTime event = 0 then event\<lparr>aeEventTime := now\<rparr> else event);
            metaJSON = (case aeMetadata event of None \<Rightarrow> [] | Some m \<Rightarrow> metaEnc k (sanitizeMetadata ra m));
            snapJSON = (case aeSnapshot event of None \<Rightarrow> [] | Some sn \<Rightarrow> snapEnc k (MarshalJSON sn));
            i = dbAuditSeq s + 1;
            row = \<lparr>arID = i, arEventTime = aeEventTime event, arEventType = aeEventType event,
                   arPackage = RedactSensitiveString ra (aePackage event), arVersion = RedactSensitiveString ra (aeVersion event),
                   arDecisionID = aeDecisionID event, arRuleID = RedactSensitiveString ra (aeRuleID event),
                   arVerdict = RedactSensitiveString ra (aeVerdict event), arActor = RedactSensitiveString ra (aeActor event),
                   arMetadataJSON = metaJSON, arSnapshotJSON = snapJSON\<rparr>
        in if \<not> ok then (Some ErrDB, event, s)
           else (None, event\<lparr>aeID := i\<rparr>, s\<lparr>dbAudit := dbAudit s @ [row], dbAuditSeq := i\<rparr>))"

definition scanAuditEvent :: "store_codec \<Rightarrow> audit_row \<Rightarrow> AuditEvent" where
  "scanAuditEvent k r =
     \<lparr>aeID = arID r, aeEventTime = arEventTime r, aeEventType = arEventType r, aePackage = arPackage r,
      aeVersion = arVersion r, aeDecisionID = arDecisionID r, aeRuleID = arRuleID r, aeVerdict = arVerdict r,
      aeActor = arActor r,
      aeMetadata = (if arMetadataJSON r = [] then None else metaDec k (arMetadataJSON r)),
      aeSnapshot = (if arSnapshotJSON r = [] then None
                    else case snapDec k (arSnapshotJSON r) of
                      None \<Rightarrow> None
                    | Some raw \<Rightarrow> (case UnmarshalJSON (sha256 k) raw of Inl _ \<Rightarrow> None | Inr sn \<Rightarrow> Some sn))\<rparr>"

definition ListAuditEvents :: "store_codec \<Rightarrow> bool \<Rightarrow> int \<Rightarrow> int \<Rightarrow> SQLiteStore \<Rightarrow> store_error + AuditEvent list" where
  "ListAuditEvents k ok limit offset s =
     (let limit = (if limit \<le> 0 then 100 else limit); offset = (if offset < 0 then 0 else offset) in
      if \<not> ok then Inl ErrDB
      else Inr (map (scanAuditEvent k) (take (nat limit) (drop (nat offset) (sort_key arID (dbAudit s))))))"

definition GetAuditEvent :: "store_codec \<Rightarrow> bool \<Rightarrow> int \<Rightarrow> SQLiteStore \<Rightarrow> store_error + AuditEvent" where
  "GetAuditEvent k ok i s =
     (if \<not> ok then Inl ErrDB
      else case find (\<lambda>r. arID r = i) (dbAudit s) of None \<Rightarrow> Inl ErrAuditNotFound | Some r \<Rightarrow> Inr (scanAuditEvent k r))"

definition FindAuditByDecision :: "store_codec \<Rightarrow> bool \<Rightarrow> string \<Rightarrow> SQLiteStore \<Rightarrow> store_error + AuditEvent" where
  "FindAuditByDecision k ok decisionID s =
     (if \<not> ok then Inl ErrDB
      else case rev (sort_key arID (filter (\<lambda>r. arDecisionID r = decisionID) (dbAudit s))) of
        [] \<Rightarrow> Inl ErrAuditNotFound
      | r # _ \<Rightarrow> Inr (scanAuditEvent k r))"

section \<open>Decisions and configuration history\<close>

definition first_reason :: "DecisionDocument \<Rightarrow> string \<times> string" where
  "first_reason doc = (case docReasons doc of [] \<Rightarrow> ([], []) | r # _ \<Rightarrow> (reRuleID r, reSummary r))"

definition decision_created :: "gotime \<Rightarrow> DecisionDocument \<Rightarrow> gotime" where
  "decision_created now doc =
     (case docReasons doc of
        [] \<Rightarrow> now
      | r # _ \<Rightarrow> (case reEvidence r of [] \<Rightarrow> now | ev # _ \<Rightarrow> if erRetrievedAt ev \<noteq> 0 then erRetrievedAt ev else now))"

definition SaveDecision :: "store_codec \<Rightarrow> bool \<Rightarrow> gotime \<Rightarrow> DecisionDocument \<Rightarrow> SQLiteStore \<Rightarrow> store_error option \<times> SQLiteStore" where
  "SaveDecision k ok now doc s =
     (if docDecisionID doc = [] then (Some ErrDocumentID, s)
      else case docEnc k doc of
        None \<Rightarrow> (Some ErrDocumentRender, s)
      | Some data \<Rightarrow>
          if \<not> ok then (Some ErrDB, s)
          else
            let (ruleID, reason) = first_reason doc;
                row = (case map_of (dbDecisions s) (docDecisionID doc) of
                         None \<Rightarrow> \<lparr>drPackage = docPackage doc, drVersion = docVersion doc, drVerdict = docVerdict doc,
                                  drReason = reason, drRuleID = ruleID, drDocumentJSON = data,
                                  drCreatedAt = decision_created now doc\<rparr>
                       | Some old \<Rightarrow> old\<lparr>drDocumentJSON := data, drReason := reason\<rparr>)
            in (None, s\<lparr>dbDecisions := AList.update (docDecisionID doc) row (dbDecisions s)\<rparr>))"

definition GetDecision :: "store_codec \<Rightarrow> bool \<Rightarrow> string \<Rightarrow> SQLiteStore \<Rightarrow> store_error + DecisionDocument" where
  "GetDecision k ok decisionID s =
     (if \<not> ok then Inl ErrDB
      else case map_of (dbDecisions s) decisionID of
        None \<Rightarrow> Inl ErrNoDecision
      | Some row \<Rightarrow> (case docDec k (drDocumentJSON row) of None \<Rightarrow> Inl ErrDocumentParse | Some d \<Rightarrow> Inr d))"

definition RecordConfigHistory ::
  "replace_all \<Rightarrow> bool \<Rightarrow> gotime \<Rightarrow> string \<Rightarrow> string \<Rightarrow> string \<Rightarrow> SQLiteStore \<Rightarrow> store_error option \<times> SQLiteStore" where
  "RecordConfigHistory ra ok now action phase payload s =
     (if \<not> ok then (Some ErrDB, s)
      else let i = dbConfigSeq s + 1 in
        (None, s\<lparr>dbConfig := dbConfig s @ [\<lparr>crID = i, crAction = action, crPhase = phase,
                   crPayload = RedactSensitiveString ra payload, crCreatedAt = now\<rparr>], dbConfigSeq := i\<rparr>))"

definition ListConfigHistory :: "bool \<Rightarrow> int \<Rightarrow> SQLiteStore \<Rightarrow> store_error + ConfigRecord list" where
  "ListConfigHistory ok limit s =
     (if \<not> ok then Inl ErrDB
      else Inr (take (nat (if limit \<le> 0 then 50 else limit)) (rev (sort_key crID (dbConfig s)))))"

section \<open>Cached evidence and decisions\<close>

text \<open>
  All fields of an \<^verbatim>\<open>Outcome\<close> are unexported and it has no JSON methods of its own, so that its
  encoding is the empty object and decoding any object gives the zero outcome; \<open>is_object\<close> says
  whether the text of the column is a JSON object.
\<close>

definition marshal_outcome :: "Outcome \<Rightarrow> string" where "marshal_outcome ou = ''{}''"

definition SaveCachedEvidence ::
  "bool \<Rightarrow> string \<Rightarrow> string \<Rightarrow> string \<Rightarrow> Outcome \<Rightarrow> gotime \<Rightarrow> SQLiteStore \<Rightarrow> store_error option \<times> SQLiteStore" where
  "SaveCachedEvidence ok pkg version kind outcome staleUntil s =
     (if Outcome_State outcome = StateUnavailable then (None, s)
      else if \<not> ok then (Some ErrDB, s)
      else (None, s\<lparr>dbEvidence := AList.update (kind, pkg, version)
              \<lparr>evOutcomeJSON = marshal_outcome outcome, evRetrievedAt = outRetrievedAt outcome,
               evFreshUntil = outFreshUntil outcome, evStaleUntil = staleUntil\<rparr> (dbEvidence s)\<rparr>))"

definition GetCachedEvidence ::
  "(string \<Rightarrow> bool) \<Rightarrow> bool \<Rightarrow> string \<Rightarrow> string \<Rightarrow> string \<Rightarrow> gotime \<Rightarrow> SQLiteStore \<Rightarrow> store_error + Outcome option" where
  "GetCachedEvidence is_object ok kind pkg version now s =
     (if \<not> ok then Inl ErrDB
      else case map_of (dbEvidence s) (kind, pkg, version) of
        None \<Rightarrow> Inr None
      | Some row \<Rightarrow>
          if now > evStaleUntil row then Inr None
          else if \<not> is_object (evOutcomeJSON row) then Inl ErrCorruptCache
          else Inr (Some zeroOutcome))"

definition SaveCachedAllow ::
  "store_codec \<Rightarrow> bool \<Rightarrow> string \<Rightarrow> string \<Rightarrow> Decision \<Rightarrow> string \<Rightarrow> gotime \<Rightarrow> gotime \<Rightarrow> gotime \<Rightarrow> SQLiteStore \<Rightarrow>
   store_error option \<times> SQLiteStore" where
  "SaveCachedAllow k ok pkg version d snapshotID retrievedAt freshUntil staleUntil s =
     (if decVerdict d \<noteq> Allow then (None, s)
      else if \<not> ok then (Some ErrDB, s)
      else (None, s\<lparr>dbAllows := AList.update (pkg, version)
              \<lparr>alDecisionJSON = decEnc k d, alSnapshotID = snapshotID, alRetrievedAt = retrievedAt,
               alFreshUntil = freshUntil, alStaleUntil = staleUntil\<rparr> (dbAllows s)\<rparr>))"

definition GetCachedAllow ::
  "store_codec \<Rightarrow> bool \<Rightarrow> string \<Rightarrow> string \<Rightarrow> gotime \<Rightarrow> SQLiteStore \<Rightarrow> store_error + CachedAllow option" where
  "GetCachedAllow k ok pkg version now s =
     (if \<not> ok then Inl ErrDB
      else case map_of (dbAllows s) (pkg, version) of
        None \<Rightarrow> Inr None
      | Some row \<Rightarrow>
          if now > alStaleUntil row then Inr None
          else case decDec k (alDecisionJSON row) of
            None \<Rightarrow> Inl ErrCorruptCache
          | Some d \<Rightarrow> Inr (Some \<lparr>caDecision = d, caSnapshotID = alSnapshotID row, caRetrievedAt = alRetrievedAt row,
                                 caFreshUntil = alFreshUntil row, caStaleUntil = alStaleUntil row\<rparr>))"

text \<open>Both tables are emptied in one transaction.\<close>

definition ClearEvidenceCache :: "bool \<Rightarrow> SQLiteStore \<Rightarrow> store_error option \<times> SQLiteStore" where
  "ClearEvidenceCache ok s =
     (if \<not> ok then (Some ErrDB, s) else (None, s\<lparr>dbEvidence := [], dbAllows := []\<rparr>))"

end
