(* ===== verification/Migrations.thy ===== *)
theory Migrations
  imports Store
begin

text \<open>
  Schema migrations: \<^verbatim>\<open>src/internal/store/migrations.go\<close> with \<^verbatim>\<open>ApplyMigrations\<close> and
  \<^verbatim>\<open>CurrentSchemaVersion\<close> of \<^verbatim>\<open>sqlite.go\<close>. A statement of a migration creates one schema
  object unless it exists, and is represented by the name of that object. The parameter \<open>ex\<close>
  says which steps the database (or the crash hook) lets succeed; a transaction that does not
  reach its commit leaves the database as it was.
\<close>

section \<open>Migrations\<close>

record Migration =
  migVersion :: int
  migName :: string
  migDDL :: "string list"

definition migrations :: "Migration list" where
  "migrations =
    [\<lparr>migVersion = 1, migName = ''initial_schema'',
      migDDL = [''config_history'', ''evidence_cache'', ''cached_allows'', ''decisions'', ''approvals'', ''audit_events'',
                ''trg_audit_no_update'', ''trg_audit_no_delete'']\<rparr>,
     \<lparr>migVersion = 2, migName = ''performance_indexes'',
      migDDL = [''idx_audit_decision'', ''idx_audit_package'', ''idx_approvals_pkg'', ''idx_decisions_pkg'']\<rparr>]"

datatype mig_step = MigInit | MigQuery | MigBegin int | MigExec string | MigHook int | MigRecord int | MigCommit int

datatype mig_error = ErrMigInit | ErrMigQuery | ErrMigration int mig_step

definition create_if_missing :: "string \<Rightarrow> string list \<Rightarrow> string list" where
  "create_if_missing ob objs = (if List.member objs ob then objs else objs @ [ob])"

definition initMigrationTable :: "(mig_step \<Rightarrow> bool) \<Rightarrow> SQLiteStore \<Rightarrow> mig_error option \<times> SQLiteStore" where
  "initMigrationTable ex s =
     (if \<not> ex MigInit then (Some ErrMigInit, s)
      else (None, s\<lparr>dbObjects := create_if_missing ''schema_migrations'' (dbObjects s)\<rparr>))"

definition getAppliedVersions :: "(mig_step \<Rightarrow> bool) \<Rightarrow> SQLiteStore \<Rightarrow> mig_error + int list" where
  "getAppliedVersions ex s = (if \<not> ex MigQuery then Inl ErrMigQuery else Inr (map fst (dbMigrations s)))"

text \<open>The statements of one migration in order; \<^term>\<open>Inl\<close> names the first that fails.\<close>

fun run_ddl :: "(mig_step \<Rightarrow> bool) \<Rightarrow> string list \<Rightarrow> string list \<Rightarrow> string + string list" where
  "run_ddl ex [] objs = Inr objs"
| "run_ddl ex (d # ds) objs = (if \<not> ex (MigExec d) then Inl d else run_ddl ex ds (create_if_missing d objs))"

definition applyMigration :: "(mig_step \<Rightarrow> bool) \<Rightarrow> gotime \<Rightarrow> Migration \<Rightarrow> SQLiteStore \<Rightarrow> mig_error option \<times> SQLiteStore" where
  "applyMigration ex now m s =
     (let v = migVersion m in
      if \<not> ex (MigBegin v) then (Some (ErrMigration v (MigBegin v)), s)
      else case run_ddl ex (migDDL m) (dbObjects s) of
        Inl d \<Rightarrow> (Some (ErrMigration v (MigExec d)), s)
      | Inr objs \<Rightarrow>
          if \<not> ex (MigHook v) then (Some (ErrMigration v (MigHook v)), s)
          else if \<not> ex (MigRecord v) \<or> List.member (map fst (dbMigrations s)) v then (Some (ErrMigration v (MigRecord v)), s)
          else if \<not> ex (MigCommit v) then (Some (ErrMigration v (MigCommit v)), s)
          else (None, s\<lparr>dbObjects := objs, dbMigrations := dbMigrations s @ [(v, migName m, now)]\<rparr>))"

fun apply_pending :: "(mig_step \<Rightarrow> bool) \<Rightarrow> gotime \<Rightarrow> int list \<Rightarrow> Migration list \<Rightarrow> SQLiteStore \<Rightarrow> mig_error option \<times> SQLiteStore" where
  "apply_pending ex now applied [] s = (None, s)"
| "apply_pending ex now applied (m # ms) s =
     (if List.member applied (migVersion m) then apply_pending ex now applied ms s
      else case applyMigration ex now m s of
        (Some e, s') \<Rightarrow> (Some e, s')
      | (None, s') \<Rightarrow> apply_pending ex now applied ms s')"

definition ApplyMigrations :: "(mig_step \<Rightarrow> bool) \<Rightarrow> gotime \<Rightarrow> SQLiteStore \<Rightarrow> mig_error option \<times> SQLiteStore" where
  "ApplyMigrations ex now s =
     (case initMigrationTable ex s of
        (Some e, s') \<Rightarrow> (Some e, s')
      | (None, s') \<Rightarrow> (case getAppliedVersions ex s' of
            Inl e \<Rightarrow> (Some e, s')
          | Inr applied \<Rightarrow> apply_pending ex now applied migrations s'))"

definition Store_CurrentSchemaVersion :: "SQLiteStore \<Rightarrow> int" where
  "Store_CurrentSchemaVersion s =
     (if \<not> List.member (dbObjects s) ''schema_migrations'' then 0
      else if dbMigrations s = [] then 0 else fold max (map fst (dbMigrations s)) (fst (hd (dbMigrations s))))"

section \<open>All or nothing\<close>

text \<open>The schema after the first \<open>n\<close> migrations, with or without the table of migrations.\<close>

definition schema_at :: "nat \<Rightarrow> SQLiteStore \<Rightarrow> bool" where
  "schema_at n s =
     (n \<le> length migrations \<and> map fst (dbMigrations s) = map migVersion (take n migrations) \<and>
      (dbObjects s = ''schema_migrations'' # concat (map migDDL (take n migrations)) \<or> (n = 0 \<and> dbObjects s = [])))"

lemma run_ddl_Inr:
  assumes "run_ddl ex ds objs = Inr objs'" "distinct ds" "set ds \<inter> set objs = {}"
  shows "objs' = objs @ ds"
  using assms
proof (induction ds arbitrary: objs)
  case (Cons d ds)
  then have "run_ddl ex ds (objs @ [d]) = Inr objs'" by (simp add: create_if_missing_def split: if_splits)
  then show ?case using Cons.IH [of "objs @ [d]"] Cons.prems by auto
qed simp

lemma run_ddl_all: "(\<And>d. ex (MigExec d)) \<Longrightarrow> \<exists>objs'. run_ddl ex ds objs = Inr objs'"
  by (induction ds arbitrary: objs) auto

lemma migration_facts:
  "n < length migrations \<Longrightarrow> distinct (migDDL (migrations ! n)) \<and>
     set (migDDL (migrations ! n)) \<inter> set (''schema_migrations'' # concat (map migDDL (take n migrations))) = {} \<and>
     migVersion (migrations ! n) = int n + 1"
  by (cases n rule: nat.exhaust) (auto simp: migrations_def less_Suc_eq)

lemma take_Suc_migrations: "n < length migrations \<Longrightarrow> take (Suc n) migrations = take n migrations @ [migrations ! n]"
  by (rule take_Suc_conv_app_nth)

text \<open>Everything outside the two schema fields is untouched.\<close>

definition same_data :: "SQLiteStore \<Rightarrow> SQLiteStore \<Rightarrow> bool" where
  "same_data s s' = (s' = s\<lparr>dbObjects := dbObjects s', dbMigrations := dbMigrations s'\<rparr>)"

lemma same_data_refl [simp]: "same_data s s"
  by (simp add: same_data_def)

lemma same_data_trans: "same_data a b \<Longrightarrow> same_data b c \<Longrightarrow> same_data a c"
  by (cases a; cases b; cases c) (simp add: same_data_def)

lemma applyMigration_step:
  assumes "schema_at n s" "n < length migrations" "dbObjects s \<noteq> []" "applyMigration ex now (migrations ! n) s = (r, s')"
  shows "same_data s s' \<and> (if r = None then schema_at (Suc n) s' \<and> dbObjects s' \<noteq> [] else s' = s)"
proof -
  note f = migration_facts [OF assms(2)]
  have objs: "dbObjects s = ''schema_migrations'' # concat (map migDDL (take n migrations))"
    using assms(1,3) by (auto simp: schema_at_def)
  show ?thesis
  proof (cases r)
    case None
    then obtain objs' where o: "run_ddl ex (migDDL (migrations ! n)) (dbObjects s) = Inr objs'"
        "s' = s\<lparr>dbObjects := objs', dbMigrations := dbMigrations s @ [(migVersion (migrations ! n), migName (migrations ! n), now)]\<rparr>"
      using assms(4) by (auto simp: applyMigration_def Let_def split: if_splits sum.splits)
    have "objs' = dbObjects s @ migDDL (migrations ! n)"
      by (rule run_ddl_Inr [OF o(1) conjunct1 [OF f]]) (simp only: objs conjunct1 [OF conjunct2 [OF f]])
    then show ?thesis
      using assms(1,2) None o(2) objs unfolding schema_at_def
      by (simp add: take_Suc_migrations same_data_def)
  next
    case (Some e)
    then show ?thesis using assms(4) by (auto simp: applyMigration_def Let_def split: if_splits sum.splits)
  qed
qed

lemma applyMigration_succeeds:
  assumes "schema_at n s" "n < length migrations" "\<And>st. ex st"
  shows "fst (applyMigration ex now (migrations ! n) s) = None"
proof -
  obtain objs where "run_ddl ex (migDDL (migrations ! n)) (dbObjects s) = Inr objs"
    using run_ddl_all assms(3) by blast
  moreover have "migVersion (migrations ! n) \<notin> set (map fst (dbMigrations s))"
    using assms(1,2) by (auto simp: schema_at_def migrations_def less_Suc_eq)
  ultimately show ?thesis using assms(3) by (simp add: applyMigration_def Let_def)
qed

lemma apply_pending_step:
  assumes "schema_at n s" "dbObjects s \<noteq> []" "\<forall>m \<in> set (drop n migrations). migVersion m \<notin> set applied"
    and "apply_pending ex now applied (drop n migrations) s = (r, s')"
  shows "same_data s s' \<and> dbObjects s' \<noteq> [] \<and> (\<exists>n'. n \<le> n' \<and> schema_at n' s' \<and> (r = None \<longrightarrow> n' = length migrations)) \<and>
         ((\<forall>st. ex st) \<longrightarrow> r = None)"
  using assms
proof (induction "length migrations - n" arbitrary: n s)
  case 0
  then have "n = length migrations" by (simp add: schema_at_def)
  then show ?case using 0 by auto
next
  case (Suc d)
  then have lt: "n < length migrations" by simp
  then have dr: "drop n migrations = migrations ! n # drop (Suc n) migrations" by (simp add: Cons_nth_drop_Suc)
  obtain r1 s1 where a: "applyMigration ex now (migrations ! n) s = (r1, s1)" by (cases "applyMigration ex now (migrations ! n) s")
  note st = applyMigration_step [OF Suc.prems(1) lt Suc.prems(2) a]
  have fresh: "migVersion (migrations ! n) \<notin> set applied" using Suc.prems(3) dr by simp
  show ?case
  proof (cases r1)
    case None
    then have rec: "apply_pending ex now applied (drop (Suc n) migrations) s1 = (r, s')"
      using Suc.prems(4) a fresh by (simp add: dr)
    have "d = length migrations - Suc n" using Suc.hyps(2) by simp
    moreover have "schema_at (Suc n) s1" "dbObjects s1 \<noteq> []" "same_data s s1" using st None by auto
    moreover have "\<forall>m \<in> set (drop (Suc n) migrations). migVersion m \<notin> set applied" using Suc.prems(3) dr by simp
    ultimately show ?thesis using Suc.hyps(1) [of "Suc n" s1] rec same_data_trans by (metis Suc_leD)
  next
    case (Some e)
    then have "s' = s" "r = Some e" using st Suc.prems(4) a fresh by (simp_all add: dr)
    moreover have "\<not> (\<forall>st. ex st)" using applyMigration_succeeds [OF Suc.prems(1) lt, of ex now] a Some by auto
    ultimately show ?thesis using Suc.prems(1,2) by auto
  qed
qed

text \<open>One run of the migrations from the schema after \<open>n\<close> of them.\<close>

lemma apply_pending_skip:
  "\<forall>m \<in> set ms. migVersion m \<in> set applied \<Longrightarrow> apply_pending ex now applied (ms @ ms') s = apply_pending ex now applied ms' s"
  by (induction ms) auto

lemma distinct_versions: "distinct (map migVersion migrations)"
  by (simp add: migrations_def)

lemma migrations_from:
  assumes "applied = map migVersion (take n migrations)"
  shows "apply_pending ex now applied migrations s = apply_pending ex now applied (drop n migrations) s"
    and "\<forall>m \<in> set (drop n migrations). migVersion m \<notin> set applied"
proof -
  show "apply_pending ex now applied migrations s = apply_pending ex now applied (drop n migrations) s"
    using apply_pending_skip [of "take n migrations" applied ex now "drop n migrations" s] assms by simp
  have "distinct (map migVersion (take n migrations) @ map migVersion (drop n migrations))"
    using distinct_versions by (metis append_take_drop_id map_append)
  then show "\<forall>m \<in> set (drop n migrations). migVersion m \<notin> set applied" using assms by auto
qed

lemma ApplyMigrations_step:
  assumes "schema_at n s" "ApplyMigrations ex now s = (r, s')"
  shows "same_data s s' \<and> (\<exists>n'. n \<le> n' \<and> schema_at n' s' \<and> (r = None \<longrightarrow> n' = length migrations)) \<and> ((\<forall>st. ex st) \<longrightarrow> r = None)"
proof (cases "ex MigInit")
  case False
  then show ?thesis using assms by (auto simp: ApplyMigrations_def initMigrationTable_def)
next
  case True
  define s1 where "s1 = s\<lparr>dbObjects := create_if_missing ''schema_migrations'' (dbObjects s)\<rparr>"
  have s1: "schema_at n s1" "dbObjects s1 \<noteq> []" "same_data s s1"
    using assms(1) by (auto simp: s1_def schema_at_def create_if_missing_def same_data_def)
  have n: "n \<le> length migrations" "map fst (dbMigrations s1) = map migVersion (take n migrations)"
    using s1(1) by (simp_all add: schema_at_def)
  show ?thesis
  proof (cases "ex MigQuery")
    case False
    then show ?thesis using assms s1 True by (auto simp: ApplyMigrations_def initMigrationTable_def getAppliedVersions_def s1_def)
  next
    case q: True
    have "apply_pending ex now (map migVersion (take n migrations)) (drop n migrations) s1 = (r, s')"
      using assms(2) True q n(2) migrations_from(1) [OF refl]
      by (simp add: ApplyMigrations_def initMigrationTable_def getAppliedVersions_def s1_def)
    from apply_pending_step [OF s1(1,2) migrations_from(2) [OF refl] this]
    show ?thesis using s1(3) same_data_trans by blast
  qed
qed

lemma schema_at_version: "schema_at n s \<Longrightarrow> Store_CurrentSchemaVersion s = int n"
  by (auto simp: schema_at_def Store_CurrentSchemaVersion_def migrations_def le_Suc_eq numeral_2_eq_2)

lemma schema_at_emptyDB [simp]: "schema_at 0 emptyDB"
  by (simp add: schema_at_def emptyDB_def)

fun run_migrations :: "(mig_step \<Rightarrow> bool) list \<Rightarrow> gotime \<Rightarrow> SQLiteStore \<Rightarrow> SQLiteStore" where
  "run_migrations [] now s = s"
| "run_migrations (ex # exs) now s = run_migrations exs now (snd (ApplyMigrations ex now s))"

lemma run_migrations_schema: "schema_at n s \<Longrightarrow> \<exists>n' \<ge> n. schema_at n' (run_migrations exs now s)"
proof (induction exs arbitrary: n s)
  case (Cons ex exs)
  obtain r s' where "ApplyMigrations ex now s = (r, s')" by (cases "ApplyMigrations ex now s")
  then obtain n1 where "n \<le> n1" "schema_at n1 s'" using ApplyMigrations_step [OF Cons.prems] by blast
  then show ?case using Cons.IH [of n1 s'] \<open>ApplyMigrations ex now s = (r, s')\<close> le_trans by (metis run_migrations.simps(2) snd_conv)
qed auto

section \<open>Properties\<close>


end
