(* ===== verification/Audit_Log.thy ===== *)
theory Audit_Log
  imports Migrations "HOL-Library.Sublist"
begin

text \<open>
  The audit log over time: \<^verbatim>\<open>src/internal/store/audit.go\<close>, and the invariants of the store under
  every sequence of its operations, \<open>store_step\<close>. Statements may fail at any point.
\<close>

section \<open>Export and reconstruction\<close>

definition sanitizeAuditEventForExport :: "replace_all \<Rightarrow> AuditEvent \<Rightarrow> AuditEvent" where
  "sanitizeAuditEventForExport ra ev =
     ev\<lparr>aeMetadata := map_option (sanitizeMetadata ra) (aeMetadata ev), aeActor := RedactSensitiveString ra (aeActor ev)\<rparr>"

text \<open>A writer that accepts \<open>cap\<close> writes and fails afterwards; the output is the list of writes.\<close>

definition write_chunk :: "nat \<Rightarrow> string \<Rightarrow> string list \<Rightarrow> store_error + string list" where
  "write_chunk cap c out = (if length out < cap then Inr (out @ [c]) else Inl ErrWrite)"

text \<open>\<open>marshal\<close> is the JSON encoding of an event with the indentation of the export.\<close>

fun export_events ::
  "nat \<Rightarrow> (AuditEvent \<Rightarrow> string option) \<Rightarrow> replace_all \<Rightarrow> AuditEvent list \<Rightarrow> bool \<times> string list \<Rightarrow> store_error + bool \<times> string list" where
  "export_events cap marshal ra [] st = Inr st"
| "export_events cap marshal ra (ev # evs) st =
     (case marshal (sanitizeAuditEventForExport ra ev) of
        None \<Rightarrow> Inl ErrMarshal
      | Some data \<Rightarrow>
          (case (if fst st then Inr (snd st) else write_chunk cap ('','' @ nl) (snd st)) of
             Inl e \<Rightarrow> Inl e
           | Inr out1 \<Rightarrow> (case write_chunk cap ''  '' out1 of
               Inl e \<Rightarrow> Inl e
             | Inr out2 \<Rightarrow> (case write_chunk cap data out2 of
                 Inl e \<Rightarrow> Inl e
               | Inr out3 \<Rightarrow> export_events cap marshal ra evs (False, out3)))))"

definition batchSize :: nat where "batchSize = 250"

text \<open>The loop over batches. \<open>ok\<close> tells for which offsets the query succeeds. A batch is a
  contiguous slice of the log, so that the offset grows by its length until the log is exhausted.\<close>

function export_batches ::
  "nat \<Rightarrow> (AuditEvent \<Rightarrow> string option) \<Rightarrow> replace_all \<Rightarrow> store_codec \<Rightarrow> (nat \<Rightarrow> bool) \<Rightarrow> SQLiteStore \<Rightarrow> nat \<Rightarrow> bool \<times> string list \<Rightarrow>
   store_error + bool \<times> string list" where
  "export_batches cap marshal ra k ok s offset st =
     (case ListAuditEvents k (ok offset) (int batchSize) (int offset) s of
        Inl e \<Rightarrow> Inl e
      | Inr events \<Rightarrow>
          if events = [] then Inr st
          else (case export_events cap marshal ra events st of
             Inl e \<Rightarrow> Inl e
           | Inr st' \<Rightarrow>
               if length events < batchSize then Inr st'
               else export_batches cap marshal ra k ok s (offset + length events) st'))"
  by pat_completeness auto
termination
proof (relation "measure (\<lambda>(cap, marshal, ra, k, ok, s, offset, st). length (dbAudit s) - offset)")
  fix cap marshal ra k ok s offset st events st'
  assume "ListAuditEvents k (ok offset) (int batchSize) (int offset) s = Inr events" "events \<noteq> []"
  then have "events = map (scanAuditEvent k) (take batchSize (drop offset (sort_key arID (dbAudit s))))"
    by (cases "ok offset") (auto simp: ListAuditEvents_def batchSize_def)
  with \<open>events \<noteq> []\<close> have "0 < length events" "offset < length (dbAudit s)" by auto
  then have "length (dbAudit s) - (offset + length events) < length (dbAudit s) - offset" by linarith
  then show "((cap, marshal, ra, k, ok, s, offset + length events, st'), (cap, marshal, ra, k, ok, s, offset, st))
      \<in> measure (\<lambda>(cap, marshal, ra, k, ok, s, offset, st). length (dbAudit s) - offset)" by simp
qed simp

declare export_batches.simps [simp del]

lemma ListAuditEvents_batch:
  "ListAuditEvents k True (int batchSize) (int offset) s
     = Inr (map (scanAuditEvent k) (take batchSize (drop offset (sort_key arID (dbAudit s)))))"
  by (simp add: ListAuditEvents_def batchSize_def)

definition ExportAuditJSON ::
  "nat \<Rightarrow> (AuditEvent \<Rightarrow> string option) \<Rightarrow> replace_all \<Rightarrow> store_codec \<Rightarrow> (nat \<Rightarrow> bool) \<Rightarrow> SQLiteStore \<Rightarrow> store_error + string list" where
  "ExportAuditJSON cap marshal ra k ok s =
     (case write_chunk cap (''['' @ nl) [] of
        Inl e \<Rightarrow> Inl e
      | Inr out \<Rightarrow> (case export_batches cap marshal ra k ok s 0 (True, out) of
            Inl e \<Rightarrow> Inl e
          | Inr (first, out') \<Rightarrow> write_chunk cap (nl @ '']'' @ nl) out'))"

text \<open>\<^verbatim>\<open>verdict.Kind(ev.Verdict)\<close> is the string itself.\<close>

definition ReconstructDecisionFromAudit :: "AuditEvent \<Rightarrow> store_error + DecisionDocument \<times> Snapshot" where
  "ReconstructDecisionFromAudit ev =
     (if aeEventType ev \<noteq> ''decision'' then Inl (ErrNotDecisionEvent (aeEventType ev))
      else case aeSnapshot ev of
        None \<Rightarrow> Inl ErrNoSnapshot
      | Some snap \<Rightarrow>
          Inr (\<lparr>docSchemaVersion = CurrentSchemaVersion, docDecisionID = aeDecisionID ev, docPackage = aePackage ev,
                docVersion = aeVersion ev, docVerdict = aeVerdict ev, docDegraded = False, docSnapshotID = snapID snap,
                docReasons = [\<lparr>reRuleID = aeRuleID ev,
                   reSummary = ''verdict '' @ aeVerdict ev @ '' determined by rule '' @ aeRuleID ev, reEvidence = []\<rparr>],
                docChanges = [], docMissingEvidence = [], docNextCommand = []\<rparr>, snap))"

section \<open>Executions\<close>

inductive store_step :: "SQLiteStore \<Rightarrow> SQLiteStore \<Rightarrow> bool" where
  migrate: "store_step s (snd (ApplyMigrations ex now s))"
| create: "store_step s (snd (CreateApproval ok app s))"
| revoke: "store_step s (snd (RevokeApproval ok i t s))"
| append: "store_step s (snd (snd (AppendAudit k ra ok now ev s)))"
| decide: "store_step s (snd (SaveDecision k ok now doc s))"
| configure: "store_step s (snd (RecordConfigHistory ra ok now action phase payload s))"
| cache: "store_step s (snd (SaveCachedEvidence ok pkg version kind ou t s))"
| allow: "store_step s (snd (SaveCachedAllow k ok pkg version d snapshotID t1 t2 t3 s))"
| clear: "store_step s (snd (ClearEvidenceCache ok s))"

inductive_cases store_stepE: "store_step s s'"

definition store_reaches :: "SQLiteStore \<Rightarrow> SQLiteStore \<Rightarrow> bool" where
  "store_reaches = store_step\<^sup>*\<^sup>*"

lemma store_reaches_refl [simp]: "store_reaches s s"
  by (simp add: store_reaches_def)

lemma store_reaches_step: "store_step s s' \<Longrightarrow> store_reaches s s'"
  by (simp add: store_reaches_def)

lemma store_reaches_induct:
  assumes "store_reaches s s'" "P s" "\<And>a b. P a \<Longrightarrow> store_step a b \<Longrightarrow> P b"
  shows "P s'"
  using assms(1) unfolding store_reaches_def by (induction rule: rtranclp_induct) (auto intro: assms)

lemma apply_pending_data: "same_data s (snd (apply_pending ex now applied ms s))"
proof (induction ms arbitrary: s)
  case (Cons m ms)
  have one: "same_data s (snd (applyMigration ex now m s))"
    by (auto simp: applyMigration_def Let_def same_data_def split: sum.splits)
  show ?case
  proof (cases "applyMigration ex now m s")
    case (Pair r s1)
    then have "same_data s s1" using one by simp
    from same_data_trans [OF this Cons.IH [of s1]] this show ?thesis using Cons.IH [of s] Pair by (cases r) simp_all
  qed
qed simp

lemma ApplyMigrations_data: "same_data s (snd (ApplyMigrations ex now s))"
proof -
  define s1 where "s1 = s\<lparr>dbObjects := create_if_missing ''schema_migrations'' (dbObjects s)\<rparr>"
  have s1: "same_data s s1" by (simp add: s1_def same_data_def)
  have "snd (ApplyMigrations ex now s) = s \<or> snd (ApplyMigrations ex now s) = s1 \<or>
      (\<exists>applied. snd (ApplyMigrations ex now s) = snd (apply_pending ex now applied migrations s1))"
    by (cases "ex MigInit"; cases "ex MigQuery")
       (auto simp: ApplyMigrations_def initMigrationTable_def getAppliedVersions_def s1_def [symmetric])
  then show ?thesis
  proof (elim disjE exE)
    fix applied assume e: "snd (ApplyMigrations ex now s) = snd (apply_pending ex now applied migrations s1)"
    show ?thesis unfolding e by (rule same_data_trans [OF s1 apply_pending_data])
  qed (simp_all add: s1)
qed

lemma same_data_fields:
  "same_data s s' \<Longrightarrow> dbAudit s' = dbAudit s" "same_data s s' \<Longrightarrow> dbAuditSeq s' = dbAuditSeq s"
  "same_data s s' \<Longrightarrow> dbApprovals s' = dbApprovals s"
  by (cases s; cases s'; simp add: same_data_def)+

lemmas ApplyMigrations_fields = same_data_fields [OF ApplyMigrations_data]

lemmas store_op_defs = CreateApproval_def RevokeApproval_def AppendAudit_def SaveDecision_def RecordConfigHistory_def
  SaveCachedEvidence_def SaveCachedAllow_def ClearEvidenceCache_def Let_def

text \<open>What one operation does to the log and to the approvals.\<close>

lemma store_step_audit:
  assumes "store_step s s'"
  shows "(dbAudit s' = dbAudit s \<and> dbAuditSeq s' = dbAuditSeq s) \<or>
         (\<exists>r. dbAudit s' = dbAudit s @ [r] \<and> arID r = dbAuditSeq s + 1 \<and> dbAuditSeq s' = dbAuditSeq s + 1)"
  using assms by (cases rule: store_step.cases)
    (simp_all add: ApplyMigrations_fields store_op_defs split: option.split prod.split)

lemma store_step_approvals:
  assumes "store_step s s'"
  shows "dbApprovals s' = dbApprovals s \<or>
         (\<exists>i t. dbApprovals s' = map (\<lambda>a. if appID a = i then a\<lparr>appRevokedAt := Some t\<rparr> else a) (dbApprovals s)) \<or>
         (\<exists>a. dbApprovals s' = dbApprovals s @ [a] \<and> appID a \<notin> appID ` set (dbApprovals s) \<and> appPackage a \<noteq> [] \<and>
              appReason a \<noteq> [] \<and> \<not> isAutomatedActor (appActor a) \<and> appExpiresAt a \<noteq> 0)"
  using assms
proof (cases rule: store_step.cases)
  case (create ok app)
  then show ?thesis by (auto simp: CreateApproval_def list_ex_iff)
next
  case (revoke ok i t)
  then show ?thesis by (auto simp: RevokeApproval_def Let_def)
qed (simp_all add: ApplyMigrations_fields store_op_defs split: option.split prod.split)

section \<open>Invariants\<close>

definition db_inv :: "SQLiteStore \<Rightarrow> bool" where
  "db_inv s =
     (map arID (dbAudit s) = map int [1..<Suc (length (dbAudit s))] \<and> dbAuditSeq s = int (length (dbAudit s)) \<and>
      distinct (map appID (dbApprovals s)) \<and>
      (\<forall>a \<in> set (dbApprovals s). appPackage a \<noteq> [] \<and> appReason a \<noteq> [] \<and> \<not> isAutomatedActor (appActor a) \<and> appExpiresAt a \<noteq> 0))"

lemma db_inv_emptyDB: "db_inv emptyDB"
  by (simp add: db_inv_def emptyDB_def)

lemma db_inv_step:
  assumes "db_inv s" "store_step s s'"
  shows "db_inv s'"
proof -
  have "map arID (dbAudit s') = map int [1..<Suc (length (dbAudit s'))] \<and> dbAuditSeq s' = int (length (dbAudit s'))"
    using store_step_audit [OF assms(2)]
  proof (elim disjE exE conjE)
    fix r assume "dbAudit s' = dbAudit s @ [r]" "arID r = dbAuditSeq s + 1" "dbAuditSeq s' = dbAuditSeq s + 1"
    then show ?thesis using assms(1) by (simp add: db_inv_def)
  qed (use assms(1) in \<open>simp add: db_inv_def\<close>)
  moreover have "distinct (map appID (dbApprovals s')) \<and>
      (\<forall>a \<in> set (dbApprovals s'). appPackage a \<noteq> [] \<and> appReason a \<noteq> [] \<and> \<not> isAutomatedActor (appActor a) \<and> appExpiresAt a \<noteq> 0)"
    using store_step_approvals [OF assms(2)]
  proof (elim disjE exE conjE)
    fix i t assume e: "dbApprovals s' = map (\<lambda>a. if appID a = i then a\<lparr>appRevokedAt := Some t\<rparr> else a) (dbApprovals s)"
    have ids: "map appID (dbApprovals s') = map appID (dbApprovals s)" unfolding e by simp
    have "distinct (map appID (dbApprovals s'))" unfolding ids using assms(1) by (simp add: db_inv_def)
    moreover have "\<forall>a \<in> set (dbApprovals s'). appPackage a \<noteq> [] \<and> appReason a \<noteq> [] \<and> \<not> isAutomatedActor (appActor a) \<and> appExpiresAt a \<noteq> 0"
      using assms(1) unfolding db_inv_def e by auto
    ultimately show ?thesis ..
  next
    fix a assume "dbApprovals s' = dbApprovals s @ [a]" "appID a \<notin> appID ` set (dbApprovals s)" "appPackage a \<noteq> []"
      "appReason a \<noteq> []" "\<not> isAutomatedActor (appActor a)" "appExpiresAt a \<noteq> 0"
    then show ?thesis using assms(1) unfolding db_inv_def by auto
  qed (use assms(1) in \<open>simp add: db_inv_def\<close>)
  ultimately show ?thesis by (simp add: db_inv_def)
qed

lemma db_inv_reaches: "db_inv s \<Longrightarrow> store_reaches s s' \<Longrightarrow> db_inv s'"
  by (rule store_reaches_induct [of s s']) (auto intro: db_inv_step)

lemma audit_prefix: "store_reaches s s' \<Longrightarrow> prefix (dbAudit s) (dbAudit s')"
proof (erule store_reaches_induct)
  fix a b assume "prefix (dbAudit s) (dbAudit a)" "store_step a b"
  then show "prefix (dbAudit s) (dbAudit b)" using store_step_audit [of a b] by (auto intro: prefix_order.trans)
qed simp

lemma audit_sorted:
  assumes "db_inv s"
  shows "sort_key arID (dbAudit s) = dbAudit s"
proof (rule sort_key_id_if_sorted)
  have "sorted (map int [1..<Suc (length (dbAudit s))])" by (simp add: sorted_map del: upt_Suc)
  then show "sorted (map arID (dbAudit s))" using assms by (simp add: db_inv_def del: upt_Suc)
qed

text \<open>Once revoked, an approval stays revoked: its identifier cannot be used again.\<close>

definition revoked :: "string \<Rightarrow> SQLiteStore \<Rightarrow> bool" where
  "revoked i s = (i \<in> appID ` set (dbApprovals s) \<and> (\<forall>a \<in> set (dbApprovals s). appID a = i \<longrightarrow> appRevokedAt a \<noteq> None))"

lemma revoked_step:
  assumes "revoked i s" "store_step s s'"
  shows "revoked i s'"
  using store_step_approvals [OF assms(2)]
proof (elim disjE exE conjE)
  fix j t assume e: "dbApprovals s' = map (\<lambda>a. if appID a = j then a\<lparr>appRevokedAt := Some t\<rparr> else a) (dbApprovals s)"
  have "map appID (dbApprovals s') = map appID (dbApprovals s)" unfolding e by simp
  then have ids: "appID ` set (dbApprovals s') = appID ` set (dbApprovals s)" unfolding set_map [symmetric] by simp
  have "\<forall>a \<in> set (dbApprovals s'). appID a = i \<longrightarrow> appRevokedAt a \<noteq> None"
    using assms(1) unfolding revoked_def e by auto
  then show ?thesis using assms(1) ids by (simp add: revoked_def)
next
  fix a assume "dbApprovals s' = dbApprovals s @ [a]" "appID a \<notin> appID ` set (dbApprovals s)"
  then show ?thesis using assms(1) unfolding revoked_def by auto
qed (use assms(1) in \<open>simp add: revoked_def\<close>)

lemma revoked_reaches: "revoked i s \<Longrightarrow> store_reaches s s' \<Longrightarrow> revoked i s'"
  by (rule store_reaches_induct [of s s']) (auto intro: revoked_step)

lemma RevokeApproval_revokes:
  assumes "RevokeApproval ok i t s = (None, s')"
  shows "revoked i s'"
proof -
  have e: "dbApprovals s' = map (\<lambda>a. if appID a = i then a\<lparr>appRevokedAt := Some t\<rparr> else a) (dbApprovals s)"
    and i: "i \<in> set (map appID (dbApprovals s))"
    using assms by (auto simp: RevokeApproval_def Let_def list_ex_iff split: if_splits)
  have "map appID (dbApprovals s') = map appID (dbApprovals s)" unfolding e by simp
  then have "i \<in> appID ` set (dbApprovals s')" using i unfolding set_map [symmetric] by simp
  moreover have "\<forall>a \<in> set (dbApprovals s'). appID a = i \<longrightarrow> appRevokedAt a \<noteq> None"
    unfolding e set_map ball_simps by simp
  ultimately show ?thesis by (simp add: revoked_def)
qed

lemma find_SomeD: "find P xs = Some x \<Longrightarrow> x \<in> set xs \<and> P x"
  by (auto simp: find_Some_iff)

lemma FindActiveApproval_Some:
  assumes "FindActiveApproval scan ok pkg version now s = Inr (Some a)" "set (scan (dbApprovals s)) = set (dbApprovals s)"
  shows "a \<in> set (dbApprovals s) \<and> appPackage a = pkg \<and> now < appExpiresAt a \<and> appRevokedAt a = None \<and>
         matchApprovalVersion (appVersion a) version"
proof -
  have "find (\<lambda>a. matchApprovalVersion (appVersion a) version) (SortSlice newest_first
      (filter (\<lambda>a. appPackage a = pkg \<and> appExpiresAt a > now \<and> appRevokedAt a = None) (scan (dbApprovals s)))) = Some a"
    using assms(1) by (simp add: FindActiveApproval_def Let_def split: if_splits)
  from find_SomeD [OF this] show ?thesis using assms(2) by simp
qed

lemma FindActiveApproval_None:
  assumes "FindActiveApproval scan True pkg version now s = Inr None" "set (scan (dbApprovals s)) = set (dbApprovals s)"
    and "a \<in> set (dbApprovals s)" "appPackage a = pkg" "now < appExpiresAt a" "appRevokedAt a = None"
  shows "\<not> matchApprovalVersion (appVersion a) version"
  using assms by (auto simp: FindActiveApproval_def Let_def find_None_iff)

section \<open>The exported text\<close>

text \<open>The reference: all events in the order of the log, each sanitised and encoded, separated by
  commas.\<close>

definition exported_event :: "(AuditEvent \<Rightarrow> string option) \<Rightarrow> replace_all \<Rightarrow> store_codec \<Rightarrow> audit_row \<Rightarrow> string" where
  "exported_event marshal ra k r = the (marshal (sanitizeAuditEventForExport ra (scanAuditEvent k r)))"

definition exported_text :: "string list \<Rightarrow> string" where
  "exported_text ds = ''['' @ nl @ Join ('','' @ nl) (map (\<lambda>d. ''  '' @ d) ds) @ nl @ '']'' @ nl"

lemma concat_events:
  assumes "\<forall>ev \<in> set evs. marshal (sanitizeAuditEventForExport ra ev) \<noteq> None" "length out + 3 * length evs \<le> cap"
  shows "\<exists>out'. export_events cap marshal ra evs (first, out) = Inr (first \<and> evs = [], out') \<and>
      length out' \<le> length out + 3 * length evs \<and>
      concat out' = concat out @ (if first \<or> evs = [] then [] else '','' @ nl) @
        Join ('','' @ nl) (map (\<lambda>ev. ''  '' @ the (marshal (sanitizeAuditEventForExport ra ev))) evs)"
  using assms
proof (induction evs arbitrary: first out)
  case (Cons ev evs)
  obtain d where d: "marshal (sanitizeAuditEventForExport ra ev) = Some d" using Cons.prems(1) by auto
  define out3 where "out3 = (if first then out else out @ ['','' @ nl]) @ [''  '', d]"
  have len: "length out3 \<le> length out + 3" by (simp add: out3_def)
  have step: "export_events cap marshal ra (ev # evs) (first, out) = export_events cap marshal ra evs (False, out3)"
    using d Cons.prems(2) by (simp add: write_chunk_def out3_def)
  obtain out' where o: "export_events cap marshal ra evs (False, out3) = Inr (False, out')"
      "length out' \<le> length out3 + 3 * length evs"
      "concat out' = concat out3 @ (if evs = [] then [] else '','' @ nl) @
         Join ('','' @ nl) (map (\<lambda>ev. ''  '' @ the (marshal (sanitizeAuditEventForExport ra ev))) evs)"
    using Cons.IH [of out3 False] Cons.prems len by auto
  then show ?case using step len d by (cases evs) (auto simp: out3_def)
qed simp

lemma Join_append: "xs \<noteq> [] \<Longrightarrow> ys \<noteq> [] \<Longrightarrow> Join sep (xs @ ys) = Join sep xs @ sep @ Join sep ys"
proof (induction sep xs rule: Join.induct)
  case (2 sep s)
  then show ?case by (cases ys) auto
qed auto

lemma export_batches_complete:
  assumes "db_inv s" "\<And>i. ok i" "\<And>ev. marshal ev \<noteq> None"
    and "length out + 3 * (length (dbAudit s) - offset) \<le> cap" "first \<longleftrightarrow> offset = 0" "offset \<le> length (dbAudit s)"
  shows "\<exists>first' out'. export_batches cap marshal ra k ok s offset (first, out) = Inr (first', out') \<and>
      length out' \<le> length out + 3 * (length (dbAudit s) - offset) \<and>
      concat out' = concat out @ (if first \<or> offset = length (dbAudit s) then [] else '','' @ nl) @
        Join ('','' @ nl) (map (\<lambda>r. ''  '' @ exported_event marshal ra k r) (drop offset (dbAudit s)))"
  using assms
proof (induction "length (dbAudit s) - offset" arbitrary: offset first out rule: less_induct)
  case less
  let ?rows = "take batchSize (drop offset (dbAudit s))"
  have b: "0 < batchSize" by (simp add: batchSize_def)
  have list: "ListAuditEvents k (ok offset) (int batchSize) (int offset) s = Inr (map (scanAuditEvent k) ?rows)"
    using less.prems(1,2) by (simp add: ListAuditEvents_batch audit_sorted)
  show ?case
  proof (cases "offset = length (dbAudit s)")
    case True
    then show ?thesis using list by (subst export_batches.simps) simp
  next
    case False
    then have ne: "?rows \<noteq> []" using less.prems(6) b by simp
    have len: "length ?rows = min batchSize (length (dbAudit s) - offset)" by simp
    have cap: "length out + 3 * length ?rows \<le> cap" using less.prems(4) len by linarith
    obtain out1 where o: "export_events cap marshal ra (map (scanAuditEvent k) ?rows) (first, out) = Inr (False, out1)"
        "length out1 \<le> length out + 3 * length ?rows"
        "concat out1 = concat out @ (if first then [] else '','' @ nl) @
           Join ('','' @ nl) (map (\<lambda>r. ''  '' @ exported_event marshal ra k r) ?rows)"
      using concat_events [of "map (scanAuditEvent k) ?rows" marshal ra out cap first] less.prems(3) cap ne
      by (fastforce simp: exported_event_def comp_def)
    show ?thesis
    proof (cases "length ?rows < batchSize")
      case True
      then have "?rows = drop offset (dbAudit s)" by simp
      then show ?thesis
        using list ne o False True by (subst export_batches.simps) (auto simp: min_def)
    next
      case ge: False
      define off where "off = offset + length ?rows"
      have off: "off = offset + batchSize" "off \<le> length (dbAudit s)" "length ?rows = batchSize"
        using ge len less.prems(6) by (simp_all add: off_def min_def split: if_splits)
      have d: "drop offset (dbAudit s) = ?rows @ drop off (dbAudit s)"
        using off(1) by (metis add.commute append_take_drop_id drop_drop)
      have rec: "export_batches cap marshal ra k ok s offset (first, out) = export_batches cap marshal ra k ok s off (False, out1)"
        using list ne o ge by (subst export_batches.simps) (simp add: off_def)
      have m: "length (dbAudit s) - off < length (dbAudit s) - offset" "length out1 + 3 * (length (dbAudit s) - off) \<le> cap"
        using off b o(2) less.prems(4) by linarith+
      have z: "off \<noteq> 0" using off(1) b by simp
      obtain f' out' where r: "export_batches cap marshal ra k ok s off (False, out1) = Inr (f', out')"
          "length out' \<le> length out1 + 3 * (length (dbAudit s) - off)"
          "concat out' = concat out1 @ (if off = length (dbAudit s) then [] else '','' @ nl) @
             Join ('','' @ nl) (map (\<lambda>r. ''  '' @ exported_event marshal ra k r) (drop off (dbAudit s)))"
        using less.hyps [OF m(1) less.prems(1,2,3) m(2), of False] z off(2) by auto
      have "Join ('','' @ nl) (map (\<lambda>r. ''  '' @ exported_event marshal ra k r) (drop offset (dbAudit s))) =
          Join ('','' @ nl) (map (\<lambda>r. ''  '' @ exported_event marshal ra k r) ?rows) @
          (if off = length (dbAudit s) then [] else '','' @ nl) @
          Join ('','' @ nl) (map (\<lambda>r. ''  '' @ exported_event marshal ra k r) (drop off (dbAudit s)))"
      proof (cases "off = length (dbAudit s)")
        case True
        then have "drop offset (dbAudit s) = ?rows" using off by simp
        then show ?thesis using True by simp
      next
        case False
        then have "drop off (dbAudit s) \<noteq> []" using off(2) by simp
        then show ?thesis
          using False ne Join_append by (intro trans [OF arg_cong [OF arg_cong [OF d, of "map _", unfolded map_append], of "Join _"]]) simp
      qed
      then show ?thesis using rec r o(2,3) off False by auto
    qed
  qed
qed

section \<open>The decisions table as a document store\<close>

definition sqlite_docs :: "store_codec \<Rightarrow> SQLiteStore \<Rightarrow> string \<Rightarrow> DecisionDocument option" where
  "sqlite_docs k s i = (case map_of (dbDecisions s) i of None \<Rightarrow> None | Some row \<Rightarrow> docDec k (drDocumentJSON row))"

interpretation sql_store: decision_store "SaveDecision k ok now" "GetDecision k True" "sqlite_docs k" "codec_exact (docEnc k) (docDec k)"
proof unfold_locales
  fix d s s' assume a: "codec_exact (docEnc k) (docDec k) d" "SaveDecision k ok now d s = (None, s')"
  obtain b where b: "docEnc k d = Some b" using a(2) by (auto simp: SaveDecision_def split: if_splits option.splits)
  then have "docDec k b = Some d" using a(1) by (simp add: codec_exact_def)
  moreover obtain row where "drDocumentJSON row = b" "dbDecisions s' = AList.update (docDecisionID d) row (dbDecisions s)"
    using a(2) b by (force simp: SaveDecision_def Let_def split: if_splits prod.splits option.splits)
  ultimately show "sqlite_docs k s' = (sqlite_docs k s)(docDecisionID d \<mapsto> d)" by (auto simp: sqlite_docs_def fun_eq_iff)
next
  fix d s s' e assume "SaveDecision k ok now d s = (Some e, s')"
  then have "s' = s" by (simp add: SaveDecision_def Let_def split: if_splits option.splits prod.splits)
  then show "sqlite_docs k s' = sqlite_docs k s" by simp
next
  fix i s d
  show "GetDecision k True i s = Inr d \<longleftrightarrow> sqlite_docs k s i = Some d"
    by (auto simp: GetDecision_def sqlite_docs_def split: option.splits)
qed

section \<open>Properties\<close>

text \<open>
  C21. The audit log only grows. Along every sequence of store operations from the empty database,
  failing statements and interrupted migrations included, the log at an earlier point is a prefix
  of the log later, identifiers are consecutive from 1, and an event that could be read by its
  identifier reads the same ever after.
\<close>

theorem audit_log_append_only:
  assumes "store_reaches emptyDB s" "store_reaches s s'"
  shows "prefix (dbAudit s) (dbAudit s') \<and> map arID (dbAudit s') = map int [1..<Suc (length (dbAudit s'))] \<and>
         (GetAuditEvent k True i s = Inr ev \<longrightarrow> GetAuditEvent k True i s' = Inr ev)"
proof -
  have inv: "db_inv s'" using db_inv_reaches [OF db_inv_emptyDB] db_inv_reaches assms by blast
  obtain rows where rows: "dbAudit s' = dbAudit s @ rows" using audit_prefix [OF assms(2)] by (auto simp: prefix_def)
  have "find P (xs @ ys) = Some x" if "find P xs = Some x" for P xs ys and x :: audit_row
    using that by (induction xs) auto
  then have "GetAuditEvent k True i s' = Inr ev" if "GetAuditEvent k True i s = Inr ev"
    using that unfolding GetAuditEvent_def rows by (auto split: option.splits)
  then show ?thesis using inv rows unfolding db_inv_def by (metis prefixI)
qed

definition sample_columns :: store_codec where
  "sample_columns = \<lparr>metaEnc = (\<lambda>_. ''m''), metaDec = (\<lambda>_. None), snapEnc = (\<lambda>_. ''s''), snapDec = (\<lambda>_. None),
     decEnc = (\<lambda>_. ''d''), decDec = (\<lambda>_. None), docEnc = sample_render, docDec = sample_parse, sha256 = (\<lambda>t. t)\<rparr>"

definition sample_event :: "string \<Rightarrow> AuditEvent" where
  "sample_event ty = \<lparr>aeID = 0, aeEventTime = 7, aeEventType = ty, aePackage = ''left-pad'', aeVersion = ''1.0.0'',
     aeDecisionID = ''dec_1'', aeRuleID = ''r'', aeVerdict = ''allow'', aeActor = ''dana'', aeMetadata = None, aeSnapshot = None\<rparr>"

definition one_event_store :: SQLiteStore where
  "one_event_store = snd (snd (AppendAudit sample_columns (\<lambda>p f t. t) True 9 (sample_event ''decision'') emptyDB))"

lemma one_event_reaches: "store_reaches emptyDB one_event_store"
  unfolding one_event_store_def by (rule store_reaches_step [OF store_step.append])

theorem audit_log_append_only_witness:
  "prefix (dbAudit one_event_store)
     (dbAudit (snd (snd (AppendAudit sample_columns (\<lambda>p f t. t) True 9 (sample_event ''config_changed'') one_event_store))))"
  using audit_log_append_only [OF one_event_reaches store_reaches_step [OF store_step.append]] by blast


definition sample_approval :: Approval where
  "sample_approval = \<lparr>appID = ''a1'', appPackage = ''left-pad'', appVersion = ''^1.0.0'', appReason = ''reviewed'',
     appActor = ''dana'', appCreatedAt = 1, appExpiresAt = 100, appRevokedAt = None\<rparr>"

definition approval_store :: SQLiteStore where
  "approval_store = snd (CreateApproval True sample_approval emptyDB)"

lemma approval_store_rows: "store_reaches emptyDB approval_store \<and> dbApprovals approval_store = [sample_approval]"
proof -
  have "dbApprovals approval_store = [sample_approval]" by code_simp
  moreover have "store_reaches emptyDB approval_store"
    unfolding approval_store_def by (rule store_reaches_step [OF store_step.create])
  ultimately show ?thesis by blast
qed


text \<open>
  C27. Revocation is final: after a revocation that reported success, no later sequence of operations,
  attempts to create the same approval again included, makes the approval lookup return it.
\<close>

theorem revocation_is_final:
  assumes "RevokeApproval ok i t s = (None, s1)" "store_reaches s1 s2" "set (scan (dbApprovals s2)) = set (dbApprovals s2)"
  shows "FindActiveApproval scan ok' pkg version now s2 = Inr (Some a) \<longrightarrow> appID a \<noteq> i"
proof
  assume "FindActiveApproval scan ok' pkg version now s2 = Inr (Some a)"
  from FindActiveApproval_Some [OF this assms(3)] have a: "a \<in> set (dbApprovals s2)" "appRevokedAt a = None" by auto
  have "revoked i s2" using revoked_reaches [OF RevokeApproval_revokes [OF assms(1)] assms(2)] .
  then show "appID a \<noteq> i" using a by (auto simp: revoked_def)
qed

theorem revocation_is_final_witness:
  "FindActiveApproval (\<lambda>xs. xs) True ''left-pad'' ''1.2.3'' 50
     (snd (CreateApproval True sample_approval (snd (RevokeApproval True ''a1'' 40 approval_store)))) \<noteq> Inr (Some sample_approval)"
proof -
  have "fst (RevokeApproval True ''a1'' 40 approval_store) = None" by code_simp
  then have "RevokeApproval True ''a1'' 40 approval_store = (None, snd (RevokeApproval True ''a1'' 40 approval_store))"
    by (metis prod.collapse)
  from revocation_is_final [where scan = "\<lambda>xs. xs" and a = sample_approval, OF this store_reaches_step [OF store_step.create] refl]
  have "FindActiveApproval (\<lambda>xs. xs) True ''left-pad'' ''1.2.3'' 50
      (snd (CreateApproval True sample_approval (snd (RevokeApproval True ''a1'' 40 approval_store)))) = Inr (Some sample_approval) \<longrightarrow>
      appID sample_approval \<noteq> ''a1''" .
  moreover have "appID sample_approval = ''a1''" by (simp add: sample_approval_def)
  ultimately show ?thesis by blast
qed

text \<open>
  C24. The paged export is the whole log: for a reachable database of any size, when the queries, the
  encoder and the writer do not fail, the loop over batches of 250 ends and what it writes is one
  JSON array of all events in order, none missing and none twice, each sanitised.
\<close>

theorem export_is_whole_log:
  assumes "store_reaches emptyDB s" "\<forall>i. ok i" "\<forall>ev. marshal ev \<noteq> None" "3 * length (dbAudit s) + 2 \<le> cap"
  shows "\<exists>out. ExportAuditJSON cap marshal ra k ok s = Inr out \<and>
               concat out = exported_text (map (exported_event marshal ra k) (dbAudit s))"
proof -
  have inv: "db_inv s" by (rule db_inv_reaches [OF db_inv_emptyDB assms(1)])
  obtain f out where o: "export_batches cap marshal ra k ok s 0 (True, [''['' @ nl]) = Inr (f, out)"
      "length out \<le> 1 + 3 * length (dbAudit s)"
      "concat out = ''['' @ nl @ Join ('','' @ nl) (map (\<lambda>r. ''  '' @ exported_event marshal ra k r) (dbAudit s))"
    using export_batches_complete [OF inv, of ok marshal "[''['' @ nl]" 0 cap True ra k] assms(2-4) by auto
  then have "ExportAuditJSON cap marshal ra k ok s = Inr (out @ [nl @ '']'' @ nl])"
    using assms(4) by (simp add: ExportAuditJSON_def write_chunk_def)
  then show ?thesis using o(3) by (auto simp: exported_text_def comp_def)
qed

theorem export_is_whole_log_witness:
  "\<exists>out. ExportAuditJSON 5 (\<lambda>ev. Some (aeEventType ev)) (\<lambda>p f t. t) sample_columns (\<lambda>_. True) one_event_store = Inr out \<and>
     concat out = exported_text [''decision'']"
proof -
  have "map (exported_event (\<lambda>ev. Some (aeEventType ev)) (\<lambda>p f t. t) sample_columns) (dbAudit one_event_store) = [''decision'']"
    by code_simp
  moreover have "length (dbAudit one_event_store) = 1" by code_simp
  ultimately show ?thesis
    using export_is_whole_log [OF one_event_reaches, of "\<lambda>_. True" "\<lambda>ev. Some (aeEventType ev)" 5 "\<lambda>p f t. t" sample_columns] by simp
qed

end
