(* ===== verification/Pipeline.thy ===== *)
theory Pipeline
  imports Policy
begin

text \<open>
  From providers to a verdict: the assembler over \<open>MemoryCache\<close> followed by the policy. The
  lemmas about assembly are proved once over the cache contract and used here through its
  interpretation.
\<close>

section \<open>One provider at a time\<close>

lemma map_add_upd_left_move: "k \<notin> dom n \<Longrightarrow> m(k \<mapsto> s) ++ n = m ++ n(k \<mapsto> s)"
  by (auto simp: map_add_def fun_eq_iff split: option.splits)

context evidence_cache
begin

text \<open>With one provider per kind, what each provider contributes depends on the cache the assembly
  started from and not on the providers that ran before it.\<close>

lemma choose_outcome_cong:
  assumes "opGet ops c (provKind p) pkg v now = opGet ops c' (provKind p) pkg v now"
  shows "fst (choose_outcome ops fp now pkg v p c) = fst (choose_outcome ops fp now pkg v p c')"
  using assms by (simp add: choose_outcome_def Let_def)

lemma fold_provider_independent:
  assumes "\<forall>p \<in> set ps. own_kind p" "distinct (map provKind ps)"
    and "\<forall>p \<in> set ps. opGet ops (asCache st) (provKind p) pkg v now = opGet ops c (provKind p) pkg v now"
  shows "asObservations (fold (provider_step ops fp now pkg v) ps st) = asObservations st @
           concat (map (\<lambda>p. map (complete_signal fp now)
                     (Outcome_Signals (fst (choose_outcome ops fp now pkg v p c)))) ps) \<and>
         map_of (asStates (fold (provider_step ops fp now pkg v) ps st)) =
           map_of (asStates st) ++ map_of (map (\<lambda>p. (provKind p, Outcome_State (fst (choose_outcome ops fp now pkg v p c)))) ps)"
  using assms
proof (induction ps arbitrary: st)
  case (Cons p ps)
  let ?st = "provider_step ops fp now pkg v p st"
  let ?g = "\<lambda>p. (provKind p, Outcome_State (fst (choose_outcome ops fp now pkg v p c)))"
  have out: "fst (choose_outcome ops fp now pkg v p (asCache st)) = fst (choose_outcome ops fp now pkg v p c)"
    using Cons.prems(3) by (intro choose_outcome_cong) simp
  have obs: "asObservations ?st = asObservations st @
      map (complete_signal fp now) (Outcome_Signals (fst (choose_outcome ops fp now pkg v p c)))"
    and states: "map_of (asStates ?st) =
      (map_of (asStates st))(provKind p \<mapsto> Outcome_State (fst (choose_outcome ops fp now pkg v p c)))"
    using out by (auto simp: provider_step_def split: prod.splits)
  have cache: "\<forall>q \<in> set ps. opGet ops (asCache ?st) (provKind q) pkg v now = opGet ops c (provKind q) pkg v now"
  proof
    fix q assume q: "q \<in> set ps"
    then have "outKind (Provide p \<lparr>qPackage = pkg, qVersion = v\<rparr>) \<noteq> provKind q"
      using Cons.prems(1,2) by (auto simp: own_kind_def)
    then show "opGet ops (asCache ?st) (provKind q) pkg v now = opGet ops c (provKind q) pkg v now"
      using Cons.prems(3) q by (simp add: choose_outcome_cache_other)
  qed
  have "provKind p \<notin> provKind ` set ps" using Cons.prems(2) by simp
  then have map_of_own_key: "(m(provKind p \<mapsto> s)) ++ map_of (map (\<lambda>p. (provKind p, g p)) ps)
      = m ++ ((map_of (map (\<lambda>p. (provKind p, g p)) ps))(provKind p \<mapsto> s))" for m s and g :: "Provider \<Rightarrow> State"
    by (intro map_add_upd_left_move) (auto simp: dom_map_of_conv_image_fst image_image)
  have rest: "\<forall>q \<in> set ps. own_kind q" "distinct (map provKind ps)" using Cons.prems(1,2) by auto
  have "asObservations (fold (provider_step ops fp now pkg v) (p # ps) st) = asObservations st @
      concat (map (\<lambda>p. map (complete_signal fp now)
                (Outcome_Signals (fst (choose_outcome ops fp now pkg v p c)))) (p # ps))"
    using Cons.IH [OF rest cache] obs by simp
  moreover have "map_of (asStates (fold (provider_step ops fp now pkg v) (p # ps) st)) = map_of (asStates st) ++
      map_of (map ?g (p # ps))"
  proof -
    have "map_of (asStates (fold (provider_step ops fp now pkg v) (p # ps) st)) = map_of (asStates ?st) ++ map_of (map ?g ps)"
      using Cons.IH [OF rest cache] by simp
    also have "\<dots> = map_of (asStates st) ++ (map_of (map ?g ps))
        (provKind p \<mapsto> Outcome_State (fst (choose_outcome ops fp now pkg v p c)))"
      unfolding states by (rule map_of_own_key)
    finally show ?thesis by simp
  qed
  ultimately show ?case by blast
qed simp

lemma wf_states_provider:
  "wf_map (asStates st) \<Longrightarrow> wf_map (asStates (fold (provider_step ops fp now pkg v) ps st))"
  by (induction ps arbitrary: st) (auto simp: provider_step_def split: prod.splits)

end

lemma wf_states_required: "wf_map (asStates st) \<Longrightarrow> wf_map (asStates (fold (required_step now) ks st))"
  by (induction ks arbitrary: st) (auto simp: required_step_def)

text \<open>The required kinds depend on what is covered, not on the order in which it was covered.\<close>

lemma fold_required_observations:
  "asObservations (fold (required_step now) ks st) = asObservations st @
     map (\<lambda>k. \<lparr>sigKind = k, sigSource = ''assembler'', sigObservation = ''unavailable'',
       sigConfidence = ConfidenceNone, sigRetrievedAt = now, sigFreshUntil = now\<rparr>)
       (filter (\<lambda>k. k \<notin> set (asCovered st)) ks)"
  by (induction ks arbitrary: st) (auto simp: required_step_def)

section \<open>The order of the providers\<close>

lemma mset_concat_map: "mset xs = mset ys \<Longrightarrow> mset (concat (map f xs)) = mset (concat (map f ys))"
proof -
  have "mset (concat (map f zs)) = (\<Sum>x \<in># mset zs. mset (f x))" for zs by (induction zs) auto
  then show "mset xs = mset ys \<Longrightarrow> ?thesis" by simp
qed

lemma mset_perm_map_of:
  assumes "mset xs = mset ys" "distinct (map fst xs)"
  shows "map_of xs = map_of ys"
proof -
  have "distinct (map fst ys)" using assms by (metis mset_eq_imp_distinct_iff mset_map)
  moreover have "set xs = set ys" using assms(1) by (rule mset_eq_setD)
  ultimately show ?thesis using assms(2) by (simp add: map_of_inject_set)
qed

lemma assemble_run_perm:
  fixes c :: MemoryCache and now :: gotime and pkg v :: string
  assumes own: "\<forall>p \<in> set (asmProviders a). own_kind p" and dist: "distinct (map provKind (asmProviders a))"
    and perm: "mset ps = mset (asmProviders a)"
  defines "s \<equiv> assemble_run memory_ops a now pkg v c"
    and "s' \<equiv> assemble_run memory_ops (a\<lparr>asmProviders := ps\<rparr>) now pkg v c"
  shows "mset (asObservations s') = mset (asObservations s)" "map_of (asStates s') = map_of (asStates s)"
    "wf_map (asStates s)" "wf_map (asStates s')"
proof -
  let ?fp = "asmFreshness a"
  let ?s0 = "\<lparr>asObservations = cached_allow_observations memory_ops c pkg v now, asStates = [],
      asCovered = [], asCache = c\<rparr>"
  let ?run = "\<lambda>qs. fold (provider_step memory_ops ?fp now pkg v) qs ?s0"
  have own': "\<forall>p \<in> set ps. own_kind p" and dist': "distinct (map provKind ps)"
    using own dist perm by (metis mset_eq_setD, metis mset_eq_imp_distinct_iff mset_map)
  note ind = mem_cache.fold_provider_independent [where st = ?s0 and c = c and fp = ?fp and now = now
      and pkg = pkg and v = v]
  have triv: "\<forall>p \<in> set qs. opGet memory_ops (asCache ?s0) (provKind p) pkg v now
      = opGet memory_ops c (provKind p) pkg v now" for qs by simp
  have obs: "mset (asObservations (?run ps)) = mset (asObservations (?run (asmProviders a)))"
    using conjunct1 [OF ind [OF own' dist' triv]] conjunct1 [OF ind [OF own dist triv]] mset_concat_map [OF perm] by simp
  let ?st = "\<lambda>p. (provKind p, Outcome_State (fst (choose_outcome memory_ops ?fp now pkg v p c)))"
  have "map_of (map ?st ps) = map_of (map ?st (asmProviders a))"
    using perm dist' by (intro mset_perm_map_of) (auto simp: mset_map comp_def)
  then have st: "map_of (asStates (?run ps)) = map_of (asStates (?run (asmProviders a)))"
    using conjunct2 [OF ind [OF own' dist' triv]] conjunct2 [OF ind [OF own dist triv]] by simp
  have cov: "set (asCovered (?run ps)) = set (asCovered (?run (asmProviders a)))"
    using mset_eq_setD [OF perm] by (simp add: fold_provider_covered)
  show "mset (asObservations s') = mset (asObservations s)"
    using obs cov by (simp add: s_def s'_def assemble_run_def Let_def fold_required_observations)
  show "map_of (asStates s') = map_of (asStates s)"
    using st cov by (simp add: s_def s'_def assemble_run_def Let_def fold_required fun_eq_iff)
  show "wf_map (asStates s)" "wf_map (asStates s')"
    by (simp_all add: s_def s'_def assemble_run_def Let_def wf_states_required mem_cache.wf_states_provider)
qed

section \<open>Properties\<close>

text \<open>
  C34. An outage reaches the verdict. With one provider per kind, if a provider answers unavailable
  and no cached evidence of its kind is usable, then the snapshot shows the kind as unavailable and
  no policy allows the package except, outside the strict profile, as a degraded allow resting on a
  fresh cached allow decision.
\<close>

theorem provider_outage_reaches_verdict:
  fixes sha256_hex :: "string \<Rightarrow> string"
  assumes "p \<in> set (asmProviders a)" "\<forall>q \<in> set (asmProviders a). own_kind q"
    and "distinct (map provKind (asmProviders a))"
    and "IsUnavailable (Provide p \<lparr>qPackage = pkg, qVersion = v\<rparr>)"
    and "MemoryCache_Get c (provKind p) pkg v (normalizeTime clock) = None"
  defines "snap \<equiv> fst (Assemble sha256_hex memory_ops a clock pkg v c)"
  shows "Snapshot_State snap (provKind p) = StateUnavailable \<and>
         (held (decVerdict (Policy_EvaluateSnapshot pol snap)) \<or>
          decVerdict (Policy_EvaluateSnapshot pol snap) = Allow \<and> decDegraded (Policy_EvaluateSnapshot pol snap)
            \<and> polProfile pol \<noteq> Strict \<and> (\<exists>ob \<in> set (snapObservations snap). cache_allow_signal ob))"
proof -
  obtain bef aft where ps: "asmProviders a = bef @ p # aft" using assms(1) by (meson split_list)
  have st: "map_of (snapProviderStates snap) (provKind p) = Some StateUnavailable"
    using mem_cache.outage_run(1) [OF ps assms(2-4)] assms(5)
    by (simp add: snap_def Assemble_def Let_def memory_ops_def)
  then have "StateUnavailable \<in> snd ` set (snapProviderStates snap)" by (rule in_snd_map_of)
  then have "HasUnavailableEvidence snap" by (simp add: HasUnavailableEvidence_iff)
  then show ?thesis using st policy_outage by (simp add: Snapshot_State_def)
qed

definition outage_provider :: Provider where
  "outage_provider = \<lparr>provKind = KindMalicious,
     Provide = (\<lambda>q. NewUnavailableOutcome KindMalicious ''osv'' (Some ''timeout'') 5000000)\<rparr>"

theorem provider_outage_reaches_verdict_witness:
  "Snapshot_State (fst (Assemble (\<lambda>s. s) memory_ops (WithProviders [outage_provider] NewAssembler) 9000000
      ''left-pad'' ''1.0.0'' NewMemoryCache)) KindMalicious = StateUnavailable"
proof -
  have "provKind outage_provider = KindMalicious" by (simp add: outage_provider_def)
  then show ?thesis
    using conjunct1 [OF provider_outage_reaches_verdict [where p = outage_provider
        and a = "WithProviders [outage_provider] NewAssembler" and pkg = "''left-pad''" and v = "''1.0.0''"
        and c = NewMemoryCache and clock = 9000000 and sha256_hex = "\<lambda>s. s"]]
    by (simp add: WithProviders_def NewAssembler_def own_kind_def outage_provider_def NewUnavailableOutcome_def
        IsUnavailable_def Outcome_State_def MemoryCache_Get_def NewMemoryCache_def Let_def)
qed

text \<open>
  A required kind that no provider covers is visibly unavailable: its state and an observation
  say so, and under the strict profile the package is held.
\<close>

lemma uncovered_required_kind_is_unavailable:
  fixes c :: MemoryCache and sha256_hex :: "string \<Rightarrow> string" and clock :: gotime and pkg v :: string
  assumes "k \<in> set (asmRequiredKinds a)" "k \<notin> provKind ` set (asmProviders a)"
  defines "snap \<equiv> fst (Assemble sha256_hex memory_ops a clock pkg v c)"
  shows "Snapshot_State snap k = StateUnavailable \<and>
         (\<exists>ob \<in> set (snapObservations snap). sigKind ob = k \<and> sigObservation ob = ''unavailable'') \<and>
         (polProfile pol = Strict \<longrightarrow> held (decVerdict (Policy_EvaluateSnapshot pol snap)))"
proof -
  let ?st = "assemble_run memory_ops a (normalizeTime clock) pkg v c"
  have "map_of (snapProviderStates snap) k = Some StateUnavailable"
    using required_kind_run(1) [OF assms(1,2)] by (simp add: snap_def Assemble_def Let_def)
  moreover have obs: "\<exists>ob \<in> set (snapObservations snap). sigKind ob = k \<and> sigObservation ob = ''unavailable''"
    using required_kind_run(2) [OF assms(1,2), of memory_ops "normalizeTime clock" pkg v c]
    by (simp add: snap_def Assemble_def Let_def
        observations_canonical_iff [where P = "\<lambda>i j. i = k \<and> j = ''unavailable''"])
  moreover have "HasUnavailableEvidence snap" using obs by (auto simp: HasUnavailableEvidence_iff)
  ultimately show ?thesis using policy_outage [of snap pol] by (auto simp: Snapshot_State_def)
qed

text \<open>
  Decisions are deterministic in the evidence: registering the same providers in another order
  gives the same snapshot identity, the same observations and the same decision under every policy.
\<close>

lemma provider_order_irrelevant:
  fixes c :: MemoryCache and sha256_hex :: "string \<Rightarrow> string"
  assumes "\<forall>q \<in> set (asmProviders a). own_kind q" "distinct (map provKind (asmProviders a))"
    and "mset ps = mset (asmProviders a)"
    and "\<forall>ob \<in> set (asObservations (assemble_run memory_ops a (normalizeTime clock) pkg v c)). timed ob"
  defines "snap \<equiv> fst (Assemble sha256_hex memory_ops a clock pkg v c)"
    and "snap' \<equiv> fst (Assemble sha256_hex memory_ops (a\<lparr>asmProviders := ps\<rparr>) clock pkg v c)"
  shows "snapID snap' = snapID snap \<and> snapObservations snap' = snapObservations snap \<and>
         Policy_EvaluateSnapshot pol snap' = Policy_EvaluateSnapshot pol snap"
proof -
  let ?now = "normalizeTime clock"
  note perm = assemble_run_perm [OF assms(1-3), where now = ?now and pkg = pkg and v = v and c = c]
  have same: "snapID snap' = snapID snap \<and> snapObservations snap' = snapObservations snap"
    unfolding snap_def snap'_def Assemble_def Let_def fst_conv
    by (rule NewSnapshot_perm [OF assms(4) perm(1) perm(3) perm(4)]) (simp add: perm(2))
  have "snd ` set (snapProviderStates snap') = snd ` set (snapProviderStates snap)"
    using map_of_image_snd [OF perm(4,3,2)] by (simp add: snap_def snap'_def Assemble_def Let_def)
  then have "HasUnavailableEvidence snap' \<longleftrightarrow> HasUnavailableEvidence snap"
    using same by (simp add: HasUnavailableEvidence_iff)
  then show ?thesis
    using same by (simp add: Policy_EvaluateSnapshot_def Policy_Assess_def AssessWithThreshold_def)
qed

definition clean_provider :: "string \<Rightarrow> Provider" where
  "clean_provider k = \<lparr>provKind = k, Provide = (\<lambda>q. NewAvailableOutcome k ''osv'' [sample_signal k ''none'' 7] 7 9)\<rparr>"

end
