(* ===== verification/Engine.thy ===== *)
theory Engine
  imports Audit_Log Pipeline
begin

text \<open>
  The decision engine shared by the gateway, the command line and the MCP server:
  \<^verbatim>\<open>src/internal/gateway/engine.go\<close>. What it uses of the \<^verbatim>\<open>store.Store\<close> interface is the record
  \<open>Store_ops\<close>, the contract is the locale \<open>engine_store\<close>, and the SQLite store of the program
  is its interpretation. A missing store or assembler is \<^term>\<open>None\<close>.
\<close>

section \<open>The engine\<close>

record 's Store_ops =
  stFindActiveApproval :: "string \<Rightarrow> string \<Rightarrow> gotime \<Rightarrow> 's \<Rightarrow> store_error + Approval option"
  stSaveDecision :: "gotime \<Rightarrow> DecisionDocument \<Rightarrow> 's \<Rightarrow> store_error option \<times> 's"
  stAppendAudit :: "gotime \<Rightarrow> AuditEvent \<Rightarrow> 's \<Rightarrow> store_error option \<times> AuditEvent \<times> 's"

record 's Engine =
  engPolicy :: Policy
  engStore :: "'s Store_ops option"
  engActor :: string

definition NewEngine :: "Policy option \<Rightarrow> 's Store_ops option \<Rightarrow> string \<Rightarrow> 's Engine" where
  "NewEngine pol store actor =
     \<lparr>engPolicy = (case pol of None \<Rightarrow> NewDefaultPolicy | Some p \<Rightarrow> p), engStore = store,
      engActor = (if actor = [] then ''engine'' else actor)\<rparr>"

definition approval_reason :: "Approval \<Rightarrow> Reason" where
  "approval_reason app =
     \<lparr>reasonRuleID = ''approval.granted'',
      reasonSummary = ''active human approval ('' @ appID app @ '') granted by '' @ appActor app @ '': '' @ appReason app,
      reasonSignalKinds = []\<rparr>"

text \<open>The decision after the approvals have been consulted; a failing lookup grants nothing.\<close>

definition apply_approval :: "'s Store_ops option \<Rightarrow> gotime \<Rightarrow> string \<Rightarrow> string \<Rightarrow> 's \<Rightarrow> Decision \<Rightarrow> Decision" where
  "apply_approval store now pkg version s dec =
     (case store of
        None \<Rightarrow> dec
      | Some ops \<Rightarrow>
          if decVerdict dec \<noteq> ApprovalRequired then dec
          else (case stFindActiveApproval ops pkg version now s of
                  Inr (Some app) \<Rightarrow> dec\<lparr>decVerdict := Allow, decReasons := decReasons dec @ [approval_reason app]\<rparr>
                | _ \<Rightarrow> dec))"

definition decision_event :: "gotime \<Rightarrow> string \<Rightarrow> Snapshot \<Rightarrow> Decision \<Rightarrow> DecisionDocument \<Rightarrow> AuditEvent" where
  "decision_event now actor snap dec doc =
     \<lparr>aeID = 0, aeEventTime = now, aeEventType = ''decision'', aePackage = snapPkg snap, aeVersion = snapVersion snap,
      aeDecisionID = docDecisionID doc,
      aeRuleID = (case decReasons dec of [] \<Rightarrow> [] | r # _ \<Rightarrow> reasonRuleID r),
      aeVerdict = docVerdict doc, aeActor = actor, aeMetadata = None, aeSnapshot = Some snap\<rparr>"

definition Engine_EvaluateSnapshot ::
  "regexes \<Rightarrow> (string \<Rightarrow> string) \<Rightarrow> gotime \<Rightarrow> 's Engine \<Rightarrow> Snapshot \<Rightarrow> 's \<Rightarrow> (coord_error + DecisionDocument) \<times> 's" where
  "Engine_EvaluateSnapshot re sha now eng snap s =
     (let dec = apply_approval (engStore eng) now (snapPkg snap) (snapVersion snap) s (Policy_EvaluateSnapshot (engPolicy eng) snap) in
      case NewDecisionDocument re sha now (snapPkg snap) (snapVersion snap) dec snap emptyConfig of
        Inl e \<Rightarrow> (Inl e, s)
      | Inr doc \<Rightarrow>
          (case engStore eng of
             None \<Rightarrow> (Inr doc, s)
           | Some ops \<Rightarrow>
               if engActor eng = [] then (Inr doc, s)
               else let s1 = snd (stSaveDecision ops now doc s)
                    in (Inr doc, snd (snd (stAppendAudit ops now (decision_event now (engActor eng) snap dec doc) s1)))))"

datatype engine_error = ErrNoAssembler | ErrAssemble string | ErrCoordinates coord_error

definition Engine_Evaluate ::
  "regexes \<Rightarrow> (string \<Rightarrow> string) \<Rightarrow> gotime \<Rightarrow> (string \<Rightarrow> string \<Rightarrow> string + Snapshot) option \<Rightarrow> 's Engine \<Rightarrow> string \<Rightarrow> string \<Rightarrow> 's \<Rightarrow>
   (engine_error + DecisionDocument) \<times> 's" where
  "Engine_Evaluate re sha now assembler eng pkg version s =
     (case assembler of
        None \<Rightarrow> (Inl ErrNoAssembler, s)
      | Some assemble \<Rightarrow> (case assemble pkg version of
            Inl e \<Rightarrow> (Inl (ErrAssemble e), s)
          | Inr snap \<Rightarrow> (case Engine_EvaluateSnapshot re sha now eng snap s of
                (Inl e, s') \<Rightarrow> (Inl (ErrCoordinates e), s')
              | (Inr doc, s') \<Rightarrow> (Inr doc, s'))))"

section \<open>The store contract\<close>

text \<open>
  What the engine relies on: a lookup answers only with a stored approval that is active and covers
  the question; recording decisions and events does not touch approvals; the log of (decision,
  verdict) pairs grows by the appended event and by nothing else.
\<close>

locale engine_store =
  fixes ops :: "'s Store_ops"
    and approvals :: "'s \<Rightarrow> Approval set"
    and log :: "'s \<Rightarrow> (string \<times> string) list"
    and readable :: "'s \<Rightarrow> bool"
    and recorded :: "string \<Rightarrow> string"
  assumes find_active:
      "readable s \<Longrightarrow> stFindActiveApproval ops pkg version now s = Inr (Some a) \<Longrightarrow>
       a \<in> approvals s \<and> appPackage a = pkg \<and> IsActive a now \<and> matchApprovalVersion (appVersion a) version"
    and save_frame: "approvals (snd (stSaveDecision ops now d s)) = approvals s" "log (snd (stSaveDecision ops now d s)) = log s"
    and append_frame: "approvals (snd (snd (stAppendAudit ops now ev s))) = approvals s"
    and append_log:
      "log (snd (snd (stAppendAudit ops now ev s))) =
         log s @ (if fst (stAppendAudit ops now ev s) = None then [(aeDecisionID ev, recorded (aeVerdict ev))] else [])"
begin

lemma apply_approval_cases:
  assumes "readable s"
  shows "apply_approval (Some ops) now pkg version s dec = dec \<or>
    (decVerdict dec = ApprovalRequired \<and> (\<exists>a \<in> approvals s. appPackage a = pkg \<and> IsActive a now \<and>
       matchApprovalVersion (appVersion a) version \<and>
       apply_approval (Some ops) now pkg version s dec = dec\<lparr>decVerdict := Allow, decReasons := decReasons dec @ [approval_reason a]\<rparr>))"
proof (cases "decVerdict dec = ApprovalRequired \<and> (\<exists>a. stFindActiveApproval ops pkg version now s = Inr (Some a))")
  case True
  then obtain a where a: "stFindActiveApproval ops pkg version now s = Inr (Some a)" "decVerdict dec = ApprovalRequired" by blast
  then show ?thesis using find_active [OF assms a(1)] by (intro disjI2) (auto simp: apply_approval_def)
next
  case False
  then have "apply_approval (Some ops) now pkg version s dec = dec"
    by (cases "stFindActiveApproval ops pkg version now s") (auto simp: apply_approval_def split: option.split)
  then show ?thesis ..
qed

lemma EvaluateSnapshot_doc:
  assumes "engStore eng = Some ops" "readable s" "Engine_EvaluateSnapshot re sha now eng snap s = (Inr doc, s')"
  obtains dec where "NewDecisionDocument re sha now (snapPkg snap) (snapVersion snap) dec snap emptyConfig = Inr doc"
    "dec = apply_approval (Some ops) now (snapPkg snap) (snapVersion snap) s (Policy_EvaluateSnapshot (engPolicy eng) snap)"
  using assms by (auto simp: Engine_EvaluateSnapshot_def Let_def split: sum.splits if_splits)

lemma verdict_from_policy:
  assumes "engStore eng = Some ops" "readable s" "Engine_EvaluateSnapshot re sha now eng snap s = (Inr doc, s')"
  shows "docVerdict doc = kind_string (decVerdict (Policy_EvaluateSnapshot (engPolicy eng) snap)) \<or>
    (decVerdict (Policy_EvaluateSnapshot (engPolicy eng) snap) = ApprovalRequired \<and> docVerdict doc = kind_string Allow \<and>
     (\<exists>a \<in> approvals s. appPackage a = snapPkg snap \<and> IsActive a now \<and> matchApprovalVersion (appVersion a) (snapVersion snap)))"
proof -
  obtain dec where d: "NewDecisionDocument re sha now (snapPkg snap) (snapVersion snap) dec snap emptyConfig = Inr doc"
      "dec = apply_approval (Some ops) now (snapPkg snap) (snapVersion snap) s (Policy_EvaluateSnapshot (engPolicy eng) snap)"
    by (rule EvaluateSnapshot_doc [OF assms])
  from apply_approval_cases [OF assms(2), of now "snapPkg snap" "snapVersion snap" "Policy_EvaluateSnapshot (engPolicy eng) snap"]
  show ?thesis unfolding NewDecisionDocument_Inr(1) [OF d(1)] d(2) [symmetric] by (elim disjE) auto
qed

lemma evaluation_log:
  assumes "engStore eng = Some ops" "engActor eng \<noteq> []" "Engine_EvaluateSnapshot re sha now eng snap s = (Inr doc, s')"
  shows "approvals s' = approvals s \<and> (log s' = log s \<or> log s' = log s @ [(docDecisionID doc, recorded (docVerdict doc))])"
  using assms
  by (auto simp: Engine_EvaluateSnapshot_def Let_def decision_event_def append_log append_frame save_frame split: sum.splits if_splits)

end

section \<open>The SQLite store\<close>

datatype engine_call = CallFind | CallSave | CallAudit

definition sqlite_ops :: "store_codec \<Rightarrow> replace_all \<Rightarrow> approval_scan \<Rightarrow> (engine_call \<Rightarrow> bool) \<Rightarrow> SQLiteStore Store_ops" where
  "sqlite_ops k ra scan ok =
     \<lparr>stFindActiveApproval = FindActiveApproval scan (ok CallFind), stSaveDecision = SaveDecision k (ok CallSave),
      stAppendAudit = AppendAudit k ra (ok CallAudit)\<rparr>"

definition scan_complete :: "approval_scan \<Rightarrow> SQLiteStore \<Rightarrow> bool" where
  "scan_complete scan s = (set (scan (dbApprovals s)) = set (dbApprovals s))"

definition audit_pairs :: "SQLiteStore \<Rightarrow> (string \<times> string) list" where
  "audit_pairs s = map (\<lambda>r. (arDecisionID r, arVerdict r)) (dbAudit s)"

lemma SaveDecision_frame:
  "dbApprovals (snd (SaveDecision k ok now d s)) = dbApprovals s" "dbAudit (snd (SaveDecision k ok now d s)) = dbAudit s"
  "dbAuditSeq (snd (SaveDecision k ok now d s)) = dbAuditSeq s"
  by (simp_all add: SaveDecision_def Let_def split: option.split prod.split)

interpretation sqlite: engine_store "sqlite_ops k ra scan ok" "\<lambda>s. set (dbApprovals s)" audit_pairs "scan_complete scan"
  "RedactSensitiveString ra"
proof unfold_locales
  fix s pkg version now a
  assume "scan_complete scan s" "stFindActiveApproval (sqlite_ops k ra scan ok) pkg version now s = Inr (Some a)"
  then show "a \<in> set (dbApprovals s) \<and> appPackage a = pkg \<and> IsActive a now \<and> matchApprovalVersion (appVersion a) version"
    using FindActiveApproval_Some [of scan "ok CallFind" pkg version now s a] by (auto simp: sqlite_ops_def scan_complete_def IsActive_def)
qed (simp_all add: sqlite_ops_def SaveDecision_frame audit_pairs_def AppendAudit_def Let_def)

text \<open>An evaluation of valid coordinates always yields a document.\<close>

lemma NewDecisionDocument_total:
  "ValidateCoordinates pkg v = None \<Longrightarrow> \<exists>doc. NewDecisionDocument re sha now pkg v dec snap cfg = Inr doc"
  unfolding NewDecisionDocument_def Let_def by simp

lemma EvaluateSnapshot_total:
  assumes "ValidateCoordinates (snapPkg snap) (snapVersion snap) = None"
  shows "\<exists>doc s'. Engine_EvaluateSnapshot re sha now eng snap s = (Inr doc, s')"
proof -
  define dec where "dec = apply_approval (engStore eng) now (snapPkg snap) (snapVersion snap) s (Policy_EvaluateSnapshot (engPolicy eng) snap)"
  obtain doc where "NewDecisionDocument re sha now (snapPkg snap) (snapVersion snap) dec snap emptyConfig = Inr doc"
    using NewDecisionDocument_total [OF assms] by blast
  then show ?thesis unfolding Engine_EvaluateSnapshot_def dec_def [symmetric] Let_def
    by (cases "engStore eng"; cases "engActor eng = []") simp_all
qed

lemma sample_coordinates: "ValidateCoordinates ''left-pad'' ''1.0.0'' = None"
  by code_simp

section \<open>The recorded event\<close>

lemma filter_sorted_rows: "db_inv s \<Longrightarrow> sort_key arID (filter P (dbAudit s)) = filter P (dbAudit s)"
  using audit_sorted [of s] by (metis filter_sort)

lemma FindAuditByDecision_last:
  assumes "db_inv s" "dbAudit s = rows @ [r]" "arDecisionID r = i"
  shows "FindAuditByDecision k True i s = Inr (scanAuditEvent k r)"
  using filter_sorted_rows [OF assms(1), of "\<lambda>r. arDecisionID r = i"] assms(2,3) by (simp add: FindAuditByDecision_def)

lemma engine_step_reaches:
  "store_reaches s (snd (snd (AppendAudit k ra ok now ev (snd (SaveDecision k ok' now' doc s)))))"
  using store_step.decide [of s k ok' now' doc] store_step.append [of "snd (SaveDecision k ok' now' doc s)" k ra ok now ev]
  unfolding store_reaches_def by (meson converse_rtranclp_into_rtranclp r_into_rtranclp)

lemma snapID_NewSnapshot [simp]: "snapID (NewSnapshot h pkg v obs st t) \<noteq> []"
  by (simp add: NewSnapshot_def Let_def computeSnapshotID_def)

section \<open>Properties\<close>

text \<open>
  C4. An approval only ever lifts a hold. The verdict the engine reports on a reachable database is
  the policy's own; or the policy asked for approval, the verdict is allow, and the database has an
  active approval for the package and version, with a reason, by an actor that is not classified as
  automated. A block is therefore never lifted.
\<close>

theorem approval_only_lifts_hold:
  assumes "store_reaches emptyDB s" "scan_complete scan s" "engStore eng = Some (sqlite_ops k ra scan ok)"
    and "Engine_EvaluateSnapshot re sha now eng snap s = (Inr doc, s')"
  shows "docVerdict doc = kind_string (decVerdict (Policy_EvaluateSnapshot (engPolicy eng) snap)) \<or>
    (decVerdict (Policy_EvaluateSnapshot (engPolicy eng) snap) = ApprovalRequired \<and> docVerdict doc = kind_string Allow \<and>
     (\<exists>a \<in> set (dbApprovals s). appPackage a = snapPkg snap \<and> IsActive a now \<and>
        matchApprovalVersion (appVersion a) (snapVersion snap) \<and> \<not> isAutomatedActor (appActor a) \<and> appReason a \<noteq> []))"
proof -
  have "db_inv s" by (rule db_inv_reaches [OF db_inv_emptyDB assms(1)])
  then have "\<forall>a \<in> set (dbApprovals s). \<not> isAutomatedActor (appActor a) \<and> appReason a \<noteq> []" by (auto simp: db_inv_def)
  then show ?thesis using sqlite.verdict_from_policy [OF assms(3,2,4)] by blast
qed

definition sample_engine :: "SQLiteStore Engine" where
  "sample_engine = NewEngine None (Some (sqlite_ops sample_columns (\<lambda>p f t. t) (\<lambda>xs. xs) (\<lambda>_. True))) []"

theorem approval_only_lifts_hold_witness:
  "docVerdict (projr (fst (Engine_EvaluateSnapshot (\<lambda>_ t. t) (\<lambda>t. t) 50 sample_engine mismatch_snapshot approval_store))) = ''block''"
proof -
  let ?e = "Engine_EvaluateSnapshot (\<lambda>_ t. t) (\<lambda>t. t) 50 sample_engine mismatch_snapshot approval_store"
  have "ValidateCoordinates (snapPkg mismatch_snapshot) (snapVersion mismatch_snapshot) = None"
    using sample_coordinates by (simp add: mismatch_snapshot_def sample_snapshot_def)
  from EvaluateSnapshot_total [OF this, of "\<lambda>_ t. t" "\<lambda>t. t" 50 sample_engine approval_store]
  obtain doc s' where "?e = (Inr doc, s')" by (elim exE)
  then have e: "?e = (Inr (projr (fst ?e)), snd ?e)" by simp
  have p: "decVerdict (Policy_EvaluateSnapshot (engPolicy sample_engine) mismatch_snapshot) = Block" by code_simp
  have "engStore sample_engine = Some (sqlite_ops sample_columns (\<lambda>p f t. t) (\<lambda>xs. xs) (\<lambda>_. True))"
    by (simp add: sample_engine_def NewEngine_def)
  from approval_only_lifts_hold [OF conjunct1 [OF approval_store_rows] _ this e] show ?thesis
    using p by (simp add: scan_complete_def)
qed

text \<open>
  C7. Every decision can be reconstructed from the audit log. When an assembled snapshot has been
  evaluated and the database executed the statements, the log finds an event for the decision, and
  from it come back the decision identifier, the verdict, the snapshot identity and the very
  snapshot that was judged. The JSON column codec is assumed to reproduce the snapshot document,
  and the redaction to leave the verdict's name alone.
\<close>

theorem decision_reconstructible:
  assumes "store_reaches emptyDB s" "snap = NewSnapshot (sha256 k) pkg v obs st t"
    and "engStore eng = Some (sqlite_ops k ra scan (\<lambda>_. True))" "engActor eng \<noteq> []"
    and "Engine_EvaluateSnapshot re sha now eng snap s = (Inr doc, s')"
    and "snapEnc k (MarshalJSON snap) \<noteq> []" "snapDec k (snapEnc k (MarshalJSON snap)) = Some (MarshalJSON snap)"
    and "RedactSensitiveString ra (docVerdict doc) = docVerdict doc"
  shows "\<exists>ev doc'. FindAuditByDecision k True (docDecisionID doc) s' = Inr ev \<and>
           ReconstructDecisionFromAudit ev = Inr (doc', snap) \<and> docDecisionID doc' = docDecisionID doc \<and>
           docVerdict doc' = docVerdict doc \<and> docSnapshotID doc' = docSnapshotID doc"
proof -
  obtain dec where d: "NewDecisionDocument re sha now (snapPkg snap) (snapVersion snap) dec snap emptyConfig = Inr doc"
      "s' = snd (snd (AppendAudit k ra True now (decision_event now (engActor eng) snap dec doc) (snd (SaveDecision k True now doc s))))"
    using assms(3-5) by (auto simp: Engine_EvaluateSnapshot_def Let_def sqlite_ops_def split: sum.splits if_splits)
  define ev where "ev = decision_event now (engActor eng) snap dec doc"
  have "db_inv s'" unfolding d(2)
    using db_inv_reaches [OF db_inv_reaches [OF db_inv_emptyDB assms(1)] engine_step_reaches] .
  moreover obtain r where r: "dbAudit s' = dbAudit s @ [r]" "arDecisionID r = docDecisionID doc" "arEventType r = ''decision''"
      "arVerdict r = docVerdict doc" "arSnapshotJSON r = snapEnc k (MarshalJSON snap)"
    using assms(8) unfolding d(2) by (auto simp: AppendAudit_def Let_def decision_event_def SaveDecision_frame)
  ultimately have f: "FindAuditByDecision k True (docDecisionID doc) s' = Inr (scanAuditEvent k r)"
    using FindAuditByDecision_last by blast
  have sn: "aeSnapshot (scanAuditEvent k r) = Some snap"
    using assms(6,7) r(5) UnmarshalJSON_MarshalJSON [of "sha256 k"] by (simp add: scanAuditEvent_def assms(2))
  have "docSnapshotID doc = snapID snap"
    using d(1) by (auto simp: NewDecisionDocument_def Let_def assms(2) split: option.splits)
  then show ?thesis using f sn r(2-4) by (simp add: ReconstructDecisionFromAudit_def) (simp add: scanAuditEvent_def)
qed

definition stored_snapshot :: Snapshot where
  "stored_snapshot = NewSnapshot (\<lambda>t. t) ''left-pad'' ''1.0.0'' [sample_signal ''integrity'' ''mismatch'' 9] [] 3"

definition snapshot_columns :: store_codec where
  "snapshot_columns = sample_columns\<lparr>snapDec := (\<lambda>_. Some (MarshalJSON stored_snapshot))\<rparr>"

definition stored_engine :: "SQLiteStore Engine" where
  "stored_engine = NewEngine None (Some (sqlite_ops snapshot_columns (\<lambda>p f t. t) (\<lambda>xs. xs) (\<lambda>_. True))) ''gateway''"

lemma stored_evaluation:
  "\<exists>doc s'. Engine_EvaluateSnapshot (\<lambda>_ t. t) (\<lambda>t. t) 50 stored_engine stored_snapshot emptyDB = (Inr doc, s')"
  by (rule EvaluateSnapshot_total) (simp add: stored_snapshot_def NewSnapshot_def Let_def sample_coordinates)

theorem decision_reconstructible_witness:
  "\<exists>i s' ev doc'. FindAuditByDecision snapshot_columns True i s' = Inr ev \<and>
     ReconstructDecisionFromAudit ev = Inr (doc', stored_snapshot)"
proof -
  obtain doc s' where e: "Engine_EvaluateSnapshot (\<lambda>_ t. t) (\<lambda>t. t) 50 stored_engine stored_snapshot emptyDB = (Inr doc, s')"
    using stored_evaluation by blast
  have c: "stored_snapshot = NewSnapshot (sha256 snapshot_columns) ''left-pad'' ''1.0.0'' [sample_signal ''integrity'' ''mismatch'' 9] [] 3"
      "snapEnc snapshot_columns (MarshalJSON stored_snapshot) \<noteq> []"
      "snapDec snapshot_columns (snapEnc snapshot_columns (MarshalJSON stored_snapshot)) = Some (MarshalJSON stored_snapshot)"
    by (simp_all add: stored_snapshot_def snapshot_columns_def sample_columns_def)
  have g: "engStore stored_engine = Some (sqlite_ops snapshot_columns (\<lambda>p f t. t) (\<lambda>xs. xs) (\<lambda>_. True))" "engActor stored_engine \<noteq> []"
    by (simp_all add: stored_engine_def NewEngine_def)
  have "RedactSensitiveString (\<lambda>p f t. t) (docVerdict doc) = docVerdict doc"
    by (simp add: RedactSensitiveString_def sensitivePatterns_def)
  from decision_reconstructible [OF store_reaches_refl c(1) g e c(2,3) this] show ?thesis by blast
qed

end
