(* ===== verification/Timeparse.thy ===== *)
theory Timeparse
  imports Timefmt "HOL-Library.Monad_Syntax"
begin

text \<open>
  \<^verbatim>\<open>time.Parse\<close> with the layout \<^verbatim>\<open>RFC3339Nano\<close>, to an instant, and \<^verbatim>\<open>Time.Sub\<close>. As in Go,
  the hour may have one digit, the fraction any number of digits after a point or a comma, and a
  zone offset up to 24 hours and 60 minutes.
\<close>

definition digit_value :: "char \<Rightarrow> nat option" where
  "digit_value c = (if 48 \<le> byte c \<and> byte c \<le> 57 then Some (byte c - 48) else None)"

definition isDigit :: "char \<Rightarrow> bool" where
  "isDigit c = (digit_value c \<noteq> None)"

definition getnum :: "bool \<Rightarrow> string \<Rightarrow> (nat \<times> string) option" where
  "getnum fixed s =
     (case s of
        [] \<Rightarrow> None
      | c # cs \<Rightarrow> do {
          a \<leftarrow> digit_value c;
          (case cs of
             c' # cs' \<Rightarrow> (case digit_value c' of Some b \<Rightarrow> Some (10 * a + b, cs') | None \<Rightarrow> if fixed then None else Some (a, cs))
           | [] \<Rightarrow> if fixed then None else Some (a, cs)) })"

definition literal :: "char \<Rightarrow> string \<Rightarrow> string option" where
  "literal c s = (case s of x # r \<Rightarrow> if x = c then Some r else None | [] \<Rightarrow> None)"

definition digits_number :: "string \<Rightarrow> nat" where
  "digits_number s = fold (\<lambda>c n. 10 * n + the (digit_value c)) s 0"

definition parse_year :: "string \<Rightarrow> (nat \<times> string) option" where
  "parse_year s = (if length s < 4 \<or> \<not> list_all isDigit (take 4 s) then None else Some (digits_number (take 4 s), drop 4 s))"

definition parse_fraction :: "string \<Rightarrow> nat \<times> string" where
  "parse_fraction s =
     (case s of
        p # c # _ \<Rightarrow>
          if (p = CHR ''.'' \<or> p = CHR '','') \<and> isDigit c
          then let ds = takeWhile isDigit (tl s); kept = take 9 ds
               in (digits_number kept * 10 ^ (9 - length kept), drop (length ds) (tl s))
          else (0, s)
      | _ \<Rightarrow> (0, s))"

text \<open>The zone, with nothing after it, as seconds to the east.\<close>

definition parse_zone :: "string \<Rightarrow> int option" where
  "parse_zone s =
     (case s of
        [] \<Rightarrow> None
      | z # r \<Rightarrow>
          if z = CHR ''Z'' then (if r = [] then Some 0 else None)
          else if length s < 6 \<or> s ! 3 \<noteq> CHR '':'' then None
          else do {
            (hr, _) \<leftarrow> getnum True (take 2 r);
            (mm, _) \<leftarrow> getnum True (take 2 (drop 3 r));
            if hr > 24 \<or> mm > 60 \<or> drop 6 s \<noteq> [] then None
            else if z = CHR ''+'' then Some (int (60 * (60 * hr + mm)))
            else if z = CHR ''-'' then Some (- int (60 * (60 * hr + mm)))
            else None })"

text \<open>Days from 1 January of year 1 to a day of the calendar.\<close>

definition days_before_year :: "nat \<Rightarrow> int" where
  "days_before_year y = (let p = int y - 1 in 365 * p + p div 4 - p div 100 + p div 400)"

definition days_of :: "nat \<Rightarrow> nat \<Rightarrow> nat \<Rightarrow> int" where
  "days_of y m d = days_before_year y + int (sum_list (take (m - 1) (month_lengths (isLeap y)))) + int d - 1"

definition Parse_RFC3339Nano :: "string \<Rightarrow> gotime option" where
  "Parse_RFC3339Nano s = do {
     (y, s) \<leftarrow> parse_year s;
     s \<leftarrow> literal CHR ''-'' s;
     (m, s) \<leftarrow> getnum True s;
     if m = 0 \<or> m > 12 then None else do {
     s \<leftarrow> literal CHR ''-'' s;
     (d, s) \<leftarrow> getnum True s;
     s \<leftarrow> literal CHR ''T'' s;
     (hh, s) \<leftarrow> getnum False s;
     s \<leftarrow> literal CHR '':'' s;
     (mi, s) \<leftarrow> getnum True s;
     s \<leftarrow> literal CHR '':'' s;
     (ss, s) \<leftarrow> getnum True s;
     if hh \<ge> 24 \<or> mi \<ge> 60 \<or> ss \<ge> 60 then None else do {
     z \<leftarrow> parse_zone (snd (parse_fraction s));
     if d = 0 \<or> d > month_lengths (isLeap y) ! (m - 1) then None
     else Some ((days_of y m d * 86400 + int (hh * 3600 + mi * 60 + ss) - z) * 1000000000 + int (fst (parse_fraction s))) } } }"

text \<open>\<^verbatim>\<open>Time.Sub\<close> saturates at the bounds of a 64-bit duration.\<close>

definition time_Sub :: "gotime \<Rightarrow> gotime \<Rightarrow> duration" where
  "time_Sub t u = max (- (2 ^ 63)) (min (2 ^ 63 - 1) (t - u))"

end
