(* ===== verification/Registry_Call.thy ===== *)
theory Registry_Call
  imports Assembler Timeparse
begin

text \<open>
  What the networked evidence providers of \<^verbatim>\<open>src/internal/evidence\<close> share: one call, from the
  concurrency slot to the decoded answer, and the timeline of published versions. What happened
  during the call is the record \<open>provider_call\<close>: the clock, whether the context ended before a slot
  was free, whether the request could be built, and the HTTP client's answer to a URL and a body. A
  timeout is one of the client's errors. JSON decoding is a parameter of each provider. The Go
  interface \<^verbatim>\<open>Provider\<close> is the locale \<open>evidence_provider\<close>: an outcome is attributed to the
  provider that gave it and is never empty.
\<close>

section \<open>One call\<close>

record http_answer =
  haStatus :: int
  haWarning :: string
  haBody :: "string + string"

datatype send_result = SendFailed bool string | Answered http_answer

record provider_call =
  callNow :: gotime
  callSlot :: "string option"
  callRequest :: "string \<Rightarrow> string option"
  callSend :: "string \<Rightarrow> string \<Rightarrow> send_result"

text \<open>From the slot to the answer; the first argument is the text of a timeout.\<close>

definition send_query :: "string \<Rightarrow> provider_call \<Rightarrow> string \<Rightarrow> string \<Rightarrow> string + http_answer" where
  "send_query timeout call reqURL body =
     (case callRequest call reqURL of
        Some err \<Rightarrow> Inl err
      | None \<Rightarrow>
          (case callSend call reqURL body of
             SendFailed deadline err \<Rightarrow> Inl (if deadline then timeout else err)
           | Answered ans \<Rightarrow> Inr ans))"

text \<open>From the status to the decoded document; the first argument is the text of an empty body.\<close>

definition read_answer :: "string \<Rightarrow> (string \<Rightarrow> string + 'd) \<Rightarrow> http_answer \<Rightarrow> string + 'd" where
  "read_answer noBody decode ans =
     (if haStatus ans \<noteq> 200 then Inl (''upstream returned HTTP '' @ show_int (haStatus ans))
      else (case haBody ans of
              Inl err \<Rightarrow> Inl (''read error: '' @ err)
            | Inr body \<Rightarrow>
                if body = [] then Inl noBody
                else (case decode body of Inl err \<Rightarrow> Inl (''invalid json payload: '' @ err) | Inr d \<Rightarrow> Inr d)))"

definition is_stale_answer :: "http_answer \<Rightarrow> bool" where
  "is_stale_answer ans = Contains (haWarning ans) ''110''"

text \<open>A value decoded without a schema.\<close>

datatype json_value = JNull | JBool bool | JNumber string | JString string | JArray "json_value list" | JObject "(string \<times> json_value) list"

section \<open>Registry metadata\<close>

definition DefaultRegistryURL :: string where "DefaultRegistryURL = ''https://registry.npmjs.org''"
definition DefaultProviderTimeout :: duration where "DefaultProviderTimeout = 10 * Second"

definition upper_hex :: "nat \<Rightarrow> char" where
  "upper_hex n = (if n < 10 then char_of (48 + n) else char_of (55 + n))"

definition path_segment_char :: "char \<Rightarrow> bool" where
  "path_segment_char c =
     (97 \<le> byte c \<and> byte c \<le> 122 \<or> 65 \<le> byte c \<and> byte c \<le> 90 \<or> 48 \<le> byte c \<and> byte c \<le> 57 \<or> c \<in> set ''-_.~$&+:=@'')"

definition PathEscape :: "string \<Rightarrow> string" where
  "PathEscape s = concat (map (\<lambda>c. if path_segment_char c then [c] else [CHR ''%'', upper_hex (byte c div 16), upper_hex (byte c mod 16)]) s)"

definition packument_url :: "string \<Rightarrow> string \<Rightarrow> string" where
  "packument_url registryURL pkg = registryURL @ ''/'' @ (if HasPrefix pkg ''@'' then PathEscape pkg else pkg)"

text \<open>The versions with a readable publication time, oldest first; and the entry before a version.\<close>

definition timeline :: "(string \<times> string) list \<Rightarrow> (string \<times> gotime) list" where
  "timeline stamps =
     SortSlice (\<lambda>a b. snd a < snd b)
       (List.map_filter (\<lambda>(v, text). if v = ''created'' \<or> v = ''modified'' then None else map_option (\<lambda>t. (v, t)) (Parse_RFC3339Nano text)) stamps)"

fun previous_entry :: "string \<Rightarrow> (string \<times> gotime) option \<Rightarrow> (string \<times> gotime) list \<Rightarrow> (string \<times> gotime) option" where
  "previous_entry version before [] = None"
| "previous_entry version before (e # es) = (if fst e = version then before else previous_entry version (Some e) es)"

text \<open>A version with a readable publication time, as the timeline keeps it.\<close>

definition published :: "(string \<times> string) list \<Rightarrow> string \<Rightarrow> gotime \<Rightarrow> bool" where
  "published stamps v t = (v \<noteq> ''created'' \<and> v \<noteq> ''modified'' \<and> (\<exists>text. (v, text) \<in> set stamps \<and> Parse_RFC3339Nano text = Some t))"

definition earlier :: "(string \<times> string) list \<Rightarrow> gotime \<Rightarrow> gotime set" where
  "earlier stamps t = {s. s < t \<and> (\<exists>u. published stamps u s)}"

lemma set_timeline: "(v, t) \<in> set (timeline stamps) \<longleftrightarrow> published stamps v t"
proof -
  have "(v, t) \<in> set (List.map_filter f xs) \<longleftrightarrow> (\<exists>x \<in> set xs. f x = Some (v, t))" for f :: "string \<times> string \<Rightarrow> (string \<times> gotime) option" and xs
    by (induction xs) (auto simp: map_filter_simps split: option.splits)
  then show ?thesis by (auto simp: timeline_def published_def split: if_splits) force+
qed

lemma sorted_timeline: "sorted (map snd (timeline stamps))"
  unfolding timeline_def by (subst SortSlice_sort_key [where f = snd]) auto

lemma finite_earlier: "finite (earlier stamps t)"
proof (rule finite_subset)
  show "earlier stamps t \<subseteq> snd ` set (timeline stamps)" by (force simp: earlier_def set_timeline [symmetric])
qed simp

lemma previous_entry_split:
  "v \<notin> fst ` set bef \<Longrightarrow> previous_entry v b (bef @ (v, t) # aft) = (if bef = [] then b else Some (last bef))"
  by (induction bef arbitrary: b) auto

lemma previous_entry_absent: "v \<notin> fst ` set es \<Longrightarrow> previous_entry v b es = None"
  by (induction es arbitrary: b) auto

text \<open>When no other version has the instant of the given one, the entry before it has the latest
  earlier instant, whatever the order in which the map was read.\<close>

lemma previous_entry_latest:
  assumes "published stamps v t" "\<And>u s. published stamps u s \<Longrightarrow> s = t \<or> u = v \<Longrightarrow> u = v \<and> s = t"
  shows "map_option snd (previous_entry v None (timeline stamps)) = (if earlier stamps t = {} then None else Some (Max (earlier stamps t)))"
proof -
  have "v \<in> fst ` set (timeline stamps)" using assms(1) by (force simp: set_timeline [symmetric])
  then obtain bef e aft where tl: "timeline stamps = bef @ e # aft" and e: "fst e = v" and bef: "v \<notin> fst ` set bef"
    using split_list_first_prop [of "timeline stamps" "\<lambda>x. fst x = v"] by fastforce
  have "published stamps v (snd e)" using set_timeline [of v "snd e" stamps] e by (auto simp: tl)
  then have e': "e = (v, t)" using assms(2) e by (metis prod.collapse)
  have sorted: "x \<in> set bef \<Longrightarrow> snd x \<le> t" "y \<in> set aft \<Longrightarrow> t \<le> snd y" for x y
    using sorted_timeline [of stamps] e' by (auto simp: tl sorted_append)
  have strict: "snd x < t" if "x \<in> set bef" for x
  proof -
    have "x \<in> set (timeline stamps)" using that by (simp add: tl)
    then have pub: "published stamps (fst x) (snd x)" using set_timeline [of "fst x" "snd x" stamps] by simp
    have "snd x \<noteq> t"
    proof
      assume "snd x = t"
      then have "fst x = v" using assms(2) [OF pub] by blast
      then show False using bef that by force
    qed
    then show ?thesis using sorted(1) [OF that] by simp
  qed
  have "s \<in> earlier stamps t \<longleftrightarrow> s \<in> snd ` set bef" for s
  proof
    assume "s \<in> earlier stamps t"
    then obtain u where "s < t" "(u, s) \<in> set (timeline stamps)" by (auto simp: earlier_def set_timeline)
    then show "s \<in> snd ` set bef" using sorted(2) [of "(u, s)"] by (force simp: tl e')
  next
    assume "s \<in> snd ` set bef"
    then obtain x where "x \<in> set bef" "s = snd x" by blast
    moreover from this have "x \<in> set (timeline stamps)" by (simp add: tl)
    ultimately show "s \<in> earlier stamps t"
      using strict set_timeline [of "fst x" "snd x" stamps] unfolding earlier_def by auto
  qed
  then have earlier: "earlier stamps t = snd ` set bef" by blast
  have "bef \<noteq> [] \<Longrightarrow> Max (snd ` set bef) = snd (last bef)"
  proof (rule Max_eqI)
    fix y assume ne: "bef \<noteq> []" and "y \<in> snd ` set bef"
    moreover have "sorted (map snd bef)" using sorted_timeline [of stamps] by (simp add: tl sorted_append)
    ultimately show "y \<le> snd (last bef)"
      by (cases bef rule: rev_cases) (auto simp: sorted_append)
  qed auto
  then show ?thesis using previous_entry_split [OF bef, of None t aft] by (simp add: tl e' earlier)
qed

section \<open>The provider interface\<close>

locale evidence_provider =
  fixes kind source :: string and provide :: "Query \<Rightarrow> Outcome"
  assumes own_outcome: "outKind (provide q) = kind" "outSource (provide q) = source"
    and own_signals: "s \<in> set (outSignals (provide q)) \<Longrightarrow> sigSource s = source"
    and answered: "outState (provide q) = StateUnavailable \<and> outSignals (provide q) = [] \<and> outErr (provide q) \<noteq> None \<or>
      outState (provide q) \<in> {StateAvailable, StateStale, StateDegraded} \<and> outSignals (provide q) \<noteq> [] \<and> outErr (provide q) = None"
begin

lemma own_kind_provider: "own_kind \<lparr>provKind = kind, Provide = provide\<rparr>"
  by (simp add: own_kind_def own_outcome)

lemma never_silent: "Outcome_Signals (provide q) \<noteq> []"
  using answered [of q] by (auto simp: Outcome_Signals_def Outcome_State_def)

lemma attributed: "s \<in> set (Outcome_Signals (provide q)) \<Longrightarrow> sigSource s = source"
  using own_signals [of s q] own_outcome by (auto simp: Outcome_Signals_def split: if_splits)

lemma unavailable_iff_error: "IsUnavailable (provide q) \<longleftrightarrow> outErr (provide q) \<noteq> None"
  using answered [of q] by (auto simp: IsUnavailable_def Outcome_State_def)

lemma valid_state: "State_Valid (outState (provide q))"
  using answered [of q] by auto

lemma unavailable_visible:
  assumes "IsUnavailable (provide q)"
  shows "\<exists>s \<in> set (Outcome_Signals (provide q)). sigKind s = kind \<and> sigObservation s = ''unavailable''"
  using unavailable_signal_visible [OF assms] answered [of q] assms own_outcome
  by (auto simp: IsUnavailable_def Outcome_State_def)

end

section \<open>A sample packument\<close>

definition sample_stamps :: "(string \<times> string) list" where
  "sample_stamps = [(''created'', ''2020-01-01T00:00:00Z''), (''2.0.0'', ''2021-01-01T00:00:00.5Z''), (''1.0.0'', ''2020-01-01T00:00:00Z'')]"

definition sample_call :: provider_call where
  "sample_call = \<lparr>callNow = 63800000000000000000, callSlot = None, callRequest = (\<lambda>_. None),
     callSend = (\<lambda>_ _. Answered \<lparr>haStatus = 200, haWarning = [], haBody = Inr ''{}''\<rparr>)\<rparr>"

lemma sample_instants:
  "Parse_RFC3339Nano ''2020-01-01T00:00:00Z'' = Some 63713433600000000000"
  "Parse_RFC3339Nano ''2021-01-01T00:00:00.5Z'' = Some 63745056000500000000"
  by (simp_all add: Parse_RFC3339Nano_def parse_year_def isDigit_def digit_value_def digits_number_def literal_def getnum_def
      parse_fraction_def parse_zone_def days_of_def days_before_year_def isLeap_def month_lengths_def Let_def)

lemma set_sample_stamps:
  "set sample_stamps = {(''created'', ''2020-01-01T00:00:00Z''), (''2.0.0'', ''2021-01-01T00:00:00.5Z''), (''1.0.0'', ''2020-01-01T00:00:00Z'')}"
  by (simp only: sample_stamps_def list.set)

lemma sample_published:
  "published sample_stamps u t \<longleftrightarrow> u = ''2.0.0'' \<and> t = 63745056000500000000 \<or> u = ''1.0.0'' \<and> t = 63713433600000000000"
proof -
  have names: "''2.0.0'' \<noteq> ''created''" "''2.0.0'' \<noteq> ''modified''" "''1.0.0'' \<noteq> ''created''" "''1.0.0'' \<noteq> ''modified''" by simp_all
  show ?thesis
    unfolding published_def set_sample_stamps using sample_instants names
    by (simp only: insert_iff empty_iff prod.inject) (metis option.inject)
qed

lemma sample_earlier: "earlier sample_stamps 63745056000500000000 = {63713433600000000000}"
  by (auto simp: earlier_def sample_published)

lemma sample_timeline: "timeline sample_stamps = [(''1.0.0'', 63713433600000000000), (''2.0.0'', 63745056000500000000)]"
  unfolding timeline_def sample_stamps_def by (simp add: map_filter_simps sample_instants SortSlice_def)

end
