(* ===== verification/Mcp.thy ===== *)
theory Mcp
  imports Engine Registry_Call
begin

text \<open>
  The MCP server for agents: \<^verbatim>\<open>src/internal/mcpserver/server.go\<close>. JSON decoding and encoding, the texts
  of errors and which store calls succeed are the record \<open>mcp_env\<close>; the store is the SQLite
  store, absent when \<open>srvStore\<close> is false. The evaluator is a function of the coordinates and the
  store, and in the program it is the decision engine. A JSON value that is kept as raw bytes is a
  string.
\<close>

section \<open>The protocol\<close>

definition ErrMCPApprovalForbidden :: string where
  "ErrMCPApprovalForbidden =
     ''approvals may only be created by a human at the local machine; MCP agents cannot mutate policy, approvals, or gateway state''"

record jsonRPCRequest =
  rqJSONRPC :: string
  rqID :: json_value
  rqMethod :: string
  rqParams :: string

record rpcError =
  reCode :: int
  reMessage :: string

record toolCallParams =
  tcName :: string
  tcArguments :: string

record toolDefinition =
  tdName :: string
  tdDescription :: string
  tdInputSchema :: json_value

record toolContent =
  toType :: string
  toText :: string

record toolCallResult =
  trContent :: "toolContent list"
  trIsError :: bool

datatype rpc_result = InitializeResult | ToolsResult "toolDefinition list" | ToolResult toolCallResult

record jsonRPCResponse =
  rsJSONRPC :: string
  rsID :: json_value
  rsResult :: "rpc_result option"
  rsError :: "rpcError option"

record decisionSummary =
  dsEventTime :: string
  dsDecisionID :: string
  dsPackage :: string
  dsVersion :: string
  dsVerdict :: string
  dsRuleID :: string
  dsActor :: string

record policy_view =
  pvwVersion :: string
  pvwProfile :: Profile
  pvwThreshold :: Severity
  pvwBounds :: string

definition quoted :: "string \<Rightarrow> string" where
  "quoted s = [CHR 0x22] @ s @ [CHR 0x22]"

definition BoundsStatement :: string where
  "BoundsStatement = Join nl
     [''InstallGate repository policy bounds:'',
      ''What repository policy may tighten:'',
      ''- profile: configure '' @ quoted ''balanced'' @ '' (default) or '' @ quoted ''strict'',
      ''- vulnerability_threshold: configure '' @ quoted ''critical'' @ '', '' @ quoted ''high'' @ '' (default), '' @ quoted ''medium'' @ '', or '' @ quoted ''low'',
      [],
      ''What repository policy may NOT loosen:'',
      ''- Core invariants: integrity mismatches and known malicious packages always block'',
      ''- Evidence availability: provider outages always degrade decisions and cannot be ignored'',
      ''- Reputation limits: low popularity or missing repository alone can never produce approval_required or block'',
      ''- Determinism: decisions must remain deterministic functions of policy, input, and evidence'']"

section \<open>The server\<close>

type_synonym PackageEvaluator = "string \<Rightarrow> string \<Rightarrow> SQLiteStore \<Rightarrow> (string + DecisionDocument) \<times> SQLiteStore"

record Server =
  srvStore :: bool
  srvEvaluator :: "PackageEvaluator option"
  srvPolicy :: "Policy option"

definition NewServer :: "bool \<Rightarrow> PackageEvaluator option \<Rightarrow> Policy option list \<Rightarrow> Server" where
  "NewServer s ev opts = fold (\<lambda>p srv. srv\<lparr>srvPolicy := p\<rparr>) opts \<lparr>srvStore = s, srvEvaluator = ev, srvPolicy = None\<rparr>"

datatype mcp_call = McpGetDecision | McpListAudit | McpAppendAudit

record mcp_env =
  meNow :: gotime
  meRequest :: "string \<Rightarrow> jsonRPCRequest option"
  meCall :: "string \<Rightarrow> toolCallParams option"
  meCheckArgs :: "string \<Rightarrow> string + (string \<times> string)"
  meExplainArgs :: "string \<Rightarrow> string + string"
  meLimit :: "string \<Rightarrow> int option"
  meDocument :: "DecisionDocument \<Rightarrow> string + string"
  mePolicyView :: "policy_view \<Rightarrow> string + string"
  meSummaries :: "decisionSummary list \<Rightarrow> string + string"
  meResponse :: "jsonRPCResponse \<Rightarrow> string + string"
  meReencode :: "string \<Rightarrow> string + string"
  meStoreError :: "store_error \<Rightarrow> string"
  meCodec :: store_codec
  meReplace :: replace_all
  meOK :: "mcp_call \<Rightarrow> bool"
  meLoadPolicy :: "policy_error + Policy"

definition text_result :: "string \<Rightarrow> toolCallResult" where
  "text_result t = \<lparr>trContent = [\<lparr>toType = ''text'', toText = t\<rparr>], trIsError = False\<rparr>"

definition RegisteredToolDefinitions :: "toolDefinition list" where
  "RegisteredToolDefinitions =
     (let str = (\<lambda>d. JObject [(''type'', JString ''string''), (''description'', JString d)]) in
     [\<lparr>tdName = ''check_package'',
       tdDescription = ''Preflight evaluation of an npm package and version against InstallGate security policy.'',
       tdInputSchema = JObject [(''type'', JString ''object''),
         (''properties'', JObject [(''package'', str ''The npm package name''), (''version'', str ''The npm package version'')]),
         (''required'', JArray [JString ''package'', JString ''version''])]\<rparr>,
      \<lparr>tdName = ''explain_decision'',
       tdDescription = ''Retrieve deterministic explanation document for a previous decision.'',
       tdInputSchema = JObject [(''type'', JString ''object''),
         (''properties'', JObject [(''decision_id'', str ''The decision identifier'')]),
         (''required'', JArray [JString ''decision_id''])]\<rparr>,
      \<lparr>tdName = ''get_policy'',
       tdDescription = ''Retrieve active repository security policy configuration and policy bounds.'',
       tdInputSchema = JObject [(''type'', JString ''object''), (''properties'', JObject [])]\<rparr>,
      \<lparr>tdName = ''recent_decisions'',
       tdDescription = ''Retrieve recent policy evaluation decisions from the audit log.'',
       tdInputSchema = JObject [(''type'', JString ''object''),
         (''properties'', JObject [(''limit'', JObject [(''type'', JString ''integer''),
            (''description'', JString ''Maximum number of recent decisions to return (default 10, max 50)'')])])]\<rparr>])"

definition handleCheckPackage :: "mcp_env \<Rightarrow> Server \<Rightarrow> string \<Rightarrow> SQLiteStore \<Rightarrow> (string + toolCallResult) \<times> SQLiteStore" where
  "handleCheckPackage env srv args s =
     (case srvEvaluator srv of
        None \<Rightarrow> (Inl ''package evaluator not configured'', s)
      | Some evaluate \<Rightarrow>
          (case meCheckArgs env args of
             Inl err \<Rightarrow> (Inl (''invalid arguments: '' @ err), s)
           | Inr (pkg, version) \<Rightarrow>
               if pkg = [] \<or> version = [] then (Inl ''package and version are required'', s)
               else (case evaluate pkg version s of
                       (Inl err, s') \<Rightarrow> (Inl (''evaluation error: '' @ err), s')
                     | (Inr doc, s') \<Rightarrow> (map_sum id text_result (meDocument env doc), s'))))"

definition handleExplainDecision :: "mcp_env \<Rightarrow> Server \<Rightarrow> string \<Rightarrow> SQLiteStore \<Rightarrow> string + toolCallResult" where
  "handleExplainDecision env srv args s =
     (if \<not> srvStore srv then Inl ''store not configured''
      else (case meExplainArgs env args of
              Inl err \<Rightarrow> Inl (''invalid arguments: '' @ err)
            | Inr decisionID \<Rightarrow>
                if decisionID = [] then Inl ''decision_id is required''
                else (case GetDecision (meCodec env) (meOK env McpGetDecision) decisionID s of
                        Inl err \<Rightarrow> Inl (''failed retrieving decision '' @ decisionID @ '': '' @ meStoreError env err)
                      | Inr doc \<Rightarrow> Inr (text_result (RenderHuman doc)))))"

definition handleGetPolicy :: "mcp_env \<Rightarrow> Server \<Rightarrow> string + toolCallResult" where
  "handleGetPolicy env srv =
     (let pol = (case srvPolicy srv of
                   Some p \<Rightarrow> p
                 | None \<Rightarrow> (case meLoadPolicy env of Inl _ \<Rightarrow> NewDefaultPolicy | Inr p \<Rightarrow> p))
      in map_sum id text_result (mePolicyView env
           \<lparr>pvwVersion = polVersion pol, pvwProfile = polProfile pol, pvwThreshold = polThreshold pol, pvwBounds = BoundsStatement\<rparr>))"

definition summary_of :: "AuditEvent \<Rightarrow> decisionSummary" where
  "summary_of ev =
     \<lparr>dsEventTime = Format_RFC3339 (aeEventTime ev), dsDecisionID = aeDecisionID ev, dsPackage = aePackage ev, dsVersion = aeVersion ev,
      dsVerdict = aeVerdict ev, dsRuleID = aeRuleID ev, dsActor = aeActor ev\<rparr>"

definition requested_limit :: "mcp_env \<Rightarrow> string \<Rightarrow> int" where
  "requested_limit env args =
     (let limit = (if args \<noteq> [] \<and> args \<noteq> ''{}'' \<and> args \<noteq> ''null''
                   then (case meLimit env args of Some n \<Rightarrow> if n > 0 then n else 10 | None \<Rightarrow> 10) else 10)
      in if limit > 50 then 50 else limit)"

text \<open>The loop stops as soon as the limit is reached.\<close>

definition listed_decisions :: "int \<Rightarrow> AuditEvent list \<Rightarrow> decisionSummary list" where
  "listed_decisions limit events = take (nat limit) (map summary_of (filter (\<lambda>ev. aeEventType ev = ''decision'') events))"

definition handleRecentDecisions :: "mcp_env \<Rightarrow> Server \<Rightarrow> string \<Rightarrow> SQLiteStore \<Rightarrow> string + toolCallResult" where
  "handleRecentDecisions env srv args s =
     (if \<not> srvStore srv then Inl ''store not configured''
      else (case ListAuditEvents (meCodec env) (meOK env McpListAudit) 100 0 s of
              Inl err \<Rightarrow> Inl (''failed listing audit events: '' @ meStoreError env err)
            | Inr events \<Rightarrow> map_sum id text_result (meSummaries env (listed_decisions (requested_limit env args) events))))"

definition rejected_event :: "gotime \<Rightarrow> string \<Rightarrow> string \<Rightarrow> AuditEvent" where
  "rejected_event now actor payload =
     \<lparr>aeID = 0, aeEventTime = now, aeEventType = ''approval_attempt_rejected'', aePackage = [], aeVersion = [], aeDecisionID = [],
      aeRuleID = [], aeVerdict = kind_string Block, aeActor = actor,
      aeMetadata = Some [(''reason'', ''mcp clients are strictly forbidden from creating approvals or mutating state''), (''payload'', payload)],
      aeSnapshot = None\<rparr>"

definition recordRejectedApprovalAttempt :: "mcp_env \<Rightarrow> Server \<Rightarrow> string \<Rightarrow> string \<Rightarrow> SQLiteStore \<Rightarrow> SQLiteStore" where
  "recordRejectedApprovalAttempt env srv actor payload s =
     (if \<not> srvStore srv then s
      else snd (snd (AppendAudit (meCodec env) (meReplace env) (meOK env McpAppendAudit) (meNow env) (rejected_event (meNow env) actor payload) s)))"

definition read_only_tools :: "string list" where
  "read_only_tools = [''check_package'', ''explain_decision'', ''get_policy'', ''recent_decisions'']"

definition mutation_words :: "string list" where
  "mutation_words = [''approv'', ''deny'', ''reject'', ''policy'', ''disable'', ''bypass'', ''allowlist'', ''revoke'', ''delete'', ''write'', ''edit'',
     ''mutate'', ''set_'', ''update_'', ''create_'']"

definition isApprovalAttempt :: "string \<Rightarrow> bool" where
  "isApprovalAttempt name =
     (let lower = ToLower name in if lower \<in> set read_only_tools then False else list_ex (Contains lower) mutation_words)"

definition mutation_methods :: "string list" where
  "mutation_methods = [''create_approval'', ''approve_package'', ''approve'', ''deny'', ''deny_package'', ''revoke'', ''revoke_approval'', ''set_policy'',
     ''edit_policy'', ''update_policy'', ''disable'', ''disable_gateway'']"

definition rpc_error :: "jsonRPCResponse \<Rightarrow> int \<Rightarrow> string \<Rightarrow> jsonRPCResponse" where
  "rpc_error resp code msg = resp\<lparr>rsError := Some \<lparr>reCode = code, reMessage = msg\<rparr>\<rparr>"

definition tool_response :: "jsonRPCResponse \<Rightarrow> string + toolCallResult \<Rightarrow> jsonRPCResponse" where
  "tool_response resp r = (case r of Inl err \<Rightarrow> rpc_error resp (- 32603) err | Inr res \<Rightarrow> resp\<lparr>rsResult := Some (ToolResult res)\<rparr>)"

definition call_tool :: "mcp_env \<Rightarrow> Server \<Rightarrow> toolCallParams \<Rightarrow> jsonRPCResponse \<Rightarrow> SQLiteStore \<Rightarrow> jsonRPCResponse \<times> SQLiteStore" where
  "call_tool env srv p resp s =
     (if isApprovalAttempt (tcName p)
      then (rpc_error resp (- 32000) ErrMCPApprovalForbidden, recordRejectedApprovalAttempt env srv ''mcp_client'' (tcArguments p) s)
      else if tcName p = ''check_package'' then (case handleCheckPackage env srv (tcArguments p) s of (r, s') \<Rightarrow> (tool_response resp r, s'))
      else if tcName p = ''explain_decision'' then (tool_response resp (handleExplainDecision env srv (tcArguments p) s), s)
      else if tcName p = ''get_policy'' then (tool_response resp (handleGetPolicy env srv), s)
      else if tcName p = ''recent_decisions'' then (tool_response resp (handleRecentDecisions env srv (tcArguments p) s), s)
      else (rpc_error resp (- 32601) (''tool not found: '' @ tcName p), s))"

definition respond :: "mcp_env \<Rightarrow> Server \<Rightarrow> string \<Rightarrow> SQLiteStore \<Rightarrow> jsonRPCResponse \<times> SQLiteStore" where
  "respond env srv reqBytes s =
     (case meRequest env reqBytes of
        None \<Rightarrow> (\<lparr>rsJSONRPC = ''2.0'', rsID = JNull, rsResult = None, rsError = Some \<lparr>reCode = - 32700, reMessage = ''parse error: invalid JSON''\<rparr>\<rparr>, s)
      | Some req \<Rightarrow>
          let resp = \<lparr>rsJSONRPC = ''2.0'', rsID = rqID req, rsResult = None, rsError = None\<rparr>; m = rqMethod req in
          if m = ''initialize'' then (resp\<lparr>rsResult := Some InitializeResult\<rparr>, s)
          else if m = ''tools/list'' then (resp\<lparr>rsResult := Some (ToolsResult RegisteredToolDefinitions)\<rparr>, s)
          else if m = ''tools/call''
          then (case meCall env (rqParams req) of
                  None \<Rightarrow> (rpc_error resp (- 32602) ''invalid tool call params'', s)
                | Some p \<Rightarrow> call_tool env srv p resp s)
          else if m \<in> set mutation_methods
          then (rpc_error resp (- 32000) ErrMCPApprovalForbidden, recordRejectedApprovalAttempt env srv ''mcp_client'' (rqParams req) s)
          else (rpc_error resp (- 32601) (''method not found: '' @ m), s))"

definition HandleRequest :: "mcp_env \<Rightarrow> Server \<Rightarrow> string \<Rightarrow> SQLiteStore \<Rightarrow> (string + string) \<times> SQLiteStore" where
  "HandleRequest env srv reqBytes s = (case respond env srv reqBytes s of (resp, s') \<Rightarrow> (meResponse env resp, s'))"

section \<open>Transports\<close>

text \<open>What the decoder of standard input delivers next; the context may end before it is asked.\<close>

datatype stdio_event = Cancelled string | EndOfInput | BadInput string | Message string

text \<open>The loop over standard input: the result is an error, if any, with the lines written and the
  store. \<open>write_error\<close> tells which line cannot be written. Input that has no further event is at its end.\<close>

fun ServeStdio ::
  "mcp_env \<Rightarrow> (nat \<Rightarrow> string option) \<Rightarrow> Server \<Rightarrow> stdio_event list \<Rightarrow> string list \<Rightarrow> SQLiteStore \<Rightarrow> string option \<times> string list \<times> SQLiteStore" where
  "ServeStdio env write_error srv [] out s = (None, out, s)"
| "ServeStdio env write_error srv (e # es) out s =
     (case e of
        Cancelled err \<Rightarrow> (Some err, out, s)
      | EndOfInput \<Rightarrow> (None, out, s)
      | BadInput err \<Rightarrow> (Some err, out, s)
      | Message raw \<Rightarrow>
          (case HandleRequest env srv raw s of
             (Inl err, s') \<Rightarrow> (Some err, out, s')
           | (Inr resp, s') \<Rightarrow>
               (case meReencode env resp of
                  Inl err \<Rightarrow> (Some err, out, s')
                | Inr line \<Rightarrow>
                    (case write_error (length out) of
                       Some err \<Rightarrow> (Some err, out, s')
                     | None \<Rightarrow> ServeStdio env write_error srv es (out @ [line]) s'))))"

text \<open>Over HTTP: the status, the body and the store; \<open>Inl\<close> is a body that could not be read.\<close>

definition Mcp_ServeHTTP :: "mcp_env \<Rightarrow> Server \<Rightarrow> string \<Rightarrow> string + string \<Rightarrow> SQLiteStore \<Rightarrow> (int \<times> string) \<times> SQLiteStore" where
  "Mcp_ServeHTTP env srv method body s =
     (if method \<noteq> ''POST'' then ((405, ''method not allowed'' @ nl), s)
      else (case body of
              Inl _ \<Rightarrow> ((400, ''bad request'' @ nl), s)
            | Inr b \<Rightarrow> (case HandleRequest env srv b s of
                          (Inl _, s') \<Rightarrow> ((500, ''internal server error'' @ nl), s')
                        | (Inr resp, s') \<Rightarrow> ((200, resp), s'))))"

text \<open>The server as \<^verbatim>\<open>runMCP\<close> of \<^verbatim>\<open>src/cmd/installgate/main.go\<close> builds it: the engine over the opened store, acting as
  mcp, and the policy of the repository.\<close>

definition engine_evaluator ::
  "regexes \<Rightarrow> (string \<Rightarrow> string) \<Rightarrow> gotime \<Rightarrow> (string \<Rightarrow> string \<Rightarrow> string + Snapshot) option \<Rightarrow> (engine_error \<Rightarrow> string) \<Rightarrow> SQLiteStore Engine \<Rightarrow> PackageEvaluator" where
  "engine_evaluator re sha now assembler txt eng pkg version s =
     (case Engine_Evaluate re sha now assembler eng pkg version s of (r, s') \<Rightarrow> (map_sum txt id r, s'))"

definition runMCP ::
  "regexes \<Rightarrow> (string \<Rightarrow> string) \<Rightarrow> gotime \<Rightarrow> (string \<Rightarrow> string \<Rightarrow> string + Snapshot) option \<Rightarrow> (engine_error \<Rightarrow> string) \<Rightarrow>
   SQLiteStore Store_ops \<Rightarrow> policy_error + Policy \<Rightarrow> Server" where
  "runMCP re sha now assembler txt ops loaded =
     (let pol = (case loaded of Inl _ \<Rightarrow> NewDefaultPolicy | Inr p \<Rightarrow> p) in
      NewServer True (Some (engine_evaluator re sha now assembler txt (NewEngine (Some pol) (Some ops) ''mcp''))) [Some pol])"

section \<open>What a request can change\<close>

text \<open>Approvals, configuration history and caches stay; the audit log only grows.\<close>

definition observes_only :: "SQLiteStore \<Rightarrow> SQLiteStore \<Rightarrow> bool" where
  "observes_only s s' =
     (dbApprovals s' = dbApprovals s \<and> dbConfig s' = dbConfig s \<and> dbEvidence s' = dbEvidence s \<and> dbAllows s' = dbAllows s \<and>
      dbMigrations s' = dbMigrations s \<and> (\<exists>rows. dbAudit s' = dbAudit s @ rows))"

lemma observes_only_refl [simp]: "observes_only s s"
  by (simp add: observes_only_def)

lemma observes_only_trans: "observes_only s t \<Longrightarrow> observes_only t u \<Longrightarrow> observes_only s u"
  by (auto simp: observes_only_def)

lemma AppendAudit_row:
  assumes "aeEventType ev \<noteq> []"
  shows "\<exists>row. snd (snd (AppendAudit k ra True now ev s)) = s\<lparr>dbAudit := dbAudit s @ [row], dbAuditSeq := dbAuditSeq s + 1\<rparr> \<and> arEventType row = aeEventType ev"
proof -
  have f: "aeEventType ev = [] \<longleftrightarrow> False" "\<not> True \<longleftrightarrow> False" using assms by auto
  show ?thesis
    unfolding AppendAudit_def Let_def f if_False snd_conv by (rule exI, rule conjI, rule refl) simp
qed

lemma observes_append: "observes_only s (snd (snd (AppendAudit k ra ok now ev s)))"
  by (simp add: observes_only_def AppendAudit_def Let_def)

lemma observes_save: "observes_only s (snd (SaveDecision k ok now doc s))"
  by (simp add: observes_only_def SaveDecision_def Let_def split: option.split prod.split)

text \<open>
  The two ways to look at a session, what it leaves alone and which operations of the store it
  consists of, are preorders that contain the recording of a decision and of an event. For every such
  preorder a whole session stays inside it.
\<close>

locale session_order =
  fixes R :: "SQLiteStore \<Rightarrow> SQLiteStore \<Rightarrow> bool"
  assumes refl [simp]: "R s s"
    and trans: "R s t \<Longrightarrow> R t u \<Longrightarrow> R s u"
    and append: "R s (snd (snd (AppendAudit k ra ok now ev s)))"
    and save: "R s (snd (SaveDecision k ok now doc s))"
begin

lemma evaluation_stays:
  assumes "engStore eng = Some (sqlite_ops k ra scan ok)"
  shows "R s (snd (Engine_Evaluate re sha now assembler eng pkg version s))"
proof -
  have snap: "R s (snd (Engine_EvaluateSnapshot re sha now eng snap s))" for snap
    using assms trans [OF save append]
    by (simp add: Engine_EvaluateSnapshot_def Let_def sqlite_ops_def split: sum.split)
  then show ?thesis by (auto simp: Engine_Evaluate_def split: option.split sum.split prod.split) (metis snd_conv)+
qed

lemma rejected: "R s (recordRejectedApprovalAttempt env srv actor payload s)"
  by (simp add: recordRejectedApprovalAttempt_def append)

lemma respond_stays:
  assumes "\<And>evaluate pkg version s. srvEvaluator srv = Some evaluate \<Longrightarrow> R s (snd (evaluate pkg version s))"
  shows "R s (snd (respond env srv raw s))"
proof -
  have check: "R s (snd (handleCheckPackage env srv args s))" for args
    using assms by (auto simp: handleCheckPackage_def split: option.split sum.split prod.split) (metis snd_conv)+
  have "R s (snd (call_tool env srv p resp s))" for p resp
    using check by (auto simp: call_tool_def rejected split: prod.split) (metis snd_conv)
  then show ?thesis by (simp add: respond_def Let_def rejected split: option.split)
qed

lemma stdio:
  assumes "\<And>evaluate pkg version s. srvEvaluator srv = Some evaluate \<Longrightarrow> R s (snd (evaluate pkg version s))"
  shows "R s (snd (snd (ServeStdio env we srv es out s)))"
proof (induction es arbitrary: out s)
  case (Cons e es)
  show ?case
  proof (cases e)
    case (Message raw)
    have "R s (snd (respond env srv raw s))" by (rule respond_stays) (rule assms)
    then have step: "R s (snd (HandleRequest env srv raw s))"
      by (cases "respond env srv raw s") (simp add: HandleRequest_def)
    obtain r s' where h: "HandleRequest env srv raw s = (r, s')" by (cases "HandleRequest env srv raw s")
    have "R s s'" using step h by simp
    then show ?thesis
      using Message h trans Cons.IH by (auto split: sum.split option.split)
  qed simp_all
qed simp

lemma session: "R s (snd (snd (ServeStdio env we (runMCP re sha now assembler txt (sqlite_ops k ra scan ok) loaded) es out s)))"
proof (rule stdio)
  fix evaluate pkg version s
  let ?eng = "NewEngine (Some (case loaded of Inl _ \<Rightarrow> NewDefaultPolicy | Inr p \<Rightarrow> p)) (Some (sqlite_ops k ra scan ok)) ''mcp''"
  assume "srvEvaluator (runMCP re sha now assembler txt (sqlite_ops k ra scan ok) loaded) = Some evaluate"
  then have e: "evaluate = engine_evaluator re sha now assembler txt ?eng" by (simp add: runMCP_def NewServer_def Let_def)
  have "R s (snd (Engine_Evaluate re sha now assembler ?eng pkg version s))" by (rule evaluation_stays) (simp add: NewEngine_def)
  then show "R s (snd (evaluate pkg version s))"
    unfolding e by (cases "Engine_Evaluate re sha now assembler ?eng pkg version s") (simp add: engine_evaluator_def)
qed

end

interpretation observed: session_order observes_only
  by unfold_locales (auto intro: observes_only_trans observes_append observes_save)

interpretation operated: session_order store_reaches
proof unfold_locales
  show "store_reaches s u" if "store_reaches s t" "store_reaches t u" for s t u using that by (simp add: store_reaches_def)
qed (auto intro: store_reaches_step store_step.append store_step.decide)

section \<open>Properties\<close>

text \<open>
  C12. Agents cannot change what is allowed. Whatever messages arrive, a whole session of the MCP
  server leaves approvals, configuration history, caches and schema as they were, and the audit log
  only grows.
\<close>

theorem mcp_session_only_observes:
  "observes_only s (snd (snd (ServeStdio env write_error (runMCP re sha now assembler txt (sqlite_ops k ra scan ok) loaded) events out s)))"
  by (rule observed.session)

text \<open>
  C36. Attempts at mutation are refused and recorded. A request by a mutating method, or a call of a
  tool whose name speaks of approval, policy or change, is answered with the forbidden error and no
  result; the store is as before but for one event that records the rejected attempt.
\<close>

theorem mcp_mutation_refused_and_recorded:
  assumes "meRequest env raw = Some req" "srvStore srv" "meOK env McpAppendAudit"
    and "rqMethod req \<in> set mutation_methods \<or>
      rqMethod req = ''tools/call'' \<and> (\<exists>p. meCall env (rqParams req) = Some p \<and> isApprovalAttempt (tcName p))"
  shows "\<exists>row. respond env srv raw s =
     (\<lparr>rsJSONRPC = ''2.0'', rsID = rqID req, rsResult = None, rsError = Some \<lparr>reCode = - 32000, reMessage = ErrMCPApprovalForbidden\<rparr>\<rparr>,
      s\<lparr>dbAudit := dbAudit s @ [row], dbAuditSeq := dbAuditSeq s + 1\<rparr>) \<and> arEventType row = ''approval_attempt_rejected''"
proof -
  have rec: "\<exists>row. recordRejectedApprovalAttempt env srv actor payload s = s\<lparr>dbAudit := dbAudit s @ [row], dbAuditSeq := dbAuditSeq s + 1\<rparr> \<and>
      arEventType row = ''approval_attempt_rejected''" for actor payload
    unfolding recordRejectedApprovalAttempt_def using assms(2,3) AppendAudit_row [of "rejected_event (meNow env) actor payload"]
    by (simp add: rejected_event_def)
  have m: "''initialize'' \<notin> set mutation_methods" "''tools/list'' \<notin> set mutation_methods" "''tools/call'' \<notin> set mutation_methods"
    by (simp_all add: mutation_methods_def)
  show ?thesis
  proof (cases "rqMethod req = ''tools/call''")
    case True
    then obtain p where p: "meCall env (rqParams req) = Some p" "isApprovalAttempt (tcName p)" using assms(4) m(3) by auto
    then show ?thesis using True assms(1) rec by (simp add: respond_def call_tool_def rpc_error_def Let_def)
  next
    case False
    then have "rqMethod req \<in> set mutation_methods" using assms(4) by blast
    moreover from this have "rqMethod req \<noteq> ''initialize''" "rqMethod req \<noteq> ''tools/list''" using m(1,2) by metis+
    ultimately show ?thesis using False assms(1) rec by (simp add: respond_def rpc_error_def Let_def)
  qed
qed

definition sample_mcp :: mcp_env where
  "sample_mcp = \<lparr>meNow = 5000000, meRequest = (\<lambda>raw. Some \<lparr>rqJSONRPC = ''2.0'', rqID = JNumber ''1'', rqMethod = raw, rqParams = ''{}''\<rparr>),
     meCall = (\<lambda>_. None), meCheckArgs = (\<lambda>_. Inl []), meExplainArgs = (\<lambda>_. Inl []), meLimit = (\<lambda>_. None), meDocument = (\<lambda>_. Inl []),
     mePolicyView = (\<lambda>_. Inl []), meSummaries = (\<lambda>_. Inl []),
     meResponse = (\<lambda>r. Inr (case rsError r of None \<Rightarrow> ''ok'' | Some e \<Rightarrow> reMessage e)), meReencode = Inr, meStoreError = (\<lambda>_. []),
     meCodec = sample_columns, meReplace = (\<lambda>_ _ x. x), meOK = (\<lambda>_. True), meLoadPolicy = Inr NewDefaultPolicy\<rparr>"

theorem mcp_mutation_refused_and_recorded_witness:
  "\<exists>row. snd (respond sample_mcp (NewServer True None []) ''approve_package'' emptyDB) =
     emptyDB\<lparr>dbAudit := [row], dbAuditSeq := 1\<rparr> \<and> arEventType row = ''approval_attempt_rejected''"
proof -
  let ?req = "\<lparr>rqJSONRPC = ''2.0'', rqID = JNumber ''1'', rqMethod = ''approve_package'', rqParams = ''{}''\<rparr>"
  have r: "meRequest sample_mcp ''approve_package'' = Some ?req" "srvStore (NewServer True None [])" "meOK sample_mcp McpAppendAudit"
    by (simp_all add: sample_mcp_def NewServer_def)
  have "rqMethod ?req \<in> set mutation_methods" by (simp add: mutation_methods_def)
  then show ?thesis
    using mcp_mutation_refused_and_recorded [OF r disjI1, of emptyDB] by (auto simp: emptyDB_def)
qed

text \<open>One answer after the other, each request on the store the one before it left.\<close>

fun dialogue :: "mcp_env \<Rightarrow> Server \<Rightarrow> string list \<Rightarrow> SQLiteStore \<Rightarrow> jsonRPCResponse list \<times> SQLiteStore" where
  "dialogue env srv [] s = ([], s)"
| "dialogue env srv (m # ms) s = (let (resp, s1) = respond env srv m s; (resps, s2) = dialogue env srv ms s1 in (resp # resps, s2))"

lemma length_dialogue: "length (fst (dialogue env srv ms s)) = length ms"
  by (induction ms arbitrary: s) (auto split: prod.split, metis fst_conv)

text \<open>
  C37. A session ends with its input. When responses can be encoded and written, the server reads
  until the end of the input, however long, returns without error, and has written exactly one line
  for every message, in the order of the messages, each the answer on the store the earlier messages
  left.
\<close>

theorem mcp_session_answers_every_message:
  assumes "\<And>resp. meResponse env resp = Inr (enc resp)" "\<And>line. meReencode env line = Inr (f line)" "\<And>n. write_error n = None"
  shows "ServeStdio env write_error srv (map Message msgs @ EndOfInput # rest) out s =
     (None, out @ map (\<lambda>r. f (enc r)) (fst (dialogue env srv msgs s)), snd (dialogue env srv msgs s)) \<and>
     length (fst (dialogue env srv msgs s)) = length msgs"
proof -
  have "ServeStdio env write_error srv (map Message msgs @ EndOfInput # rest) out s =
     (None, out @ map (\<lambda>r. f (enc r)) (fst (dialogue env srv msgs s)), snd (dialogue env srv msgs s))"
  proof (induction msgs arbitrary: out s)
    case (Cons m msgs)
    obtain resp s1 where r: "respond env srv m s = (resp, s1)" by (cases "respond env srv m s")
    have h: "HandleRequest env srv m s = (Inr (enc resp), s1)" using r assms(1) by (simp add: HandleRequest_def)
    show ?case using Cons.IH [of "out @ [f (enc resp)]" s1] h r assms(2,3) by (simp split: prod.split)
  qed simp
  then show ?thesis by (simp add: length_dialogue)
qed

theorem mcp_session_answers_every_message_witness:
  "ServeStdio sample_mcp (\<lambda>_. None) (NewServer True None []) [Message ''initialize'', Message ''deny'', EndOfInput] [] emptyDB =
     (None, [''ok'', ErrMCPApprovalForbidden], snd (dialogue sample_mcp (NewServer True None []) [''initialize'', ''deny''] emptyDB))"
proof -
  let ?enc = "\<lambda>r. case rsError r of None \<Rightarrow> ''ok'' | Some e \<Rightarrow> reMessage e"
  have e: "meResponse sample_mcp resp = Inr (?enc resp)" "meReencode sample_mcp line = Inr (id line)" for resp line
    by (simp_all add: sample_mcp_def)
  have "map (\<lambda>r. id (?enc r)) (fst (dialogue sample_mcp (NewServer True None []) [''initialize'', ''deny''] emptyDB)) = [''ok'', ErrMCPApprovalForbidden]"
    by (simp add: sample_mcp_def respond_def Let_def rpc_error_def mutation_methods_def)
  then show ?thesis
    using conjunct1 [OF mcp_session_answers_every_message [OF e, where write_error = "\<lambda>_. None" and msgs = "[''initialize'', ''deny'']" and rest = "[]"
        and out = "[]" and s = emptyDB and srv = "NewServer True None []"]]
    by simp
qed

text \<open>The decisions listed as recent are the first of the log: once it has a hundred events, no
  later event changes the list.\<close>

lemma recent_decisions_frozen:
  assumes "db_inv s" "100 \<le> length (dbAudit s)"
  shows "handleRecentDecisions env srv args (snd (snd (AppendAudit k ra ok now ev s))) = handleRecentDecisions env srv args s"
proof -
  let ?s = "snd (snd (AppendAudit k ra ok now ev s))"
  have inv: "db_inv ?s" by (rule db_inv_step [OF assms(1) store_step.append])
  obtain rows where "dbAudit ?s = dbAudit s @ rows" using observes_append [of s k ra ok now ev] by (auto simp: observes_only_def)
  then have "ListAuditEvents (meCodec env) okk 100 0 ?s = ListAuditEvents (meCodec env) okk 100 0 s" for okk
    using audit_sorted [OF inv] audit_sorted [OF assms(1)] assms(2) by (simp add: ListAuditEvents_def)
  then show ?thesis by (simp add: handleRecentDecisions_def)
qed

end
