(* ===== verification/Database_File.thy ===== *)
theory Database_File
  imports Audit_Log
begin

text \<open>
  The database as a file: \<^verbatim>\<open>OpenSQLite\<close>, \<^verbatim>\<open>Backup\<close> and \<^verbatim>\<open>Vacuum\<close> of
  \<^verbatim>\<open>src/internal/store/sqlite.go\<close>, and \<^verbatim>\<open>getStore\<close> of the command line. A file of the host either
  holds a database (its whole content, the write-ahead log included) or other bytes. SQLite opens
  a missing or an empty file as the empty database and refuses any other file; \<^verbatim>\<open>VACUUM INTO\<close> writes
  a file with the content of the database and refuses a file that is there. Which system calls and
  statements succeed is a parameter.
\<close>

section \<open>Opening\<close>

datatype host_file = DatabaseFile SQLiteStore | PlainFile string

type_synonym host_files = "(string \<times> host_file) list"

datatype open_step = OpenMkdir | OpenDriver | OpenWAL | OpenSynchronous | OpenForeignKeys

datatype open_error = ErrDBPathEmpty | ErrOpenStep open_step

text \<open>What a connection finds in a file, \<^term>\<open>None\<close> when it is not a database.\<close>

definition database_content :: "string \<Rightarrow> host_files \<Rightarrow> SQLiteStore option" where
  "database_content path fs =
     (case map_of fs path of
        None \<Rightarrow> Some emptyDB
      | Some (DatabaseFile s) \<Rightarrow> Some s
      | Some (PlainFile b) \<Rightarrow> if b = [] then Some emptyDB else None)"

definition OpenSQLite :: "(open_step \<Rightarrow> bool) \<Rightarrow> string \<Rightarrow> host_files \<Rightarrow> (open_error + SQLiteStore) \<times> host_files" where
  "OpenSQLite ok dbPath fs =
     (if dbPath = [] then (Inl ErrDBPathEmpty, fs)
      else if path_Dir dbPath \<noteq> [] \<and> path_Dir dbPath \<noteq> ''.'' \<and> \<not> ok OpenMkdir then (Inl (ErrOpenStep OpenMkdir), fs)
      else if \<not> ok OpenDriver then (Inl (ErrOpenStep OpenDriver), fs)
      else case database_content dbPath fs of
        None \<Rightarrow> (Inl (ErrOpenStep OpenWAL), fs)
      | Some s \<Rightarrow>
          if \<not> ok OpenWAL then (Inl (ErrOpenStep OpenWAL), fs)
          else let fs' = AList.update dbPath (DatabaseFile s) fs in
            if \<not> ok OpenSynchronous then (Inl (ErrOpenStep OpenSynchronous), fs')
            else if \<not> ok OpenForeignKeys then (Inl (ErrOpenStep OpenForeignKeys), fs')
            else (Inr s, fs'))"

datatype get_error = GetOpen open_error | GetMigrate mig_error

text \<open>\<^verbatim>\<open>getStore\<close>: the store at a path, its schema brought up to date. What was migrated before an
  error stays in the file.\<close>

definition getStore ::
  "(open_step \<Rightarrow> bool) \<Rightarrow> (mig_step \<Rightarrow> bool) \<Rightarrow> gotime \<Rightarrow> string \<Rightarrow> host_files \<Rightarrow> (get_error + SQLiteStore) \<times> host_files" where
  "getStore ok ex now dbPath fs =
     (case OpenSQLite ok dbPath fs of
        (Inl e, fs') \<Rightarrow> (Inl (GetOpen e), fs')
      | (Inr s, fs') \<Rightarrow>
          (case ApplyMigrations ex now s of
             (Some e, s') \<Rightarrow> (Inl (GetMigrate e), AList.update dbPath (DatabaseFile s') fs')
           | (None, s') \<Rightarrow> (Inr s', AList.update dbPath (DatabaseFile s') fs')))"

section \<open>Backing up\<close>

datatype backup_step = BackupMkdir | BackupRemove | BackupVacuum

datatype backup_error = ErrBackupPathEmpty | ErrBackupStep backup_step

text \<open>The destination is removed first, and whether that worked is not looked at.\<close>

definition Backup :: "(backup_step \<Rightarrow> bool) \<Rightarrow> string \<Rightarrow> SQLiteStore \<Rightarrow> host_files \<Rightarrow> backup_error option \<times> host_files" where
  "Backup ok destPath s fs =
     (if destPath = [] then (Some ErrBackupPathEmpty, fs)
      else if \<not> ok BackupMkdir then (Some (ErrBackupStep BackupMkdir), fs)
      else let fs' = (if ok BackupRemove then AList.delete destPath fs else fs) in
        if \<not> ok BackupVacuum \<or> map_of fs' destPath \<noteq> None then (Some (ErrBackupStep BackupVacuum), fs')
        else (None, AList.update destPath (DatabaseFile s) fs'))"

text \<open>\<^verbatim>\<open>VACUUM\<close> rewrites the file and leaves the content.\<close>

definition Vacuum :: "bool \<Rightarrow> SQLiteStore \<Rightarrow> store_error option \<times> SQLiteStore" where
  "Vacuum ok s = (if ok then None else Some ErrDB, s)"

text \<open>\<^verbatim>\<open>Close\<close> of a handle that may be closed already: the error of the driver, if any, and the closed handle.\<close>

definition Close :: "store_error option \<Rightarrow> string option \<Rightarrow> store_error option \<times> string option" where
  "Close err handle = (case handle of None \<Rightarrow> (None, None) | Some _ \<Rightarrow> (err, None))"

section \<open>What opening keeps\<close>

text \<open>The data a path holds for those who open it as a database: all but the schema.\<close>

definition file_data :: "string \<Rightarrow> host_files \<Rightarrow> SQLiteStore option" where
  "file_data path fs = map_option (\<lambda>s. s\<lparr>dbObjects := [], dbMigrations := []\<rparr>) (database_content path fs)"

lemma database_content_update [simp]:
  "database_content p (AList.update q (DatabaseFile s) fs) = (if p = q then Some s else database_content p fs)"
  by (simp add: database_content_def update_conv)

lemma database_content_delete:
  "database_content p (AList.delete q fs) = (if p = q then Some emptyDB else database_content p fs)"
  by (simp add: database_content_def delete_conv)

lemma OpenSQLite_content: "database_content p (snd (OpenSQLite ok dbPath fs)) = database_content p fs"
  by (auto simp: OpenSQLite_def Let_def split: option.split)

lemma OpenSQLite_Inr:
  "OpenSQLite ok dbPath fs = (Inr s, fs') \<Longrightarrow> database_content dbPath fs = Some s \<and> fs' = AList.update dbPath (DatabaseFile s) fs"
  by (auto simp: OpenSQLite_def Let_def split: option.splits if_splits)

lemma OpenSQLite_works:
  assumes "\<And>st. ok st" "dbPath \<noteq> []" "database_content dbPath fs = Some s"
  shows "OpenSQLite ok dbPath fs = (Inr s, AList.update dbPath (DatabaseFile s) fs)"
  using assms by (simp add: OpenSQLite_def)

lemma same_data_iff: "same_data s s' \<longleftrightarrow> s'\<lparr>dbObjects := [], dbMigrations := []\<rparr> = s\<lparr>dbObjects := [], dbMigrations := []\<rparr>"
  by (cases s; cases s') (auto simp: same_data_def)

lemma getStore_Inr:
  assumes "getStore ok ex now dbPath fs = (Inr s', fs')"
  shows "database_content dbPath fs' = Some s' \<and> (\<exists>s. database_content dbPath fs = Some s \<and> same_data s s')"
proof -
  obtain s fs1 where o: "OpenSQLite ok dbPath fs = (Inr s, fs1)"
    using assms by (auto simp: getStore_def split: prod.splits sum.splits)
  obtain r s1 where m: "ApplyMigrations ex now s = (r, s1)" by (cases "ApplyMigrations ex now s")
  have "r = None" "s1 = s'" "fs' = AList.update dbPath (DatabaseFile s') fs1"
    using assms o m by (auto simp: getStore_def split: option.splits)
  then show ?thesis using OpenSQLite_Inr [OF o] ApplyMigrations_data [of s ex now] m by auto
qed

text \<open>Whatever happens while the store is opened, the data of every file stay.\<close>

lemma getStore_data: "file_data p (snd (getStore ok ex now dbPath fs)) = file_data p fs"
proof (cases "OpenSQLite ok dbPath fs")
  case (Pair r fs1)
  have keep: "database_content p fs1 = database_content p fs" using OpenSQLite_content [of p ok dbPath fs] Pair by simp
  show ?thesis
  proof (cases r)
    case (Inr s)
    obtain e s1 where m: "ApplyMigrations ex now s = (e, s1)" by (cases "ApplyMigrations ex now s")
    have "same_data s s1" using ApplyMigrations_data [of s ex now] m by simp
    moreover have "database_content dbPath fs = Some s" using OpenSQLite_Inr Pair Inr by blast
    moreover have "snd (getStore ok ex now dbPath fs) = AList.update dbPath (DatabaseFile s1) fs1"
      using Pair Inr m by (cases e) (simp_all add: getStore_def)
    ultimately show ?thesis using keep by (simp add: file_data_def same_data_iff)
  qed (use Pair keep in \<open>simp add: getStore_def file_data_def\<close>)
qed

lemma getStore_works:
  assumes "\<And>st. ok st" "\<And>st. ex st" "dbPath \<noteq> []" "database_content dbPath fs = Some s" "schema_at n s"
  shows "\<exists>s' fs'. getStore ok ex now dbPath fs = (Inr s', fs')"
proof -
  obtain r s1 where m: "ApplyMigrations ex now s = (r, s1)" by (cases "ApplyMigrations ex now s")
  have "r = None" using ApplyMigrations_step [OF assms(5) m] assms(2) by auto
  then show ?thesis using m OpenSQLite_works [OF assms(1,3,4)] by (simp add: getStore_def)
qed

section \<open>What a backup keeps\<close>

lemma Backup_None:
  "Backup ok dest s fs = (None, fs') \<Longrightarrow> map_of fs' dest = Some (DatabaseFile s) \<and> (\<forall>p. p \<noteq> dest \<longrightarrow> map_of fs' p = map_of fs p)"
  by (auto simp: Backup_def Let_def update_conv delete_conv split: if_splits)

text \<open>A backup that fails has already removed the backup that was there.\<close>

lemma failed_backup_loses_previous:
  assumes "dest \<noteq> []" "ok BackupMkdir" "ok BackupRemove" "\<not> ok BackupVacuum"
  shows "fst (Backup ok dest s fs) \<noteq> None \<and> map_of (snd (Backup ok dest s fs)) dest = None"
  using assms by (simp add: Backup_def delete_conv)

end
