(* ===== verification/Npmrc.thy ===== *)
theory Npmrc
  imports Gopath
begin

text \<open>
  The npm configuration file: \<^verbatim>\<open>src/internal/config/npmrc.go\<close>. The three regular expressions of the
  file are written out as matchers on bytes, with RE2's space class and case folding. Reading a
  file gives \<open>None\<close> when it does not exist. The host of a URL is a parameter, \<^verbatim>\<open>url.Parse\<close>.
\<close>

section \<open>Matchers\<close>

definition re_space :: "char \<Rightarrow> bool" where
  "re_space c = (byte c = 9 \<or> byte c = 10 \<or> byte c = 12 \<or> byte c = 13 \<or> byte c = 32)"

text \<open>A case-insensitive literal, given in lower case: what follows it. Besides the two cases of a
  letter, \<open>s\<close> also matches U+017F and \<open>k\<close> U+212A.\<close>

fun fold_prefix :: "string \<Rightarrow> string \<Rightarrow> string option" where
  "fold_prefix [] s = Some s"
| "fold_prefix (p # ps) [] = None"
| "fold_prefix (p # ps) (c # s) =
     (if lower_byte c = p then fold_prefix ps s
      else if p = CHR ''s'' \<and> map byte (take 2 (c # s)) = [197, 191] then fold_prefix ps (drop 1 s)
      else if p = CHR ''k'' \<and> map byte (take 3 (c # s)) = [226, 132, 170] then fold_prefix ps (drop 2 s)
      else None)"

fun any_suffix :: "(string \<Rightarrow> bool) \<Rightarrow> string \<Rightarrow> bool" where
  "any_suffix P [] = P []"
| "any_suffix P (c # s) = (P (c # s) \<or> any_suffix P s)"

text \<open>What follows \<open>registry\<close> and an equals sign, with white space around both.\<close>

definition after_registry :: "string \<Rightarrow> string option" where
  "after_registry s =
     (case fold_prefix ''registry'' (dropWhile re_space s) of
        None \<Rightarrow> None
      | Some r \<Rightarrow> (case dropWhile re_space r of [] \<Rightarrow> None | c # u \<Rightarrow> if c = CHR ''='' then Some u else None))"

definition registryKeyRegex :: "string \<Rightarrow> string option" where
  "registryKeyRegex line =
     map_option (\<lambda>v. rev (dropWhile re_space (rev (dropWhile re_space v)))) (after_registry line)"

definition scopedKeyRegex :: "string \<Rightarrow> bool" where
  "scopedKeyRegex s =
     (case dropWhile re_space s of
        [] \<Rightarrow> False
      | c # r \<Rightarrow> c = CHR ''@'' \<and> any_suffix (\<lambda>t. case t of [] \<Rightarrow> False | d # u \<Rightarrow> d = CHR '':'' \<and> after_registry u \<noteq> None) r)"

definition always_auth :: "string \<Rightarrow> bool" where
  "always_auth t =
     (case fold_prefix ''always-auth'' t of
        None \<Rightarrow> False
      | Some r \<Rightarrow> (case dropWhile re_space r of [] \<Rightarrow> False
                | c # u \<Rightarrow> c = CHR ''='' \<and> fold_prefix ''true'' (dropWhile re_space u) \<noteq> None))"

definition authPatternRegex :: "string \<Rightarrow> bool" where
  "authPatternRegex s =
     any_suffix (\<lambda>t. fold_prefix ''_authtoken'' t \<noteq> None \<or> fold_prefix ''_auth'' t \<noteq> None \<or>
       fold_prefix ''_password'' t \<noteq> None \<or> always_auth t) s"

section \<open>Inspection\<close>

datatype npmrc_error = ErrReadNpmrc string | ErrUnsupportedAuth | ErrUnsupportedScopedRegistry | ErrPrivateRegistry string string

record NpmrcInfo =
  niPath :: string
  niExists :: bool
  niRawContent :: string
  niLines :: "string list"
  niHasRegistry :: bool
  niRegistryValue :: string
  niRegistryLineIdx :: int
  niLineEnding :: string

definition LF :: char where "LF = CHR 0x0A"
definition CR :: char where "CR = CHR 0x0D"

definition DefaultNpmrcPath :: "string \<Rightarrow> string option \<Rightarrow> string" where
  "DefaultNpmrcPath userConfigEnv home =
     (if userConfigEnv \<noteq> [] then userConfigEnv
      else case home of
        Some h \<Rightarrow> if h \<noteq> [] then path_Join [h, ''.npmrc''] else ''.npmrc''
      | None \<Rightarrow> ''.npmrc'')"

definition detectLineEnding :: "string \<Rightarrow> string" where
  "detectLineEnding data = (if Contains data [CR, LF] then [CR, LF] else [LF])"

text \<open>\<^verbatim>\<open>strings.ReplaceAll(data, "\r\n", "\n")\<close>.\<close>

fun crlf_to_lf :: "string \<Rightarrow> string" where
  "crlf_to_lf (a # b # s) = (if a = CR \<and> b = LF then LF # crlf_to_lf s else a # crlf_to_lf (b # s))"
| "crlf_to_lf s = s"

definition lines_of :: "string \<Rightarrow> string list" where
  "lines_of data = Split LF (crlf_to_lf data)"

definition ignored_line :: "string \<Rightarrow> bool" where
  "ignored_line line =
     (let trimmed = TrimSpace line in trimmed = [] \<or> HasPrefix trimmed ''#'' \<or> HasPrefix trimmed '';'')"

text \<open>The registry setting found so far, with its line.\<close>

fun inspect_lines :: "nat \<Rightarrow> string list \<Rightarrow> (string \<times> nat) option \<Rightarrow> npmrc_error + (string \<times> nat) option" where
  "inspect_lines idx [] found = Inr found"
| "inspect_lines idx (line # lines) found =
     (if ignored_line line then inspect_lines (idx + 1) lines found
      else if authPatternRegex (TrimSpace line) then Inl ErrUnsupportedAuth
      else if scopedKeyRegex (TrimSpace line) then Inl ErrUnsupportedScopedRegistry
      else case registryKeyRegex line of
        Some v \<Rightarrow> inspect_lines (idx + 1) lines (Some (v, idx))
      | None \<Rightarrow> inspect_lines (idx + 1) lines found)"

definition trim_quotes :: "string \<Rightarrow> string" where
  "trim_quotes s =
     (let q = (\<lambda>c. c = CHR 0x22 \<or> c = CHR 0x27) in rev (dropWhile q (rev (dropWhile q s))))"

definition validateRegistryURL :: "(string \<Rightarrow> string option) \<Rightarrow> string \<Rightarrow> string \<Rightarrow> npmrc_error option" where
  "validateRegistryURL hostname rawURL path =
     (let trimmed = trim_quotes (TrimSpace rawURL) in
      if trimmed = [] then None
      else
        let norm = TrimSuffix trimmed ''/'' in
        if norm = ''https://registry.npmjs.org'' \<or> norm = ''http://registry.npmjs.org'' then None
        else if hostname trimmed = Some ''127.0.0.1'' \<or> hostname trimmed = Some ''localhost'' then None
        else Some (ErrPrivateRegistry trimmed path))"

definition InspectNpmrc :: "(string \<Rightarrow> string option) \<Rightarrow> string \<Rightarrow> string option \<Rightarrow> npmrc_error + NpmrcInfo" where
  "InspectNpmrc hostname path content =
     (case content of
        None \<Rightarrow> Inr \<lparr>niPath = path, niExists = False, niRawContent = [], niLines = [], niHasRegistry = False,
                     niRegistryValue = [], niRegistryLineIdx = - 1, niLineEnding = [LF]\<rparr>
      | Some data \<Rightarrow>
          let info = \<lparr>niPath = path, niExists = True, niRawContent = data, niLines = lines_of data, niHasRegistry = False,
                      niRegistryValue = [], niRegistryLineIdx = - 1, niLineEnding = detectLineEnding data\<rparr>
          in (case inspect_lines 0 (lines_of data) None of
                Inl e \<Rightarrow> Inl e
              | Inr None \<Rightarrow> Inr info
              | Inr (Some (v, idx)) \<Rightarrow>
                  (case validateRegistryURL hostname v path of
                     Some e \<Rightarrow> Inl e
                   | None \<Rightarrow> Inr (info\<lparr>niHasRegistry := True, niRegistryValue := v, niRegistryLineIdx := int idx\<rparr>))))"

section \<open>Generated content\<close>

definition ensureTrailingSlash :: "string \<Rightarrow> string" where
  "ensureTrailingSlash u = (if \<not> HasSuffix u ''/'' then u @ ''/'' else u)"

definition GenerateEnabledContent :: "NpmrcInfo \<Rightarrow> string \<Rightarrow> string" where
  "GenerateEnabledContent info gatewayURL =
     (let targetLine = ''registry='' @ ensureTrailingSlash gatewayURL in
      if \<not> niExists info then targetLine @ [LF]
      else
        let le = niLineEnding info in
        if niHasRegistry info \<and> niRegistryLineIdx info \<ge> 0 \<and> niRegistryLineIdx info < int (length (niLines info))
        then Join le ((niLines info)[nat (niRegistryLineIdx info) := targetLine])
        else
          let raw = niRawContent info in
          if raw = [] then targetLine @ le
          else if HasSuffix raw [LF] \<or> HasSuffix raw [CR, LF] then raw @ targetLine @ le
          else raw @ le @ targetLine @ le)"

record PriorConfig =
  pcFileExisted :: bool
  pcHasRegistry :: bool
  pcRegistryValue :: string
  pcRawContent :: string

definition GenerateRestoredContent :: "string \<Rightarrow> PriorConfig \<Rightarrow> string option" where
  "GenerateRestoredContent currentContent prior = (if \<not> pcFileExisted prior then None else Some (pcRawContent prior))"

section \<open>Lines\<close>

lemma LF_CR [simp]: "LF \<noteq> CR" "CR \<noteq> LF"
  by (simp_all add: LF_def CR_def)

lemma crlf_append_CRLF: "LF \<notin> set l \<Longrightarrow> crlf_to_lf (l @ CR # LF # s) = l @ LF # crlf_to_lf s"
proof (induction l)
  case (Cons a l)
  then show ?case by (cases l) auto
qed simp

lemma crlf_append_LF: "LF \<notin> set l \<Longrightarrow> l = [] \<or> last l \<noteq> CR \<Longrightarrow> crlf_to_lf (l @ LF # s) = l @ LF # crlf_to_lf s"
proof (induction l)
  case Nil
  then show ?case by (cases s) auto
next
  case (Cons a l)
  then show ?case by (cases l) (auto split: if_splits)
qed

lemma crlf_LF [simp]: "crlf_to_lf (LF # s) = LF # crlf_to_lf s"
  using crlf_append_LF [of "[]" s] by simp

lemma crlf_no_LF: "LF \<notin> set l \<Longrightarrow> crlf_to_lf l = l"
  by (induction l rule: crlf_to_lf.induct) auto

text \<open>Joined lines are read back, when no line has a line feed and, with plain line feeds, none but
  the last ends in a carriage return.\<close>

definition plain_lines :: "string \<Rightarrow> string list \<Rightarrow> bool" where
  "plain_lines le ls = ((le = [LF] \<or> le = [CR, LF]) \<and> ls \<noteq> [] \<and> list_all (\<lambda>l. LF \<notin> set l) ls \<and>
     (le = [LF] \<longrightarrow> list_all (\<lambda>l. l = [] \<or> last l \<noteq> CR) (butlast ls)))"

lemma lines_of_no_LF: "LF \<notin> set l \<Longrightarrow> lines_of l = [l]"
  by (simp add: lines_of_def crlf_no_LF Split_no_sep)

lemma lines_of_Join: "plain_lines le ls \<Longrightarrow> lines_of (Join le ls) = ls"
proof (induction ls)
  case (Cons l ls)
  show ?case
  proof (cases ls)
    case Nil
    then show ?thesis using Cons.prems by (simp add: plain_lines_def lines_of_no_LF)
  next
    case (Cons m ms)
    have ih: "lines_of (Join le ls) = ls" using Cons.IH Cons.prems Cons by (auto simp: plain_lines_def)
    have "lines_of (l @ le @ Join le ls) = l # lines_of (Join le ls)"
      using Cons.prems Cons by (auto simp: plain_lines_def lines_of_def crlf_append_CRLF crlf_append_LF Split_append_sep)
    then show ?thesis using ih Cons by simp
  qed
qed (simp add: plain_lines_def)

lemma crlf_lines_plain:
  assumes "\<not> Contains data [CR, LF]"
  shows "crlf_to_lf data = data" "list_all (\<lambda>l. l = [] \<or> last l \<noteq> CR) (butlast (Split LF data))"
proof -
  show "crlf_to_lf data = data" using assms by (induction data rule: crlf_to_lf.induct) auto
  show "list_all (\<lambda>l. l = [] \<or> last l \<noteq> CR) (butlast (Split LF data))"
    using assms
  proof (induction data)
    case (Cons a data)
    have ih: "list_all (\<lambda>l. l = [] \<or> last l \<noteq> CR) (butlast (Split LF data))" using Cons by simp
    obtain l ls where l: "Split LF data = l # ls" by (cases "Split LF data") auto
    show ?case
    proof (cases "a = CR \<and> l = [] \<and> ls \<noteq> []")
      case True
      then have "\<exists>d. data = LF # d" using l by (cases data) (auto split: if_splits list.splits)
      then show ?thesis using Cons.prems True by auto
    next
      case False
      then show ?thesis using ih l by (cases ls) (auto split: if_splits)
    qed
  qed simp
qed

lemma lines_of_plain: "plain_lines (detectLineEnding data) (lines_of data)"
  using crlf_lines_plain [of data] Split_parts_no_sep [of _ LF "crlf_to_lf data"]
  by (auto simp: plain_lines_def detectLineEnding_def lines_of_def list_all_iff)

lemma crlf_split: "crlf_to_lf (x @ LF # y) = crlf_to_lf (x @ [LF]) @ crlf_to_lf y"
proof (induction x rule: crlf_to_lf.induct, goal_cases)
  case (3 a)
  then show ?case by (cases "a = CR") auto
qed auto

lemma crlf_end_CRLF: "crlf_to_lf (x @ [CR, LF]) = crlf_to_lf x @ [LF]"
  by (induction x rule: crlf_to_lf.induct) auto

lemma crlf_end_LF: "\<not> HasSuffix x [CR] \<Longrightarrow> crlf_to_lf (x @ [LF]) = crlf_to_lf x @ [LF]"
proof (induction x rule: crlf_to_lf.induct)
  case (1 a b s)
  then show ?case by (cases "s = []") (auto simp: HasSuffix_iff Cons_eq_append_conv)
qed (auto simp: HasSuffix_def)

lemma crlf_ends_LF: "\<exists>c. crlf_to_lf (x @ [LF]) = c @ [LF]"
proof -
  have "crlf_to_lf (x @ [LF]) \<noteq> [] \<and> last (crlf_to_lf (x @ [LF])) = LF"
  proof (induction x rule: crlf_to_lf.induct, goal_cases)
    case (3 a)
    then show ?case by (cases "a = CR") auto
  qed auto
  then show ?thesis by (metis append_butlast_last_id)
qed

text \<open>Appending a line to a file.\<close>

lemma lines_of_last_line: "LF \<notin> set t \<Longrightarrow> le = [LF] \<or> le = [CR, LF] \<Longrightarrow> t = [] \<or> last t \<noteq> CR \<Longrightarrow> lines_of (t @ le) = [t, []]"
  using crlf_append_CRLF [of t "[]"] crlf_append_LF [of t "[]"] by (auto simp: lines_of_def Split_append_sep)

lemma lines_of_after_LF: "lines_of ((x @ [LF]) @ y) = butlast (lines_of (x @ [LF])) @ lines_of y"
proof -
  obtain c where c: "crlf_to_lf (x @ [LF]) = c @ [LF]" using crlf_ends_LF by blast
  then have "crlf_to_lf ((x @ [LF]) @ y) = c @ LF # crlf_to_lf y" using crlf_split [of x y] by simp
  then show ?thesis using c by (simp add: lines_of_def Split_append)
qed

lemma lines_of_append_line:
  assumes "le = [LF] \<or> le = [CR, LF]" "\<not> HasSuffix x [CR]"
  shows "lines_of (x @ le @ y) = lines_of x @ lines_of y"
proof -
  have "crlf_to_lf (x @ le @ y) = crlf_to_lf x @ LF # crlf_to_lf y"
    using assms crlf_split [of "x @ [CR]" y] crlf_split [of x y] crlf_end_CRLF [of x] crlf_end_LF [of x] by auto
  then show ?thesis by (simp add: lines_of_def Split_append)
qed

section \<open>Registry settings\<close>

definition accepted_line :: "string \<Rightarrow> bool" where
  "accepted_line line = (ignored_line line \<or> (\<not> authPatternRegex (TrimSpace line) \<and> \<not> scopedKeyRegex (TrimSpace line)))"

definition registry_of :: "string \<Rightarrow> string option" where
  "registry_of line = (if ignored_line line then None else registryKeyRegex line)"

fun last_registry :: "nat \<Rightarrow> string list \<Rightarrow> (string \<times> nat) option \<Rightarrow> (string \<times> nat) option" where
  "last_registry idx [] found = found"
| "last_registry idx (l # ls) found =
     last_registry (idx + 1) ls (case registry_of l of Some v \<Rightarrow> Some (v, idx) | None \<Rightarrow> found)"

lemma inspect_lines_Inr:
  "inspect_lines idx ls found = Inr res \<longleftrightarrow> list_all accepted_line ls \<and> res = last_registry idx ls found"
  by (induction ls arbitrary: idx found) (auto simp: accepted_line_def registry_of_def split: option.splits)

lemma last_registry_append: "last_registry idx (a @ b) f = last_registry (idx + length a) b (last_registry idx a f)"
  by (induction a arbitrary: idx f) auto

lemma last_registry_none: "list_all (\<lambda>l. registry_of l = None) ls \<Longrightarrow> last_registry idx ls f = f"
  by (induction ls arbitrary: idx f) auto

lemma last_registry_Some:
  assumes "last_registry 0 ls None = Some (v, i)"
  shows "\<exists>a x b. ls = a @ x # b \<and> i = length a \<and> registry_of x = Some v \<and> list_all (\<lambda>l. registry_of l = None) b"
  using assms
proof (induction ls rule: rev_induct)
  case (snoc x xs)
  show ?case
  proof (cases "registry_of x")
    case None
    then have "last_registry 0 xs None = Some (v, i)" using snoc.prems by (simp add: last_registry_append)
    then obtain a y b where "xs = a @ y # b" "i = length a" "registry_of y = Some v" "list_all (\<lambda>l. registry_of l = None) b"
      using snoc.IH by blast
    then show ?thesis using None by (intro exI [of _ a] exI [of _ y] exI [of _ "b @ [x]"]) simp
  next
    case (Some w)
    then show ?thesis using snoc.prems by (intro exI [of _ xs] exI [of _ x] exI [of _ "[]"]) (simp add: last_registry_append)
  qed
qed simp

lemma last_registry_replace:
  assumes "last_registry 0 ls None = Some (v, i)" "registry_of t = Some w"
  shows "i < length ls \<and> last_registry 0 (ls[i := t]) None = Some (w, i)"
proof -
  obtain a x b where "ls = a @ x # b" "i = length a" "list_all (\<lambda>l. registry_of l = None) b"
    using last_registry_Some [OF assms(1)] by blast
  then show ?thesis using assms(2) by (simp add: last_registry_append last_registry_none list_update_append)
qed

definition file_info :: "string \<Rightarrow> string \<Rightarrow> NpmrcInfo" where
  "file_info path data = \<lparr>niPath = path, niExists = True, niRawContent = data, niLines = lines_of data, niHasRegistry = False,
     niRegistryValue = [], niRegistryLineIdx = - 1, niLineEnding = detectLineEnding data\<rparr>"

lemma InspectNpmrc_accepted:
  assumes "list_all accepted_line (lines_of data)"
  shows "InspectNpmrc hostname path (Some data) =
     (case last_registry 0 (lines_of data) None of
        None \<Rightarrow> Inr (file_info path data)
      | Some (v, i) \<Rightarrow> (case validateRegistryURL hostname v path of
           Some e \<Rightarrow> Inl e
         | None \<Rightarrow> Inr ((file_info path data)\<lparr>niHasRegistry := True, niRegistryValue := v, niRegistryLineIdx := int i\<rparr>)))"
proof -
  have "inspect_lines 0 (lines_of data) None = Inr (last_registry 0 (lines_of data) None)"
    using assms by (simp add: inspect_lines_Inr)
  then show ?thesis unfolding InspectNpmrc_def file_info_def [symmetric] Let_def by simp
qed

lemma InspectNpmrc_Inr_accepted: "InspectNpmrc hostname path (Some data) = Inr info \<Longrightarrow> list_all accepted_line (lines_of data)"
  by (cases "inspect_lines 0 (lines_of data) None") (auto simp: InspectNpmrc_def inspect_lines_Inr split: option.splits)

text \<open>A gateway URL that makes a registry line the inspection accepts.\<close>

definition gateway_line :: "string \<Rightarrow> string" where
  "gateway_line url = ''registry='' @ ensureTrailingSlash url"

definition usable_url :: "(string \<Rightarrow> string option) \<Rightarrow> string \<Rightarrow> string \<Rightarrow> bool" where
  "usable_url hostname path url =
     (list_all (\<lambda>c. \<not> re_space c) url \<and> \<not> authPatternRegex (gateway_line url) \<and>
      validateRegistryURL hostname (ensureTrailingSlash url) path = None)"

lemma ensureTrailingSlash_shape:
  "ensureTrailingSlash u \<noteq> []" "last (ensureTrailingSlash u) = CHR ''/''" "set (ensureTrailingSlash u) \<subseteq> insert (CHR ''/'') (set u)"
  by (auto simp: ensureTrailingSlash_def HasSuffix_iff)

lemma strip_spaces: "v \<noteq> [] \<Longrightarrow> list_all (\<lambda>c. \<not> re_space c) v \<Longrightarrow> rev (dropWhile re_space (rev (dropWhile re_space v))) = v"
  by (simp add: list_all_iff dropWhile_eq_self_iff [THEN iffD2] hd_rev)

lemma usable_slash: "usable_url hostname path url \<Longrightarrow> list_all (\<lambda>c. \<not> re_space c) (ensureTrailingSlash url)"
  using ensureTrailingSlash_shape(3) [of url] by (force simp: usable_url_def list_all_iff re_space_def)

lemma gateway_line_trim: "TrimSpace (gateway_line url) = gateway_line url"
  using ensureTrailingSlash_shape [of url] by (intro TrimSpace_id) (simp_all add: gateway_line_def ascii_space_def)

lemma gateway_line_not_ignored: "\<not> ignored_line (gateway_line url)"
  unfolding ignored_line_def gateway_line_trim Let_def by (simp add: gateway_line_def)

lemma gateway_line_registry:
  assumes "usable_url hostname path url"
  shows "registry_of (gateway_line url) = Some (ensureTrailingSlash url)"
proof -
  have "after_registry (gateway_line url) = Some (ensureTrailingSlash url)"
    by (simp add: after_registry_def gateway_line_def re_space_def lower_byte_def)
  then show ?thesis
    using strip_spaces [OF ensureTrailingSlash_shape(1) usable_slash [OF assms]] gateway_line_not_ignored
    by (simp add: registry_of_def registryKeyRegex_def)
qed

lemma gateway_line_accepted: "usable_url hostname path url \<Longrightarrow> accepted_line (gateway_line url)"
  by (simp add: accepted_line_def gateway_line_trim usable_url_def scopedKeyRegex_def)
     (simp add: gateway_line_def re_space_def)

lemma gateway_line_chars:
  assumes "usable_url hostname path url"
  shows "LF \<notin> set (gateway_line url)" "gateway_line url \<noteq> []" "last (gateway_line url) \<noteq> CR"
proof -
  have "LF \<notin> set (ensureTrailingSlash url)" using usable_slash [OF assms] by (auto simp: list_all_iff re_space_def LF_def)
  then show "LF \<notin> set (gateway_line url)" by (simp add: gateway_line_def LF_def)
  show "gateway_line url \<noteq> []" "last (gateway_line url) \<noteq> CR"
    using ensureTrailingSlash_shape [of url] by (simp_all add: gateway_line_def CR_def)
qed

text \<open>The lines of the generated file.\<close>

definition enabled_lines :: "NpmrcInfo \<Rightarrow> string \<Rightarrow> string list" where
  "enabled_lines info url =
     (if niHasRegistry info then (niLines info)[nat (niRegistryLineIdx info) := gateway_line url]
      else (if niLines info \<noteq> [] \<and> last (niLines info) = [] then butlast (niLines info) else niLines info) @ [gateway_line url, []])"

lemma last_Split_snoc: "z \<noteq> c \<Longrightarrow> last (Split c (y @ [z])) = last (Split c y) @ [z]"
proof (induction y)
  case (Cons a y)
  obtain p ps where p: "Split c y = p # ps" by (cases "Split c y") auto
  obtain q qs where q: "Split c (y @ [z]) = q # qs" by (cases "Split c (y @ [z])") auto
  show ?case
  proof (cases "a = c")
    case False
    have "qs = [] \<longleftrightarrow> ps = []"
    proof -
      have "length (Split c s) = Suc (length (filter (\<lambda>x. x = c) s))" for s by (induction s) (auto split: list.splits)
      from this [of y] this [of "y @ [z]"] show ?thesis using p q Cons.prems by (simp add: length_0_conv [symmetric] del: length_0_conv)
    qed
    then show ?thesis using Cons False p q by (cases "ps = []") auto
  qed (use Cons in simp)
qed simp

lemma last_Split_LF: "last (Split c x) = [] \<longleftrightarrow> x = [] \<or> HasSuffix x [c]"
proof (cases x rule: rev_cases)
  case (snoc y z)
  then show ?thesis by (cases "z = c") (auto simp: Split_append last_Split_snoc HasSuffix_iff)
qed simp

lemma last_lines_of: "last (lines_of x) = [] \<longleftrightarrow> x = [] \<or> HasSuffix x [LF]"
proof (cases "HasSuffix x [LF]")
  case True
  then obtain y where "x = y @ [LF]" by (auto simp: HasSuffix_iff)
  then show ?thesis using crlf_ends_LF [of y] by (auto simp: lines_of_def last_Split_LF HasSuffix_iff)
next
  case False
  have e: "crlf_to_lf y = [] \<longleftrightarrow> y = []" for y by (cases y rule: crlf_to_lf.cases) auto
  have "x \<noteq> [] \<Longrightarrow> last (crlf_to_lf x) = last x" by (induction x rule: crlf_to_lf.induct) (auto simp: e)
  then show ?thesis using False
    by (auto simp: lines_of_def last_Split_LF HasSuffix_iff e) (metis append_butlast_last_id last_snoc)+
qed

lemma plain_lines_update:
  assumes "plain_lines le ls" "LF \<notin> set t" "last t \<noteq> CR"
  shows "plain_lines le (ls[i := t])"
proof -
  have "set (butlast (ls[i := t])) \<subseteq> insert t (set (butlast ls))"
    by (simp add: butlast_list_update set_update_subset_insert subset_insertI)
  moreover have "set (ls[i := t]) \<subseteq> insert t (set ls)" by (rule set_update_subset_insert)
  ultimately show ?thesis using assms by (auto simp: plain_lines_def list_all_iff)
qed

lemma lines_of_enabled:
  assumes "InspectNpmrc hostname path content = Inr info" "usable_url hostname path url"
    and "\<And>data. content = Some data \<Longrightarrow> \<not> HasSuffix data [CR]"
  shows "lines_of (GenerateEnabledContent info url) = enabled_lines info url"
proof (cases content)
  case None
  then have "info = \<lparr>niPath = path, niExists = False, niRawContent = [], niLines = [], niHasRegistry = False,
      niRegistryValue = [], niRegistryLineIdx = - 1, niLineEnding = [LF]\<rparr>"
    using assms(1) by (simp add: InspectNpmrc_def)
  then show ?thesis
    using lines_of_last_line [of "gateway_line url" "[LF]"] gateway_line_chars [OF assms(2)]
    by (simp add: GenerateEnabledContent_def enabled_lines_def gateway_line_def)
next
  case (Some data)
  note t = gateway_line_chars [OF assms(2)]
  have acc: "list_all accepted_line (lines_of data)" using InspectNpmrc_Inr_accepted assms(1) Some by blast
  have le: "detectLineEnding data = [LF] \<or> detectLineEnding data = [CR, LF]" by (simp add: detectLineEnding_def)
  show ?thesis
  proof (cases "last_registry 0 (lines_of data) None")
    case None
    then have i: "info = file_info path data" using assms(1) Some InspectNpmrc_accepted [OF acc] by simp
    note tl = lines_of_last_line [OF t(1) le disjI2 [OF t(3)]]
    have le': "le = detectLineEnding data \<Longrightarrow> lines_of (GenerateEnabledContent info url) =
       (if data = [] then lines_of (gateway_line url @ le) else if HasSuffix data [LF] then lines_of (data @ gateway_line url @ le)
        else lines_of (data @ le @ gateway_line url @ le))" for le
      by (auto simp: i GenerateEnabledContent_def gateway_line_def file_info_def Let_def HasSuffix_iff)
    have lines: "lines_of data \<noteq> []" by (simp add: lines_of_def)
    consider "data = []" | y where "data = y @ [LF]" | "data \<noteq> []" "\<not> HasSuffix data [LF]" by (auto simp: HasSuffix_iff)
    then show ?thesis
    proof cases
      case 1
      then show ?thesis using le' tl by (simp add: i enabled_lines_def file_info_def lines_of_no_LF)
    next
      case 2
      have "last (lines_of data) = []" using 2 by (simp add: last_lines_of)
      then show ?thesis using 2 le' tl lines lines_of_after_LF [of y "gateway_line url @ detectLineEnding data"]
        by (simp add: i enabled_lines_def file_info_def)
    next
      case 3
      have "last (lines_of data) \<noteq> []" using 3 by (simp add: last_lines_of)
      then show ?thesis using 3 le' tl lines_of_append_line [OF le assms(3) [OF Some], of "gateway_line url @ detectLineEnding data"]
        by (simp add: i enabled_lines_def file_info_def)
    qed
  next
    case (Some r)
    obtain v k where r: "r = (v, k)" by (cases r)
    then have i: "info = (file_info path data)\<lparr>niHasRegistry := True, niRegistryValue := v, niRegistryLineIdx := int k\<rparr>"
      using assms(1) \<open>content = Some data\<close> InspectNpmrc_accepted [OF acc] Some by (auto split: option.splits)
    have "k < length (lines_of data)"
      using last_registry_replace [OF Some [unfolded r] gateway_line_registry [OF assms(2)]] by simp
    then show ?thesis
      using lines_of_Join [OF plain_lines_update [OF lines_of_plain t(1,3), of data k]]
      by (simp add: i GenerateEnabledContent_def gateway_line_def file_info_def enabled_lines_def Let_def)
  qed
qed

lemma enabled_lines_accepted:
  assumes "list_all accepted_line (niLines info)" "usable_url hostname path url"
  shows "list_all accepted_line (enabled_lines info url)"
proof -
  have "accepted_line []" by (simp add: accepted_line_def ignored_line_def)
  then show ?thesis
    using assms gateway_line_accepted [OF assms(2)] set_update_subset_insert [of "niLines info" "nat (niRegistryLineIdx info)" "gateway_line url"]
    by (auto simp: enabled_lines_def list_all_iff dest: in_set_butlastD)
qed

section \<open>Property\<close>

text \<open>
  Enabling rewrites exactly one line. When an npm configuration is accepted, the content
  generated for a usable gateway URL is accepted again, its effective registry is the gateway URL,
  and its lines are the old ones with the effective registry line replaced or, if there was none,
  one line appended. The file must not end in a bare carriage return.
\<close>

lemma enabled_npmrc_routes_to_gateway:
  assumes "InspectNpmrc hostname path content = Inr info" "usable_url hostname path url"
    and "\<And>data. content = Some data \<Longrightarrow> \<not> HasSuffix data [CR]"
  shows "\<exists>info'. InspectNpmrc hostname path (Some (GenerateEnabledContent info url)) = Inr info' \<and>
     niHasRegistry info' \<and> niRegistryValue info' = ensureTrailingSlash url \<and> niLines info' = enabled_lines info url"
proof -
  let ?d = "GenerateEnabledContent info url"
  note ls = lines_of_enabled [OF assms] and reg = gateway_line_registry [OF assms(2)]
  have acc: "list_all accepted_line (niLines info)"
  proof (cases content)
    case None
    then show ?thesis using assms(1) by (auto simp: InspectNpmrc_def)
  next
    case (Some data)
    then have "list_all accepted_line (lines_of data)" using InspectNpmrc_Inr_accepted assms(1) by blast
    then show ?thesis
      using assms(1) Some InspectNpmrc_accepted [of data] by (auto simp: file_info_def split: option.splits)
  qed
  have "\<exists>k. last_registry 0 (enabled_lines info url) None = Some (ensureTrailingSlash url, k)"
  proof (cases "niHasRegistry info")
    case True
    then obtain data v k where "content = Some data" "niLines info = lines_of data" "last_registry 0 (lines_of data) None = Some (v, k)"
        "niRegistryLineIdx info = int k"
      using assms(1) InspectNpmrc_accepted [OF InspectNpmrc_Inr_accepted, of hostname path _ info]
      by (cases content) (auto simp: InspectNpmrc_def Let_def inspect_lines_Inr split: option.splits sum.splits)
    then show ?thesis using True last_registry_replace [OF _ reg] by (auto simp: enabled_lines_def)
  next
    case False
    then show ?thesis by (simp add: enabled_lines_def last_registry_append reg) (simp add: registry_of_def ignored_line_def)
  qed
  then show ?thesis
    using InspectNpmrc_accepted [of ?d hostname path] enabled_lines_accepted [OF acc assms(2)] assms(2)
    by (auto simp: ls file_info_def usable_url_def)
qed

definition loopback :: "string \<Rightarrow> string option" where
  "loopback u = (if HasPrefix u ''http://127.0.0.1:8765'' then Some ''127.0.0.1'' else None)"

lemma loopback_usable: "usable_url loopback path ''http://127.0.0.1:8765''"
  unfolding usable_url_def gateway_line_def by code_simp

definition sample_npmrc :: string where
  "sample_npmrc = ''a=1'' @ [CR, LF] @ ''registry=https://registry.npmjs.org/'' @ [CR, LF]"

lemma sample_npmrc_accepted: "isl (InspectNpmrc loopback ''.npmrc'' (Some sample_npmrc)) = False"
  by code_simp

end
