(* ===== verification/Lifecycle.thy ===== *)
theory Lifecycle
  imports Npmrc Evidence_Cache Timefmt
begin

text \<open>
  Enabling and disabling the gateway for npm: \<^verbatim>\<open>src/internal/config/store.go\<close>, \<^verbatim>\<open>journal.go\<close> and
  \<^verbatim>\<open>lifecycle.go\<close>. Every file-system call is one effect on the world, and the world carries a
  script of fates: an effect is done, fails with an error, or is the moment the process dies. An
  empty script means that all goes well. A rename is atomic, so a process that dies leaves the world
  of the effects done so far. The journal and the state file are the two files of the state
  directory; temporary files there never become visible and are left out, while the staged
  sibling of the npm configuration is a file of the world. JSON coding, the names chosen for
  temporary files and the health probe are parameters. The pre-commit hook, nil outside the tests, is
  left out: a process that dies in it dies at the effect that follows.
\<close>

section \<open>Effects\<close>

datatype fate = Done | Fails | Dies

record config_world =
  cwFiles :: "(string \<times> string) list"
  cwJournal :: "string option"
  cwState :: "string option"
  cwFates :: "fate list"

datatype config_fault = FaultIO string | FaultCorrupt string | FaultNpmrc npmrc_error | FaultNotReady string | FaultNoStagedFile | FaultEmptyDir

datatype 'a io_result = Ret 'a | Err config_fault | Died

type_synonym 'a config_io = "config_world \<Rightarrow> 'a io_result \<times> config_world"

definition return_io :: "'a \<Rightarrow> 'a config_io" where
  "return_io x w = (Ret x, w)"

definition fail_io :: "config_fault \<Rightarrow> 'a config_io" where
  "fail_io e w = (Err e, w)"

definition bind_io :: "'a config_io \<Rightarrow> ('a \<Rightarrow> 'b config_io) \<Rightarrow> 'b config_io" where
  "bind_io m k w = (case m w of (Ret x, w') \<Rightarrow> k x w' | (Err e, w') \<Rightarrow> (Err e, w') | (Died, w') \<Rightarrow> (Died, w'))"

text \<open>Going on after an error, with the error as a value: a Go caller that looks at \<^verbatim>\<open>err\<close> or
  drops it.\<close>

definition try_io :: "'a config_io \<Rightarrow> (config_fault + 'a) config_io" where
  "try_io m w = (case m w of (Ret x, w') \<Rightarrow> (Ret (Inr x), w') | (Err e, w') \<Rightarrow> (Ret (Inl e), w') | (Died, w') \<Rightarrow> (Died, w'))"

text \<open>One effect; the change itself may be impossible.\<close>

definition effect :: "string \<Rightarrow> (config_world \<Rightarrow> config_world option) \<Rightarrow> unit config_io" where
  "effect what f w =
     (let w1 = w\<lparr>cwFates := drop 1 (cwFates w)\<rparr> in
      case cwFates w of
        Fails # _ \<Rightarrow> (Err (FaultIO what), w1)
      | Dies # _ \<Rightarrow> (Died, w1)
      | _ \<Rightarrow> (case f w1 of None \<Rightarrow> (Err (FaultIO what), w1) | Some w2 \<Rightarrow> (Ret (), w2)))"

datatype place = JournalFile | StateFile | UserFile string

fun get_file :: "place \<Rightarrow> config_world \<Rightarrow> string option" where
  "get_file JournalFile w = cwJournal w"
| "get_file StateFile w = cwState w"
| "get_file (UserFile p) w = map_of (cwFiles w) p"

fun put_file :: "place \<Rightarrow> string \<Rightarrow> config_world \<Rightarrow> config_world" where
  "put_file JournalFile d w = w\<lparr>cwJournal := Some d\<rparr>"
| "put_file StateFile d w = w\<lparr>cwState := Some d\<rparr>"
| "put_file (UserFile p) d w = w\<lparr>cwFiles := AList.update p d (cwFiles w)\<rparr>"

fun delete_file :: "place \<Rightarrow> config_world \<Rightarrow> config_world" where
  "delete_file JournalFile w = w\<lparr>cwJournal := None\<rparr>"
| "delete_file StateFile w = w\<lparr>cwState := None\<rparr>"
| "delete_file (UserFile p) w = w\<lparr>cwFiles := AList.delete p (cwFiles w)\<rparr>"

text \<open>\<^verbatim>\<open>os.ReadFile\<close>, with \<open>None\<close> for a file that does not exist; \<^verbatim>\<open>os.Remove\<close>, where the callers
  accept that the file does not exist; \<^verbatim>\<open>os.Rename\<close>; and calls without visible change.\<close>

definition ReadFile :: "place \<Rightarrow> string option config_io" where
  "ReadFile p = bind_io (effect ''read'' Some) (\<lambda>_ w. (Ret (get_file p w), w))"

definition Remove :: "place \<Rightarrow> unit config_io" where
  "Remove p = effect ''remove'' (\<lambda>w. Some (delete_file p w))"

definition Rename :: "string \<Rightarrow> string \<Rightarrow> unit config_io" where
  "Rename old new = effect ''rename'' (\<lambda>w. case map_of (cwFiles w) old of
     None \<Rightarrow> None
   | Some d \<Rightarrow> Some (put_file (UserFile new) d (delete_file (UserFile old) w)))"

fun quiet_steps :: "string list \<Rightarrow> unit config_io" where
  "quiet_steps [] = return_io ()"
| "quiet_steps (s # ss) = bind_io (effect s Some) (\<lambda>_. quiet_steps ss)"

section \<open>The state store\<close>

definition ActionEnable :: string where "ActionEnable = ''enable''"
definition ActionDisable :: string where "ActionDisable = ''disable''"
definition PhasePending :: string where "PhasePending = ''pending''"
definition PhaseStaged :: string where "PhaseStaged = ''staged''"
definition PhaseCommitted :: string where "PhaseCommitted = ''committed''"

record Transaction =
  txID :: string
  txAction :: string
  txPhase :: string
  txTargetFile :: string
  txGatewayURL :: string
  txStagedFile :: string
  txPriorConfig :: PriorConfig
  txCreatedAt :: gotime
  txUpdatedAt :: gotime

record GatewayState =
  stEnabled :: bool
  stGatewayURL :: string
  stPort :: int
  stPID :: int
  stPriorConfig :: "PriorConfig option"
  stLastUpdated :: gotime

definition emptyState :: GatewayState where
  "emptyState = \<lparr>stEnabled = False, stGatewayURL = [], stPort = 0, stPID = 0, stPriorConfig = None, stLastUpdated = 0\<rparr>"

record HealthResponse =
  hrStatus :: string
  hrReady :: bool
  hrCache :: CacheStats

record config_env =
  cnNow :: gotime
  cnTxID :: string
  cnStaged :: "string \<Rightarrow> (string \<times> string) list \<Rightarrow> string"
  cnTxEnc :: "Transaction \<Rightarrow> string"
  cnTxDec :: "string \<Rightarrow> Transaction option"
  cnStEnc :: "GatewayState \<Rightarrow> string"
  cnStDec :: "string \<Rightarrow> GatewayState option"
  cnHostname :: "string \<Rightarrow> string option"
  cnHealth :: "string \<Rightarrow> HealthResponse option"

definition atomicWriteFile :: "place \<Rightarrow> string \<Rightarrow> unit config_io" where
  "atomicWriteFile p data =
     bind_io (quiet_steps [''create temp'', ''write'', ''sync'', ''close'', ''chmod''])
       (\<lambda>_. effect ''rename'' (\<lambda>w. Some (put_file p data w)))"

definition NewFileStateStore :: "string \<Rightarrow> string config_io" where
  "NewFileStateStore dir =
     (if dir = [] then fail_io FaultEmptyDir else bind_io (quiet_steps [''mkdir'']) (\<lambda>_. return_io dir))"

definition WriteJournal :: "config_env \<Rightarrow> Transaction \<Rightarrow> unit config_io" where
  "WriteJournal env tx = atomicWriteFile JournalFile (cnTxEnc env tx)"

definition ReadJournal :: "config_env \<Rightarrow> Transaction option config_io" where
  "ReadJournal env = bind_io (ReadFile JournalFile) (\<lambda>r.
     case r of
       None \<Rightarrow> return_io None
     | Some d \<Rightarrow> (case cnTxDec env d of None \<Rightarrow> fail_io (FaultCorrupt ''journal'') | Some tx \<Rightarrow> return_io (Some tx)))"

definition ClearJournal :: "unit config_io" where
  "ClearJournal = Remove JournalFile"

definition SaveState :: "config_env \<Rightarrow> GatewayState \<Rightarrow> unit config_io" where
  "SaveState env st = atomicWriteFile StateFile (cnStEnc env st)"

definition LoadState :: "config_env \<Rightarrow> GatewayState config_io" where
  "LoadState env = bind_io (ReadFile StateFile) (\<lambda>r.
     case r of
       None \<Rightarrow> return_io emptyState
     | Some d \<Rightarrow> (case cnStDec env d of None \<Rightarrow> fail_io (FaultCorrupt ''state'') | Some st \<Rightarrow> return_io st))"

section \<open>Transactions\<close>

definition BeginTransaction :: "config_env \<Rightarrow> string \<Rightarrow> string \<Rightarrow> string \<Rightarrow> PriorConfig \<Rightarrow> Transaction config_io" where
  "BeginTransaction env action targetFile gatewayURL prior =
     (let tx = \<lparr>txID = cnTxID env, txAction = action, txPhase = PhasePending, txTargetFile = targetFile, txGatewayURL = gatewayURL,
                txStagedFile = [], txPriorConfig = prior, txCreatedAt = cnNow env, txUpdatedAt = cnNow env\<rparr>
      in bind_io (WriteJournal env tx) (\<lambda>_. return_io tx))"

text \<open>On failure the staged file is removed, whatever becomes of the removal.\<close>

definition cleanup_staged :: "string \<Rightarrow> config_fault \<Rightarrow> 'a config_io" where
  "cleanup_staged staged e = bind_io (try_io (Remove (UserFile staged))) (\<lambda>_. fail_io e)"

definition StageTransaction :: "config_env \<Rightarrow> Transaction \<Rightarrow> string \<Rightarrow> Transaction config_io" where
  "StageTransaction env tx content =
     bind_io (quiet_steps [''mkdir'']) (\<lambda>_ w0.
       let staged = cnStaged env (txTargetFile tx) (cwFiles w0) in
       bind_io (effect ''create temp'' (\<lambda>w. Some (put_file (UserFile staged) [] w))) (\<lambda>_.
       bind_io (try_io (bind_io (effect ''write'' (\<lambda>w. Some (put_file (UserFile staged) content w))) (\<lambda>_. quiet_steps [''sync'', ''close'']))) (\<lambda>r.
         case r of
           Inl e \<Rightarrow> cleanup_staged staged e
         | Inr _ \<Rightarrow>
             let tx' = tx\<lparr>txPhase := PhaseStaged, txStagedFile := staged, txUpdatedAt := cnNow env\<rparr> in
             bind_io (try_io (WriteJournal env tx')) (\<lambda>r'.
               case r' of Inl e \<Rightarrow> cleanup_staged staged e | Inr _ \<Rightarrow> return_io tx'))) w0)"

definition commit_file :: "Transaction \<Rightarrow> unit config_io" where
  "commit_file tx =
     (if txStagedFile tx = [] then fail_io FaultNoStagedFile
      else bind_io (Rename (txStagedFile tx) (txTargetFile tx)) (\<lambda>_.
           bind_io (try_io (effect ''chmod'' Some)) (\<lambda>_. return_io ())))"

definition committed_state :: "config_env \<Rightarrow> Transaction \<Rightarrow> config_fault + GatewayState \<Rightarrow> GatewayState" where
  "committed_state env tx r =
     (let st = (case r of Inl _ \<Rightarrow> emptyState | Inr st \<Rightarrow> st);
          st' = (if txAction tx = ActionEnable
                 then st\<lparr>stEnabled := True, stGatewayURL := txGatewayURL tx, stPriorConfig := Some (txPriorConfig tx)\<rparr>
                 else st\<lparr>stEnabled := False, stPriorConfig := None\<rparr>)
      in st'\<lparr>stLastUpdated := cnNow env\<rparr>)"

definition CommitTransaction :: "config_env \<Rightarrow> Transaction \<Rightarrow> unit config_io" where
  "CommitTransaction env tx =
     bind_io
       (if txAction tx = ActionEnable then commit_file tx
        else if txAction tx = ActionDisable
        then (if \<not> pcFileExisted (txPriorConfig tx) then Remove (UserFile (txTargetFile tx)) else commit_file tx)
        else return_io ()) (\<lambda>_.
     bind_io (try_io (LoadState env)) (\<lambda>r.
     bind_io (try_io (SaveState env (committed_state env tx r))) (\<lambda>_.
     ClearJournal)))"

record RecoveryResult =
  rrAction :: string
  rrStatus :: string
  rrTargetFile :: string
  rrMessage :: string

definition recovery_result :: "Transaction \<Rightarrow> RecoveryResult" where
  "recovery_result tx =
     \<lparr>rrAction = txAction tx, rrStatus = (if txAction tx = ActionDisable then ''completed'' else ''rolled_back''),
      rrTargetFile = txTargetFile tx,
      rrMessage = ''interrupted '' @ txAction tx @ '' transaction '' @ txID tx @
        '' recovered: restored prior registry configuration byte-for-byte''\<rparr>"

definition recovered_state :: "config_env \<Rightarrow> config_fault + GatewayState \<Rightarrow> GatewayState" where
  "recovered_state env r =
     (case r of Inl _ \<Rightarrow> emptyState | Inr st \<Rightarrow> st)\<lparr>stEnabled := False, stPriorConfig := None, stLastUpdated := cnNow env\<rparr>"

definition restore_prior :: "string \<Rightarrow> PriorConfig \<Rightarrow> unit config_io" where
  "restore_prior target prior =
     (if \<not> pcFileExisted prior then Remove (UserFile target) else atomicWriteFile (UserFile target) (pcRawContent prior))"

definition RecoverJournal :: "config_env \<Rightarrow> RecoveryResult option config_io" where
  "RecoverJournal env =
     bind_io (ReadJournal env) (\<lambda>r.
       case r of
         None \<Rightarrow> return_io None
       | Some tx \<Rightarrow>
           bind_io (if txStagedFile tx \<noteq> [] then bind_io (try_io (Remove (UserFile (txStagedFile tx)))) (\<lambda>_. return_io ()) else return_io ()) (\<lambda>_.
           bind_io (restore_prior (txTargetFile tx) (txPriorConfig tx)) (\<lambda>_.
           bind_io (try_io (LoadState env)) (\<lambda>st.
           bind_io (try_io (SaveState env (recovered_state env st))) (\<lambda>_.
           bind_io ClearJournal (\<lambda>_.
           return_io (Some (recovery_result tx))))))))"

section \<open>The lifecycle manager\<close>

definition DefaultGatewayPort :: int where "DefaultGatewayPort = 8765"
definition DefaultGatewayURL :: string where "DefaultGatewayURL = ''http://127.0.0.1:8765''"

record LifecycleManager =
  lmDataDir :: string
  lmNpmrcPath :: string
  lmGatewayURL :: string
  lmGatewayPort :: int

datatype lifecycle_option = WithDataDir string | WithNpmrcPath string | WithGatewayURL string | WithGatewayPort int

fun apply_lifecycle_option :: "lifecycle_option \<Rightarrow> LifecycleManager \<Rightarrow> LifecycleManager" where
  "apply_lifecycle_option (WithDataDir d) m = m\<lparr>lmDataDir := d\<rparr>"
| "apply_lifecycle_option (WithNpmrcPath p) m = m\<lparr>lmNpmrcPath := p\<rparr>"
| "apply_lifecycle_option (WithGatewayURL u) m = m\<lparr>lmGatewayURL := TrimSuffix u ''/''\<rparr>"
| "apply_lifecycle_option (WithGatewayPort p) m = m\<lparr>lmGatewayPort := p\<rparr>"

text \<open>The environment variables and the home directory; \<open>atoi\<close> is \<^verbatim>\<open>strconv.Atoi\<close>.\<close>

record lifecycle_vars =
  lvPort :: string
  lvGatewayURL :: string
  lvDataDir :: string
  lvUserConfig :: string
  lvHome :: "string option"

definition NewLifecycleManager :: "(string \<Rightarrow> int option) \<Rightarrow> lifecycle_vars \<Rightarrow> lifecycle_option list \<Rightarrow> LifecycleManager config_io" where
  "NewLifecycleManager atoi vars opts =
     (let m0 = \<lparr>lmDataDir = [], lmNpmrcPath = [], lmGatewayURL = DefaultGatewayURL, lmGatewayPort = DefaultGatewayPort\<rparr>;
          m1 = (case (if lvPort vars = [] then None else atoi (lvPort vars)) of
                  Some p \<Rightarrow> if p > 0 then m0\<lparr>lmGatewayPort := p, lmGatewayURL := ''http://127.0.0.1:'' @ show_nat (nat p)\<rparr> else m0
                | None \<Rightarrow> m0);
          m2 = (if lvGatewayURL vars \<noteq> [] then m1\<lparr>lmGatewayURL := TrimSuffix (lvGatewayURL vars) ''/''\<rparr> else m1);
          m3 = fold apply_lifecycle_option opts m2;
          m4 = (if lmDataDir m3 = []
                then m3\<lparr>lmDataDir := (if lvDataDir vars \<noteq> [] then lvDataDir vars
                   else case lvHome vars of Some h \<Rightarrow> if h \<noteq> [] then path_Join [h, ''.installgate''] else ''.installgate''
                      | None \<Rightarrow> ''.installgate'')\<rparr>
                else m3);
          m5 = (if lmNpmrcPath m4 = [] then m4\<lparr>lmNpmrcPath := DefaultNpmrcPath (lvUserConfig vars) (lvHome vars)\<rparr> else m4)
      in bind_io (NewFileStateStore (lmDataDir m5)) (\<lambda>_. return_io m5))"

definition health_url :: "string \<Rightarrow> string" where
  "health_url gatewayURL = ensureTrailingSlash gatewayURL @ ''-/installgate/health''"

text \<open>\<open>get\<close> is the HTTP client with its timeout, \<open>decode\<close> the JSON decoder.\<close>

definition defaultHealthChecker :: "(string \<Rightarrow> (int \<times> string option) option) \<Rightarrow> (string \<Rightarrow> HealthResponse option) \<Rightarrow> string \<Rightarrow> HealthResponse option" where
  "defaultHealthChecker get decode gatewayURL =
     (case get (health_url gatewayURL) of
        Some (code, Some data) \<Rightarrow> if code \<noteq> 200 then None else decode data
      | _ \<Rightarrow> None)"

definition Init :: "config_env \<Rightarrow> LifecycleManager \<Rightarrow> unit config_io" where
  "Init env m = bind_io (quiet_steps [''mkdir'']) (\<lambda>_. bind_io (try_io (RecoverJournal env)) (\<lambda>_. return_io ()))"

definition inspect_npmrc :: "config_env \<Rightarrow> string \<Rightarrow> NpmrcInfo config_io" where
  "inspect_npmrc env path =
     bind_io (ReadFile (UserFile path)) (\<lambda>content.
       case InspectNpmrc (cnHostname env) path content of
         Inl e \<Rightarrow> fail_io (FaultNpmrc e)
       | Inr info \<Rightarrow> return_io info)"

definition gateway_ready :: "config_env \<Rightarrow> string \<Rightarrow> bool" where
  "gateway_ready env url = (case cnHealth env url of None \<Rightarrow> False | Some hr \<Rightarrow> hrReady hr)"

definition prior_of :: "NpmrcInfo \<Rightarrow> PriorConfig" where
  "prior_of info = \<lparr>pcFileExisted = niExists info, pcHasRegistry = niHasRegistry info, pcRegistryValue = niRegistryValue info,
     pcRawContent = niRawContent info\<rparr>"

definition EnableNpm :: "config_env \<Rightarrow> LifecycleManager \<Rightarrow> unit config_io" where
  "EnableNpm env m =
     bind_io (try_io (RecoverJournal env)) (\<lambda>_.
     bind_io (inspect_npmrc env (lmNpmrcPath m)) (\<lambda>info.
     if \<not> gateway_ready env (lmGatewayURL m) then fail_io (FaultNotReady (lmGatewayURL m))
     else
       bind_io (BeginTransaction env ActionEnable (lmNpmrcPath m) (lmGatewayURL m) (prior_of info)) (\<lambda>tx.
       bind_io (StageTransaction env tx (GenerateEnabledContent info (lmGatewayURL m))) (\<lambda>tx'.
       CommitTransaction env tx'))))"

definition fallback_prior :: PriorConfig where
  "fallback_prior = \<lparr>pcFileExisted = True, pcHasRegistry = True, pcRegistryValue = ''https://registry.npmjs.org/'',
     pcRawContent = ''registry=https://registry.npmjs.org/'' @ [LF]\<rparr>"

text \<open>The prior configuration, or none when there is nothing to restore.\<close>

definition disable_prior :: "config_env \<Rightarrow> LifecycleManager \<Rightarrow> GatewayState \<Rightarrow> PriorConfig option config_io" where
  "disable_prior env m st =
     (case stPriorConfig st of
        Some prior \<Rightarrow> return_io (Some prior)
      | None \<Rightarrow> bind_io (inspect_npmrc env (lmNpmrcPath m)) (\<lambda>info. return_io (if \<not> niExists info then None else Some fallback_prior)))"

definition DisableNpm :: "config_env \<Rightarrow> LifecycleManager \<Rightarrow> unit config_io" where
  "DisableNpm env m =
     bind_io (try_io (RecoverJournal env)) (\<lambda>_.
     bind_io (LoadState env) (\<lambda>st.
     bind_io (disable_prior env m st) (\<lambda>p.
       case p of
         None \<Rightarrow> return_io ()
       | Some prior \<Rightarrow>
           bind_io (BeginTransaction env ActionDisable (lmNpmrcPath m) (lmGatewayURL m) prior) (\<lambda>tx.
           bind_io (if pcFileExisted prior then StageTransaction env tx (pcRawContent prior) else return_io tx) (\<lambda>tx'.
           CommitTransaction env tx')))))"

record StatusReport =
  srGatewayRunning :: bool
  srGatewayURL :: string
  srPort :: int
  srPID :: int
  srNpmEnabled :: bool
  srNpmrcPath :: string
  srActiveRegistry :: string
  srPriorRegistry :: string
  srCacheStats :: CacheStats
  srRecoveryNote :: string

definition noCacheStats :: CacheStats where
  "noCacheStats = \<lparr>TotalEntries = 0, FreshEntries = 0, StaleEntries = 0, OldestEntry = None, NewestEntry = None\<rparr>"

definition reported_stats :: "config_env \<Rightarrow> string \<Rightarrow> CacheStats" where
  "reported_stats env url = (case cnHealth env url of Some hr \<Rightarrow> if hrReady hr then hrCache hr else noCacheStats | None \<Rightarrow> noCacheStats)"

definition recovery_note :: "(config_fault \<Rightarrow> string) \<Rightarrow> config_fault + RecoveryResult option \<Rightarrow> string" where
  "recovery_note text r =
     (case r of Inl e \<Rightarrow> ''recovery error: '' @ text e | Inr None \<Rightarrow> [] | Inr (Some rec) \<Rightarrow> rrMessage rec)"

definition report_npmrc :: "LifecycleManager \<Rightarrow> config_fault + NpmrcInfo \<Rightarrow> StatusReport \<Rightarrow> StatusReport" where
  "report_npmrc m r rep =
     (case r of
        Inl _ \<Rightarrow> rep
      | Inr info \<Rightarrow>
          if niHasRegistry info
          then rep\<lparr>srActiveRegistry := niRegistryValue info,
                   srNpmEnabled := (TrimSuffix (niRegistryValue info) ''/'' = TrimSuffix (lmGatewayURL m) ''/'')\<rparr>
          else if niExists info then rep\<lparr>srActiveRegistry := ''(default public registry: https://registry.npmjs.org/)''\<rparr>
          else rep\<lparr>srActiveRegistry := ''(no .npmrc file; defaults to https://registry.npmjs.org/)''\<rparr>)"

definition report_state :: "config_fault + GatewayState \<Rightarrow> StatusReport \<Rightarrow> StatusReport" where
  "report_state r rep =
     (case r of
        Inl _ \<Rightarrow> rep
      | Inr st \<Rightarrow>
          (case stPriorConfig st of
             None \<Rightarrow> rep
           | Some prior \<Rightarrow>
               let rep' = rep\<lparr>srPriorRegistry := (if pcHasRegistry prior then pcRegistryValue prior else ''(none)'')\<rparr>
               in if stPID st > 0 then rep'\<lparr>srPID := stPID st\<rparr> else rep'))"

definition Status :: "(config_fault \<Rightarrow> string) \<Rightarrow> config_env \<Rightarrow> LifecycleManager \<Rightarrow> StatusReport config_io" where
  "Status text env m =
     bind_io (try_io (RecoverJournal env)) (\<lambda>rec.
     let rep = \<lparr>srGatewayRunning = gateway_ready env (lmGatewayURL m), srGatewayURL = lmGatewayURL m, srPort = lmGatewayPort m, srPID = 0,
                srNpmEnabled = False, srNpmrcPath = lmNpmrcPath m, srActiveRegistry = [], srPriorRegistry = [],
                srCacheStats = reported_stats env (lmGatewayURL m),
                srRecoveryNote = recovery_note text rec\<rparr> in
     bind_io (try_io (inspect_npmrc env (lmNpmrcPath m))) (\<lambda>ni.
     bind_io (try_io (LoadState env)) (\<lambda>st.
     return_io (report_state st (report_npmrc m ni rep)))))"

section \<open>Reasoning about effects\<close>

text \<open>From a world in \<open>P\<close> a computation returns in \<open>Q\<close>, or fails or dies in \<open>R\<close>.\<close>

definition hoare :: "(config_world \<Rightarrow> bool) \<Rightarrow> 'a config_io \<Rightarrow> ('a \<Rightarrow> config_world \<Rightarrow> bool) \<Rightarrow> (config_world \<Rightarrow> bool) \<Rightarrow> bool" where
  "hoare P m Q R = (\<forall>w. P w \<longrightarrow> (case m w of (Ret x, w') \<Rightarrow> Q x w' | (_, w') \<Rightarrow> R w'))"

lemma hoare_run:
  assumes "hoare P m Q R" "P w" "m w = (res, w')"
  shows "case res of Ret x \<Rightarrow> Q x w' | _ \<Rightarrow> R w'"
  using assms by (auto simp: hoare_def split: io_result.splits)

lemma hoare_bind: "hoare P m Q R \<Longrightarrow> (\<And>x. hoare (Q x) (k x) S R) \<Longrightarrow> hoare P (bind_io m k) S R"
  unfolding hoare_def bind_io_def by (fastforce split: prod.splits io_result.splits)

lemma hoare_weaken:
  "hoare P m Q R \<Longrightarrow> (\<And>w. P' w \<Longrightarrow> P w) \<Longrightarrow> (\<And>x w. Q x w \<Longrightarrow> Q' x w) \<Longrightarrow> (\<And>w. R w \<Longrightarrow> R' w) \<Longrightarrow> hoare P' m Q' R'"
  unfolding hoare_def by (fastforce split: prod.splits io_result.splits)

lemma hoare_return: "(\<And>w. P w \<Longrightarrow> Q x w) \<Longrightarrow> hoare P (return_io x) Q R"
  by (simp add: hoare_def return_io_def)

lemma hoare_fail: "(\<And>w. P w \<Longrightarrow> R w) \<Longrightarrow> hoare P (fail_io e) Q R"
  by (simp add: hoare_def fail_io_def)

lemma hoare_try: "hoare P m (\<lambda>x. Q (Inr x)) R \<Longrightarrow> (\<And>e w. R w \<Longrightarrow> Q (Inl e) w) \<Longrightarrow> hoare P (try_io m) Q R"
  unfolding hoare_def try_io_def by (fastforce split: prod.splits io_result.splits)

text \<open>A predicate of the files alone, not of the fates.\<close>

definition of_files :: "(config_world \<Rightarrow> bool) \<Rightarrow> bool" where
  "of_files P = (\<forall>w fs. P (w\<lparr>cwFates := fs\<rparr>) = P w)"

lemma hoare_effect:
  assumes "of_files P" "\<And>w w'. P w \<Longrightarrow> f w = Some w' \<Longrightarrow> Q w'"
  shows "hoare P (effect what f) (\<lambda>_. Q) P"
  unfolding hoare_def
proof (intro allI impI)
  fix w assume "P w"
  then have "P (w\<lparr>cwFates := drop 1 (cwFates w)\<rparr>)" using assms(1) by (simp add: of_files_def)
  then show "case effect what f w of (Ret x, w') \<Rightarrow> Q w' | (_, w') \<Rightarrow> P w'"
    using assms(2) by (auto simp: effect_def Let_def split: list.split fate.split option.split)
qed

lemma hoare_quiet: "of_files P \<Longrightarrow> hoare P (quiet_steps ss) (\<lambda>_. P) P"
  by (induction ss) (auto intro: hoare_return hoare_bind [OF hoare_effect])

lemma hoare_read:
  assumes "of_files P"
  shows "hoare P (ReadFile p) (\<lambda>r w. P w \<and> r = get_file p w) P"
  unfolding ReadFile_def
  by (rule hoare_bind [OF hoare_effect [OF assms, of Some P]]) (auto simp: hoare_def)

lemma hoare_atomicWrite:
  assumes "of_files P" "\<And>w. P w \<Longrightarrow> Q (put_file p data w)"
  shows "hoare P (atomicWriteFile p data) (\<lambda>_. Q) P"
  unfolding atomicWriteFile_def by (rule hoare_bind [OF hoare_quiet [OF assms(1)] hoare_effect [OF assms(1)]]) (auto intro: assms(2))

lemma hoare_remove:
  assumes "of_files P" "\<And>w. P w \<Longrightarrow> Q (delete_file p w)"
  shows "hoare P (Remove p) (\<lambda>_. Q) P"
  unfolding Remove_def by (rule hoare_effect [OF assms(1)]) (auto intro: assms(2))

lemma hoare_state:
  assumes "\<And>g. hoare (\<lambda>w. P w \<and> f w = g) (m g) Q R"
  shows "hoare P (\<lambda>w. m (f w) w) Q R"
  unfolding hoare_def
proof (intro allI impI)
  fix w assume "P w"
  then show "case m (f w) w of (Ret x, w') \<Rightarrow> Q x w' | (_, w') \<Rightarrow> R w'"
    using assms [of "f w"] unfolding hoare_def by simp
qed

section \<open>Interrupted transactions\<close>

definition prior_content :: "PriorConfig \<Rightarrow> string option" where
  "prior_content prior = (if pcFileExisted prior then Some (pcRawContent prior) else None)"

text \<open>No transaction is open and the file has the given content.\<close>

definition idle :: "string \<Rightarrow> string option \<Rightarrow> config_world \<Rightarrow> bool" where
  "idle target content w = (cwJournal w = None \<and> map_of (cwFiles w) target = content)"

text \<open>The journal holds a transaction on the file that remembers the given content.\<close>

definition journaled :: "config_env \<Rightarrow> string \<Rightarrow> string \<Rightarrow> PriorConfig \<Rightarrow> Transaction \<Rightarrow> config_world \<Rightarrow> bool" where
  "journaled env action target prior tx w =
     (cwJournal w = Some (cnTxEnc env tx) \<and> txAction tx = action \<and> txTargetFile tx = target \<and> txPriorConfig tx = prior)"

definition pending :: "config_env \<Rightarrow> string \<Rightarrow> string option \<Rightarrow> config_world \<Rightarrow> bool" where
  "pending env target content w = (\<exists>action prior tx. journaled env action target prior tx w \<and> prior_content prior = content)"

lemma of_files_simps [simp]:
  "of_files (idle t c)" "of_files (pending env t c)" "of_files (journaled env a t p tx)" "of_files (\<lambda>w. \<exists>tx. journaled env a t p tx w)"
  "of_files (\<lambda>w. Q (cwFiles w) (cwJournal w) (cwState w))"
  by (simp_all add: of_files_def idle_def pending_def journaled_def)

lemma of_files_conj: "of_files P \<Longrightarrow> of_files Q \<Longrightarrow> of_files (\<lambda>w. P w \<and> Q w)"
  by (simp add: of_files_def)

lemma put_file_state [simp]:
  "idle t c (put_file StateFile d w) = idle t c w" "journaled env a t p tx (put_file StateFile d w) = journaled env a t p tx w"
  "map_of (cwFiles (put_file StateFile d w)) = map_of (cwFiles w)"
  by (simp_all add: idle_def journaled_def)

lemma journaled_files [simp]:
  "journaled env a t p tx (w\<lparr>cwFiles := fs\<rparr>) = journaled env a t p tx w"
  "journaled env a t p tx (put_file (UserFile q) d w) = journaled env a t p tx w"
  "journaled env a t p tx (delete_file (UserFile q) w) = journaled env a t p tx w"
  by (simp_all add: journaled_def)

lemma begin_spec:
  "hoare (idle t c) (BeginTransaction env a t url prior) (\<lambda>tx w. journaled env a t prior tx w \<and> txStagedFile tx = [] \<and> map_of (cwFiles w) t = c) (idle t c)"
  unfolding BeginTransaction_def WriteJournal_def Let_def
  by (rule hoare_bind [OF hoare_atomicWrite [where Q = "\<lambda>w. cwJournal w = Some _ \<and> map_of (cwFiles w) t = c"] hoare_return])
     (auto simp: idle_def journaled_def)

lemma cleanup_spec: "hoare (\<lambda>w. \<exists>tx. journaled env a t p tx w) (cleanup_staged staged e) Q (\<lambda>w. \<exists>tx. journaled env a t p tx w)"
  unfolding cleanup_staged_def
  by (rule hoare_bind [OF hoare_try [OF hoare_remove [where Q = "\<lambda>w. \<exists>tx. journaled env a t p tx w"]] hoare_fail]) auto

lemma stage_spec:
  assumes "\<And>fs. cnStaged env t fs \<noteq> []"
  shows "hoare (journaled env a t p tx) (StageTransaction env tx content)
    (\<lambda>tx' w. journaled env a t p tx' w \<and> txStagedFile tx' \<noteq> [] \<and> map_of (cwFiles w) (txStagedFile tx') = Some content)
    (\<lambda>w. \<exists>tx'. journaled env a t p tx' w)"
proof -
  let ?J = "journaled env a t p tx" and ?R = "\<lambda>w. \<exists>tx'. journaled env a t p tx' w"
  define tx' where "tx' staged = tx\<lparr>txPhase := PhaseStaged, txStagedFile := staged, txUpdatedAt := cnNow env\<rparr>" for staged
  have R: "hoare P m Q ?J \<Longrightarrow> hoare P m Q ?R" for P Q and m :: "unit config_io" by (erule hoare_weaken) auto
  let ?S = "\<lambda>staged w. ?J w \<and> map_of (cwFiles w) staged = Some content"
  have wr: "hoare ?J (bind_io (effect ''write'' (\<lambda>w. Some (put_file (UserFile staged) content w))) (\<lambda>_. quiet_steps [''sync'', ''close'']))
      (\<lambda>_. ?S staged) ?R" for staged
    by (rule hoare_bind [OF R [OF hoare_effect [where Q = "?S staged"]] hoare_weaken [OF hoare_quiet [where P = "?S staged"]]])
       (auto simp: of_files_def journaled_def)
  have upd: "hoare (?S staged) (WriteJournal env (tx' staged)) (\<lambda>_ w. journaled env a t p (tx' staged) w \<and> map_of (cwFiles w) staged = Some content) ?R"
    for staged
    unfolding WriteJournal_def
    by (rule hoare_weaken [OF hoare_atomicWrite [where P = "?S staged" and
          Q = "\<lambda>w. journaled env a t p (tx' staged) w \<and> map_of (cwFiles w) staged = Some content"]])
       (auto simp: of_files_def journaled_def tx'_def)
  have tried: "hoare (?S staged) (try_io (WriteJournal env (tx' staged)))
      (\<lambda>r w. case r of Inl _ \<Rightarrow> ?R w | Inr _ \<Rightarrow> journaled env a t p (tx' staged) w \<and> map_of (cwFiles w) staged = Some content) ?R" for staged
    by (rule hoare_try) (use upd in simp_all)
  have wrote: "hoare ?J (try_io (bind_io (effect ''write'' (\<lambda>w. Some (put_file (UserFile staged) content w))) (\<lambda>_. quiet_steps [''sync'', ''close''])))
      (\<lambda>r w. case r of Inl _ \<Rightarrow> ?R w | Inr _ \<Rightarrow> ?S staged w) ?R" for staged
    by (rule hoare_try) (use wr in simp_all)
  have commit: "hoare (?S staged) (bind_io (try_io (WriteJournal env (tx' staged))) (\<lambda>r'.
        case r' of Inl e \<Rightarrow> cleanup_staged staged e | Inr _ \<Rightarrow> return_io (tx' staged)))
      (\<lambda>tx' w. journaled env a t p tx' w \<and> txStagedFile tx' \<noteq> [] \<and> map_of (cwFiles w) (txStagedFile tx') = Some content) ?R"
    if "staged \<noteq> []" for staged
    by (rule hoare_bind [OF tried])
       (auto split: sum.split intro: cleanup_spec intro!: hoare_return simp: tx'_def that)
  define stage where "stage staged = bind_io (effect ''create temp'' (\<lambda>w. Some (put_file (UserFile staged) [] w))) (\<lambda>_.
       bind_io (try_io (bind_io (effect ''write'' (\<lambda>w. Some (put_file (UserFile staged) content w))) (\<lambda>_. quiet_steps [''sync'', ''close'']))) (\<lambda>r.
         case r of Inl e \<Rightarrow> cleanup_staged staged e
         | Inr _ \<Rightarrow> bind_io (try_io (WriteJournal env (tx' staged))) (\<lambda>r'.
               case r' of Inl e \<Rightarrow> cleanup_staged staged e | Inr _ \<Rightarrow> return_io (tx' staged))))" for staged
  let ?Q = "\<lambda>tx' w. journaled env a t p tx' w \<and> txStagedFile tx' \<noteq> [] \<and> map_of (cwFiles w) (txStagedFile tx') = Some content"
  have rest: "hoare ?J (stage staged) ?Q ?R" if "staged \<noteq> []" for staged
    unfolding stage_def
    by (rule hoare_bind [OF R [OF hoare_effect [where Q = ?J]] hoare_bind [OF wrote]])
       (auto split: sum.split intro: cleanup_spec commit [OF that])
  have "hoare ?J (\<lambda>w0. stage (cnStaged env (txTargetFile tx) (cwFiles w0)) w0) ?Q ?R"
  proof (rule hoare_state [where f = "\<lambda>w. cnStaged env (txTargetFile tx) (cwFiles w)" and m = stage])
    show "hoare (\<lambda>w. ?J w \<and> cnStaged env (txTargetFile tx) (cwFiles w) = g) (stage g) ?Q ?R" for g
    proof (cases "g = []")
      case True
      then show ?thesis using assms by (auto simp: hoare_def journaled_def)
    next
      case False
      show ?thesis by (rule hoare_weaken [OF rest [OF False]]) auto
    qed
  qed
  then show ?thesis
    unfolding StageTransaction_def Let_def tx'_def [symmetric] stage_def [symmetric]
    by (intro hoare_bind [OF R [OF hoare_quiet]]) simp_all
qed

lemma load_spec: "of_files P \<Longrightarrow> hoare P (LoadState env) (\<lambda>_. P) P"
  unfolding LoadState_def
  by (rule hoare_bind [OF hoare_read]) (auto split: option.split intro!: hoare_return hoare_fail)

lemma try_keeps: "hoare P m (\<lambda>_. P) P \<Longrightarrow> hoare P (try_io m) (\<lambda>_. P) P"
  by (rule hoare_try) auto

lemma hoare_keep:
  assumes "hoare P m (\<lambda>_. P) P" "\<And>x. hoare P (k x) S R" "\<And>w. P w \<Longrightarrow> R w"
  shows "hoare P (bind_io m k) S R"
  by (rule hoare_bind [where Q = "\<lambda>_. P", OF _ assms(2)]) (rule hoare_weaken [OF assms(1)], auto intro: assms(3))

lemma finish_spec:
  "hoare (\<lambda>w. journaled env a t p tx w \<and> map_of (cwFiles w) t = c)
     (bind_io (try_io (LoadState env)) (\<lambda>r. bind_io (try_io (SaveState env (f r))) (\<lambda>_. ClearJournal)))
     (\<lambda>_. idle t c) (\<lambda>w. \<exists>tx. journaled env a t p tx w)"
proof -
  let ?P = "\<lambda>w. journaled env a t p tx w \<and> map_of (cwFiles w) t = c"
  have o: "of_files ?P" by (simp add: of_files_def journaled_def)
  have s: "hoare ?P (SaveState env st) (\<lambda>_. ?P) ?P" for st
    unfolding SaveState_def by (rule hoare_atomicWrite [OF o]) (simp add: journaled_def)
  have c: "hoare ?P ClearJournal (\<lambda>_. idle t c) (\<lambda>w. \<exists>tx. journaled env a t p tx w)"
    unfolding ClearJournal_def by (rule hoare_weaken [OF hoare_remove [OF o, where Q = "idle t c"]]) (auto simp: idle_def)
  show ?thesis by (intro hoare_keep try_keeps load_spec o s c) auto
qed

lemma commit_file_spec:
  "hoare (\<lambda>w. journaled env a t p tx w \<and> txStagedFile tx \<noteq> [] \<and> map_of (cwFiles w) (txStagedFile tx) = Some content)
     (commit_file tx) (\<lambda>_ w. journaled env a t p tx w \<and> map_of (cwFiles w) t = Some content) (\<lambda>w. \<exists>tx. journaled env a t p tx w)"
proof (cases "txStagedFile tx = []")
  case True
  then show ?thesis by (simp add: hoare_def)
next
  case False
  let ?P = "\<lambda>w. journaled env a t p tx w \<and> map_of (cwFiles w) (txStagedFile tx) = Some content"
  let ?Q = "\<lambda>w. journaled env a t p tx w \<and> map_of (cwFiles w) t = Some content"
  have o: "of_files ?P" "of_files ?Q" by (simp_all add: of_files_def journaled_def)
  have r: "hoare ?P (Rename (txStagedFile tx) (txTargetFile tx)) (\<lambda>_. ?Q) ?P"
    unfolding Rename_def by (rule hoare_effect [OF o(1)]) (auto simp: journaled_def)
  have r': "hoare ?P (Rename (txStagedFile tx) (txTargetFile tx)) (\<lambda>_. ?Q) (\<lambda>w. \<exists>tx. journaled env a t p tx w)"
    by (rule hoare_weaken [OF r]) auto
  have ch: "hoare ?Q (effect ''chmod'' Some) (\<lambda>_. ?Q) ?Q" by (rule hoare_effect [OF o(2)]) simp
  have "hoare ?P (bind_io (Rename (txStagedFile tx) (txTargetFile tx)) (\<lambda>_. bind_io (try_io (effect ''chmod'' Some)) (\<lambda>_. return_io ())))
      (\<lambda>_. ?Q) (\<lambda>w. \<exists>tx. journaled env a t p tx w)"
    by (rule hoare_bind [OF r'], rule hoare_keep [OF try_keeps [OF ch]]) (auto intro: hoare_return)
  then show ?thesis using False unfolding commit_file_def by (simp add: hoare_def)
qed

lemma enable_commit_spec:
  "hoare (\<lambda>w. journaled env ActionEnable t p tx w \<and> txStagedFile tx \<noteq> [] \<and> map_of (cwFiles w) (txStagedFile tx) = Some content)
     (CommitTransaction env tx) (\<lambda>_. idle t (Some content)) (\<lambda>w. \<exists>tx. journaled env ActionEnable t p tx w)"
proof (cases "txAction tx = ActionEnable")
  case True
  then show ?thesis unfolding CommitTransaction_def by (simp add: hoare_bind [OF commit_file_spec finish_spec])
qed (simp add: hoare_def journaled_def)

text \<open>Recovery on a quiet machine.\<close>

lemma effect_quiet [simp]: "cwFates w = [] \<Longrightarrow> effect what f w = (case f w of None \<Rightarrow> (Err (FaultIO what), w) | Some w' \<Rightarrow> (Ret (), w'))"
  by (cases w) (simp add: effect_def Let_def split: option.split)

lemma quiet_steps_quiet [simp]: "cwFates w = [] \<Longrightarrow> quiet_steps ss w = (Ret (), w)"
  by (induction ss) (simp_all add: return_io_def bind_io_def)

lemma fates_file_ops [simp]: "cwFates (put_file p d w) = cwFates w" "cwFates (delete_file p w) = cwFates w"
  by (cases p; simp)+

lemma quiet_ops [simp]:
  assumes "cwFates w = []"
  shows "ReadFile p w = (Ret (get_file p w), w)" "Remove p w = (Ret (), delete_file p w)"
    "atomicWriteFile p d w = (Ret (), put_file p d w)"
  using assms by (simp_all add: ReadFile_def Remove_def atomicWriteFile_def bind_io_def del: quiet_steps.simps)

definition loaded :: "config_env \<Rightarrow> config_world \<Rightarrow> config_fault + GatewayState" where
  "loaded env w = (case cwState w of
     None \<Rightarrow> Inr emptyState
   | Some d \<Rightarrow> (case cnStDec env d of None \<Rightarrow> Inl (FaultCorrupt ''state'') | Some st \<Rightarrow> Inr st))"

lemma load_quiet [simp]: "cwFates w = [] \<Longrightarrow> try_io (LoadState env) w = (Ret (loaded env w), w)"
  by (simp add: try_io_def LoadState_def bind_io_def loaded_def return_io_def fail_io_def split: option.split)

lemmas io_defs = bind_io_def try_io_def return_io_def fail_io_def

lemma recover_pending:
  assumes "cwFates w = []" "journaled env a t p tx w" "cnTxDec env (cnTxEnc env tx) = Some tx"
  shows "\<exists>w'. RecoverJournal env w = (Ret (Some (recovery_result tx)), w') \<and> idle t (prior_content p) w' \<and> cwFates w' = [] \<and>
     cwState w' = Some (cnStEnc env (recovered_state env (loaded env w)))"
proof -
  have j: "ReadJournal env w = (Ret (Some tx), w)"
    using assms by (simp add: ReadJournal_def bind_io_def return_io_def journaled_def)
  define w1 where "w1 = (if txStagedFile tx \<noteq> [] then delete_file (UserFile (txStagedFile tx)) w else w)"
  have w1: "cwFates w1 = []" "cwState w1 = cwState w" using assms(1) by (simp_all add: w1_def)
  define w2 where "w2 = (if pcFileExisted p then put_file (UserFile t) (pcRawContent p) w1 else delete_file (UserFile t) w1)"
  have w2: "cwFates w2 = []" "cwState w2 = cwState w" "map_of (cwFiles w2) t = prior_content p"
    using w1 by (simp_all add: w2_def prior_content_def)
  have l: "loaded env w2 = loaded env w" using w2(2) by (simp add: loaded_def)
  have r: "restore_prior (txTargetFile tx) (txPriorConfig tx) w1 = (Ret (), w2)"
    using w1(1) assms(2) by (simp add: restore_prior_def w2_def journaled_def)
  have d: "(if txStagedFile tx \<noteq> [] then bind_io (try_io (Remove (UserFile (txStagedFile tx)))) (\<lambda>_. return_io ()) else return_io ()) w = (Ret (), w1)"
    using assms(1) by (simp add: w1_def bind_io_def try_io_def return_io_def)
  have "RecoverJournal env w =
     (Ret (Some (recovery_result tx)), delete_file JournalFile (put_file StateFile (cnStEnc env (recovered_state env (loaded env w))) w2))"
    using w2(1) by (simp add: RecoverJournal_def bind_io_def j d r l SaveState_def ClearJournal_def return_io_def try_io_def [of "atomicWriteFile _ _"]
        del: put_file.simps delete_file.simps split del: if_split)
  then show ?thesis using w2 by (simp add: idle_def)
qed

lemma recover_idle: "cwFates w = [] \<Longrightarrow> cwJournal w = None \<Longrightarrow> RecoverJournal env w = (Ret None, w)"
  by (simp add: RecoverJournal_def ReadJournal_def bind_io_def return_io_def)

lemma recover_idle_spec:
  assumes "of_files P" "\<And>w. P w \<Longrightarrow> cwJournal w = None"
  shows "hoare P (try_io (RecoverJournal env)) (\<lambda>_. P) P"
proof (rule try_keeps)
  have j: "hoare P (ReadJournal env) (\<lambda>r w. P w \<and> r = None) P"
    unfolding ReadJournal_def
    by (rule hoare_bind [OF hoare_read [OF assms(1)]]) (auto simp: hoare_def return_io_def split: option.split dest: assms(2))
  show "hoare P (RecoverJournal env) (\<lambda>_. P) P"
    unfolding RecoverJournal_def by (rule hoare_bind [OF j]) (auto simp: hoare_def return_io_def split: option.split)
qed

lemma inspect_spec:
  "hoare (idle t c) (inspect_npmrc env t) (\<lambda>info w. idle t c w \<and> InspectNpmrc (cnHostname env) t c = Inr info) (idle t c)"
  unfolding inspect_npmrc_def
  by (rule hoare_bind [OF hoare_read])
     (auto simp: hoare_def return_io_def fail_io_def idle_def split: sum.split)

lemma prior_of_inspected: "InspectNpmrc hostname t c = Inr info \<Longrightarrow> prior_content (prior_of info) = c"
  by (auto simp: InspectNpmrc_def prior_content_def prior_of_def Let_def split: option.splits sum.splits)

lemma enable_spec:
  assumes "\<And>t fs. cnStaged env t fs \<noteq> []" and t: "t = lmNpmrcPath m"
  shows "hoare (idle t c) (EnableNpm env m)
     (\<lambda>_ w. gateway_ready env (lmGatewayURL m) \<and>
        (\<exists>info. InspectNpmrc (cnHostname env) t c = Inr info \<and> idle t (Some (GenerateEnabledContent info (lmGatewayURL m))) w))
     (\<lambda>w. idle t c w \<or> gateway_ready env (lmGatewayURL m) \<and> (\<exists>p tx. journaled env ActionEnable t p tx w \<and> prior_content p = c))"
    (is "hoare _ _ ?Q ?R")
proof -
  have R: "hoare P n Q (idle t c) \<Longrightarrow> hoare P n Q ?R" for P Q and n :: "'z config_io" by (erule hoare_weaken) auto
  have tail: "hoare (\<lambda>w. idle t c w \<and> InspectNpmrc (cnHostname env) t c = Inr info)
     (if \<not> gateway_ready env (lmGatewayURL m) then fail_io (FaultNotReady (lmGatewayURL m))
      else bind_io (BeginTransaction env ActionEnable t (lmGatewayURL m) (prior_of info))
        (\<lambda>tx. bind_io (StageTransaction env tx (GenerateEnabledContent info (lmGatewayURL m))) (CommitTransaction env))) ?Q ?R" (is "hoare ?P ?m _ _") for info
  proof (cases "InspectNpmrc (cnHostname env) t c = Inr info \<and> gateway_ready env (lmGatewayURL m)")
    case True
    let ?J = "\<lambda>w. \<exists>tx. journaled env ActionEnable t (prior_of info) tx w"
    have J: "hoare P n (\<lambda>_. idle t (Some (GenerateEnabledContent info (lmGatewayURL m)))) ?J \<Longrightarrow> hoare P n ?Q ?R" for P and n :: "unit config_io"
      using True prior_of_inspected [of "cnHostname env" t c info] by (elim hoare_weaken) auto
    have b: "hoare ?P (BeginTransaction env ActionEnable t (lmGatewayURL m) (prior_of info)) (journaled env ActionEnable t (prior_of info)) ?R"
      by (rule hoare_weaken [OF begin_spec [of t c]]) auto
    have "hoare ?P (bind_io (BeginTransaction env ActionEnable t (lmGatewayURL m) (prior_of info))
        (\<lambda>tx. bind_io (StageTransaction env tx (GenerateEnabledContent info (lmGatewayURL m))) (CommitTransaction env))) ?Q ?R"
      by (rule hoare_bind [OF b], rule J, rule hoare_bind [OF stage_spec [OF assms(1)] enable_commit_spec])
    then show ?thesis using True by simp
  qed (auto simp: hoare_def fail_io_def)
  have rec: "hoare (idle t c) (try_io (RecoverJournal env)) (\<lambda>_. idle t c) (idle t c)" by (rule recover_idle_spec) (auto simp: idle_def)
  show ?thesis
    unfolding EnableNpm_def t [symmetric] by (rule hoare_bind [OF R [OF rec] hoare_bind [OF R [OF inspect_spec] tail]])
qed

lemma recover_after:
  assumes "cwFates w = []" "idle t c w \<or> (\<exists>p tx. journaled env a t p tx w \<and> prior_content p = c')" "\<And>tx. cnTxDec env (cnTxEnc env tx) = Some tx"
  shows "\<exists>r w'. RecoverJournal env w = (Ret r, w') \<and> cwJournal w' = None \<and> (map_of (cwFiles w') t = c \<and> r = None \<or> map_of (cwFiles w') t = c' \<and> r \<noteq> None)"
proof -
  consider "idle t c w" | p tx where "journaled env a t p tx w" "prior_content p = c'" using assms(2) by blast
  then show ?thesis
  proof cases
    case 1
    then show ?thesis using recover_idle [OF assms(1)] by (auto simp: idle_def)
  next
    case 2
    then show ?thesis using recover_pending [OF assms(1) 2(1) assms(3)] by (auto simp: idle_def)
  qed
qed

lemma refated [simp]: "idle t c (w\<lparr>cwFates := fs\<rparr>) = idle t c w" "journaled env a t p tx (w\<lparr>cwFates := fs\<rparr>) = journaled env a t p tx w"
  by (simp_all add: idle_def journaled_def)

lemma disable_commit_spec:
  "hoare (\<lambda>w. journaled env ActionDisable t p tx w \<and>
       (pcFileExisted p \<longrightarrow> txStagedFile tx \<noteq> [] \<and> map_of (cwFiles w) (txStagedFile tx) = Some (pcRawContent p)))
     (CommitTransaction env tx) (\<lambda>_. idle t (prior_content p)) (\<lambda>w. \<exists>tx. journaled env ActionDisable t p tx w)" (is "hoare ?P _ _ ?R")
proof (cases "txAction tx = ActionDisable \<and> txPriorConfig tx = p \<and> txTargetFile tx = t")
  case True
  let ?F = "\<lambda>w. journaled env ActionDisable t p tx w \<and> map_of (cwFiles w) t = prior_content p"
  have "hoare ?P (if \<not> pcFileExisted p then Remove (UserFile t) else commit_file tx) (\<lambda>_. ?F) ?R"
  proof (cases "pcFileExisted p")
    case True
    then show ?thesis using commit_file_spec [of env ActionDisable t p tx "pcRawContent p"] by (simp add: prior_content_def)
  next
    case False
    have "hoare (journaled env ActionDisable t p tx) (Remove (UserFile t)) (\<lambda>_. ?F) (journaled env ActionDisable t p tx)"
      by (rule hoare_remove) (simp_all add: prior_content_def False journaled_def)
    then show ?thesis using False by (auto elim: hoare_weaken)
  qed
  note commit = hoare_bind [OF this finish_spec [where f = "committed_state env tx"]]
  have "ActionDisable \<noteq> ActionEnable" by (simp add: ActionDisable_def ActionEnable_def)
  then show ?thesis using True commit unfolding CommitTransaction_def by (simp cong: if_cong split del: if_split)
qed (auto simp: hoare_def journaled_def)

lemma load_prior_spec:
  assumes "of_files P" "\<And>w. P w \<Longrightarrow> loaded env w = Inr st"
  shows "hoare P (LoadState env) (\<lambda>st' w. P w \<and> st' = st) P"
  unfolding LoadState_def
  by (rule hoare_bind [OF hoare_read [OF assms(1)]])
     (auto simp: hoare_def return_io_def fail_io_def loaded_def split: option.splits dest!: assms(2))

lemma disable_spec:
  assumes "\<And>t fs. cnStaged env t fs \<noteq> []" and t: "t = lmNpmrcPath m" and p: "stPriorConfig st = Some p"
  shows "hoare (\<lambda>w. idle t c w \<and> loaded env w = Inr st) (DisableNpm env m) (\<lambda>_. idle t (prior_content p))
     (\<lambda>w. idle t c w \<or> (\<exists>p' tx. journaled env ActionDisable t p' tx w \<and> prior_content p' = prior_content p))" (is "hoare ?P _ ?Q ?R")
proof -
  have o: "of_files ?P" by (simp add: of_files_def loaded_def idle_def)
  have J: "hoare A n Q (\<lambda>w. \<exists>tx. journaled env ActionDisable t p tx w) \<Longrightarrow> hoare A n Q ?R" for A Q and n :: "unit config_io"
    by (erule hoare_weaken) auto
  have b: "hoare ?P (BeginTransaction env ActionDisable t (lmGatewayURL m) p) (journaled env ActionDisable t p) ?R"
    by (rule hoare_weaken [OF begin_spec [of t c]]) auto
  have stage: "hoare (journaled env ActionDisable t p tx) (if pcFileExisted p then StageTransaction env tx (pcRawContent p) else return_io tx)
     (\<lambda>tx' w. journaled env ActionDisable t p tx' w \<and>
        (pcFileExisted p \<longrightarrow> txStagedFile tx' \<noteq> [] \<and> map_of (cwFiles w) (txStagedFile tx') = Some (pcRawContent p)))
     (\<lambda>w. \<exists>tx. journaled env ActionDisable t p tx w)" for tx
    using stage_spec [OF assms(1), of ActionDisable t p tx "pcRawContent p"] by (auto intro!: hoare_return)
  have tail: "hoare ?P (bind_io (BeginTransaction env ActionDisable t (lmGatewayURL m) p) (\<lambda>tx.
      bind_io (if pcFileExisted p then StageTransaction env tx (pcRawContent p) else return_io tx) (CommitTransaction env))) ?Q ?R"
    by (rule hoare_bind [OF b], rule J, rule hoare_bind [OF stage disable_commit_spec])
  have R: "hoare ?P n Q ?P \<Longrightarrow> hoare ?P n Q ?R" for Q and n :: "'z config_io" by (erule hoare_weaken) auto
  have rec: "hoare ?P (try_io (RecoverJournal env)) (\<lambda>_. ?P) ?P" by (rule recover_idle_spec [OF o]) (auto simp: idle_def)
  have load: "hoare ?P (LoadState env) (\<lambda>st' w. ?P w \<and> st' = st) ?P" by (rule load_prior_spec [OF o]) simp
  have after: "hoare (\<lambda>w. ?P w \<and> st' = st) (bind_io (disable_prior env m st') (\<lambda>p. case p of None \<Rightarrow> return_io ()
       | Some prior \<Rightarrow> bind_io (BeginTransaction env ActionDisable t (lmGatewayURL m) prior) (\<lambda>tx.
           bind_io (if pcFileExisted prior then StageTransaction env tx (pcRawContent prior) else return_io tx) (CommitTransaction env)))) ?Q ?R" for st'
  proof (cases "st' = st")
    case True
    then show ?thesis using tail by (simp add: disable_prior_def p bind_io_def [of "return_io _"] return_io_def hoare_def)
  qed (simp add: hoare_def)
  show ?thesis
    unfolding DisableNpm_def t [symmetric] by (rule hoare_bind [OF R [OF rec] hoare_bind [OF R [OF load] after]])
qed

text \<open>The transactions on a quiet machine, call by call.\<close>

lemma begin_quiet:
  assumes "cwFates w = []"
  shows "\<exists>tx. BeginTransaction env a t url p w = (Ret tx, put_file JournalFile (cnTxEnc env tx) w) \<and>
     txAction tx = a \<and> txTargetFile tx = t \<and> txPriorConfig tx = p"
  using assms by (simp add: BeginTransaction_def WriteJournal_def bind_io_def return_io_def Let_def)

lemma stage_quiet:
  assumes "cwFates w = []" "cnStaged env (txTargetFile tx) (cwFiles w) = staged"
  shows "StageTransaction env tx content w =
     (Ret (tx\<lparr>txPhase := PhaseStaged, txStagedFile := staged, txUpdatedAt := cnNow env\<rparr>),
      put_file JournalFile (cnTxEnc env (tx\<lparr>txPhase := PhaseStaged, txStagedFile := staged, txUpdatedAt := cnNow env\<rparr>))
        (put_file (UserFile staged) content (put_file (UserFile staged) [] w)))"
  using assms
  by (simp add: StageTransaction_def WriteJournal_def bind_io_def try_io_def return_io_def Let_def del: quiet_steps.simps put_file.simps)

lemma commit_file_quiet:
  assumes "cwFates w = []" "txStagedFile tx \<noteq> []" "map_of (cwFiles w) (txStagedFile tx) = Some content"
  shows "commit_file tx w = (Ret (), put_file (UserFile (txTargetFile tx)) content (delete_file (UserFile (txStagedFile tx)) w))"
  using assms by (simp add: commit_file_def Rename_def bind_io_def try_io_def return_io_def del: put_file.simps delete_file.simps)

lemma finish_quiet:
  assumes "cwFates w = []"
  shows "bind_io (try_io (LoadState env)) (\<lambda>r. bind_io (try_io (SaveState env (f r))) (\<lambda>_. ClearJournal)) w =
     (Ret (), delete_file JournalFile (put_file StateFile (cnStEnc env (f (loaded env w))) w))"
  using assms by (simp add: bind_io_def SaveState_def try_io_def [of "atomicWriteFile _ _"] ClearJournal_def del: put_file.simps delete_file.simps)

lemma stage_commit_quiet:
  assumes "cwFates w = []" "\<And>fs. cnStaged env (txTargetFile tx) fs \<noteq> []"
    "\<And>fs. map_of fs (cnStaged env (txTargetFile tx) fs) = None" "txAction tx = ActionEnable \<or> txAction tx = ActionDisable \<and> pcFileExisted (txPriorConfig tx)"
  shows "\<exists>tx' w'. bind_io (StageTransaction env tx content) (CommitTransaction env) w = (Ret (), w') \<and> cwFates w' = [] \<and> cwJournal w' = None \<and>
     map_of (cwFiles w') = (map_of (cwFiles w))(txTargetFile tx \<mapsto> content) \<and>
     cwState w' = Some (cnStEnc env (committed_state env tx' (loaded env w))) \<and> txAction tx' = txAction tx \<and> txPriorConfig tx' = txPriorConfig tx"
proof -
  define staged where "staged = cnStaged env (txTargetFile tx) (cwFiles w)"
  define tx' where "tx' = tx\<lparr>txPhase := PhaseStaged, txStagedFile := staged, txUpdatedAt := cnNow env\<rparr>"
  define w1 where "w1 = put_file JournalFile (cnTxEnc env tx') (put_file (UserFile staged) content (put_file (UserFile staged) [] w))"
  define w2 where "w2 = put_file (UserFile (txTargetFile tx)) content (delete_file (UserFile staged) w1)"
  have w: "cwFates w1 = []" "cwFates w2 = []" "cwState w2 = cwState w" using assms(1) by (simp_all add: w1_def w2_def)
  have s: "staged \<noteq> []" "map_of (cwFiles w) staged = None" "map_of (cwFiles w1) staged = Some content"
    using assms(2,3) by (simp_all add: staged_def w1_def)
  have st: "StageTransaction env tx content w = (Ret tx', w1)"
    using stage_quiet [OF assms(1) staged_def [symmetric]] by (simp add: tx'_def w1_def)
  have c: "commit_file tx' w1 = (Ret (), w2)"
    using commit_file_quiet [OF w(1), of tx' content] s by (simp add: tx'_def w2_def)
  have l: "loaded env w2 = loaded env w" using w(3) by (simp add: loaded_def)
  have "CommitTransaction env tx' w1 =
      (Ret (), delete_file JournalFile (put_file StateFile (cnStEnc env (committed_state env tx' (loaded env w))) w2))"
    unfolding CommitTransaction_def bind_io_def [of "if _ then _ else _"]
    using assms(4) finish_quiet [OF w(2), of env "committed_state env tx'"] c l
    by (auto simp: tx'_def ActionEnable_def ActionDisable_def simp del: put_file.simps delete_file.simps)
  then show ?thesis
    using st w s(2) by (intro exI [of _ tx']) (auto simp: bind_io_def tx'_def w2_def w1_def fun_eq_iff delete_conv' update_conv')
qed

lemma enable_quiet:
  assumes "cwFates w = []" "cwJournal w = None" "gateway_ready env (lmGatewayURL m)" and t: "t = lmNpmrcPath m"
    and i: "InspectNpmrc (cnHostname env) t (map_of (cwFiles w) t) = Inr info"
    and s: "\<And>t fs. cnStaged env t fs \<noteq> []" "\<And>t fs. map_of fs (cnStaged env t fs) = None"
    and codec: "\<And>st. cnStDec env (cnStEnc env st) = Some st"
  shows "\<exists>st w'. EnableNpm env m w = (Ret (), w') \<and> cwFates w' = [] \<and> cwJournal w' = None \<and>
     map_of (cwFiles w') = (map_of (cwFiles w))(t \<mapsto> GenerateEnabledContent info (lmGatewayURL m)) \<and>
     loaded env w' = Inr st \<and> stPriorConfig st = Some (prior_of info)"
proof -
  obtain tx where b: "BeginTransaction env ActionEnable t (lmGatewayURL m) (prior_of info) w = (Ret tx, put_file JournalFile (cnTxEnc env tx) w)"
    and tx: "txAction tx = ActionEnable" "txTargetFile tx = t" "txPriorConfig tx = prior_of info"
    using begin_quiet [OF assms(1)] by blast
  obtain tx' w' where c: "bind_io (StageTransaction env tx (GenerateEnabledContent info (lmGatewayURL m))) (CommitTransaction env)
        (put_file JournalFile (cnTxEnc env tx) w) = (Ret (), w')"
    and w': "cwFates w' = []" "cwJournal w' = None" "map_of (cwFiles w') = (map_of (cwFiles w))(t \<mapsto> GenerateEnabledContent info (lmGatewayURL m))"
      "cwState w' = Some (cnStEnc env (committed_state env tx' (loaded env (put_file JournalFile (cnTxEnc env tx) w))))"
    and tx': "txAction tx' = ActionEnable" "txPriorConfig tx' = prior_of info"
    using stage_commit_quiet [of "put_file JournalFile (cnTxEnc env tx) w" env tx "GenerateEnabledContent info (lmGatewayURL m)"] assms(1) s tx by auto
  have "inspect_npmrc env t w = (Ret info, w)" using assms(1) i by (simp add: inspect_npmrc_def bind_io_def return_io_def)
  then have "EnableNpm env m w = (Ret (), w')"
    unfolding EnableNpm_def bind_io_def [of "try_io _"] bind_io_def [of "inspect_npmrc _ _"] bind_io_def [of "BeginTransaction _ _ _ _ _"] try_io_def
    using recover_idle [OF assms(1,2)] b c assms(3) by (simp add: t)
  then show ?thesis
    using w' tx' codec by (auto simp: loaded_def committed_state_def Let_def)
qed

lemma disable_quiet:
  assumes "cwFates w = []" "cwJournal w = None" "loaded env w = Inr st" "stPriorConfig st = Some p" and t: "t = lmNpmrcPath m"
    and s: "\<And>t fs. cnStaged env t fs \<noteq> []" "\<And>t fs. map_of fs (cnStaged env t fs) = None"
  shows "\<exists>w'. DisableNpm env m w = (Ret (), w') \<and> cwJournal w' = None \<and> map_of (cwFiles w') = (map_of (cwFiles w))(t := prior_content p)"
proof -
  have ld: "LoadState env w = (Ret st, w)"
    using load_quiet [OF assms(1), of env] assms(3) by (simp add: try_io_def split: prod.splits io_result.splits)
  obtain tx where b: "BeginTransaction env ActionDisable t (lmGatewayURL m) p w = (Ret tx, put_file JournalFile (cnTxEnc env tx) w)"
    and tx: "txAction tx = ActionDisable" "txTargetFile tx = t" "txPriorConfig tx = p"
    using begin_quiet [OF assms(1)] by blast
  let ?w = "put_file JournalFile (cnTxEnc env tx) w"
  have "DisableNpm env m w = bind_io (if pcFileExisted p then StageTransaction env tx (pcRawContent p) else return_io tx) (CommitTransaction env) ?w"
    unfolding DisableNpm_def bind_io_def [of "try_io _"] bind_io_def [of "LoadState _"] bind_io_def [of "disable_prior _ _ _"]
      bind_io_def [of "BeginTransaction _ _ _ _ _"] try_io_def
    using recover_idle [OF assms(1,2)] ld b assms(4) by (simp add: t disable_prior_def return_io_def split del: if_split)
  moreover have "\<exists>w'. bind_io (StageTransaction env tx (pcRawContent p)) (CommitTransaction env) ?w = (Ret (), w') \<and> cwJournal w' = None \<and>
      map_of (cwFiles w') = (map_of (cwFiles w))(t := prior_content p)" if "pcFileExisted p"
    using stage_commit_quiet [of ?w env tx "pcRawContent p"] assms(1) s tx that by (auto simp: prior_content_def)
  moreover have "\<exists>w'. bind_io (return_io tx) (CommitTransaction env) ?w = (Ret (), w') \<and> cwJournal w' = None \<and>
      map_of (cwFiles w') = (map_of (cwFiles w))(t := prior_content p)" if "\<not> pcFileExisted p"
  proof -
    let ?w' = "delete_file (UserFile t) ?w"
    have "CommitTransaction env tx ?w = bind_io (try_io (LoadState env)) (\<lambda>r. bind_io (try_io (SaveState env (committed_state env tx r))) (\<lambda>_. ClearJournal)) ?w'"
      unfolding CommitTransaction_def bind_io_def [of "if _ then _ else _"]
      using that tx assms(1) by (simp add: ActionDisable_def ActionEnable_def)
    then show ?thesis
      using finish_quiet [of ?w' env "committed_state env tx"] assms(1) that
      by (simp add: bind_io_def [of "return_io _"] return_io_def prior_content_def fun_eq_iff delete_conv')
  qed
  ultimately show ?thesis by auto
qed

text \<open>
  Enabling a second time remembers the gateway's own configuration as the prior one: disabling
  then leaves npm pointed at the gateway.
\<close>

lemma second_enable_forgets_prior:
  assumes "\<And>t fs. cnStaged env t fs \<noteq> []" "\<And>t fs. map_of fs (cnStaged env t fs) = None" "\<And>st. cnStDec env (cnStEnc env st) = Some st"
    and "cwFates w = []" "cwJournal w = None" "gateway_ready env (lmGatewayURL m)"
    and "InspectNpmrc (cnHostname env) (lmNpmrcPath m) (map_of (cwFiles w) (lmNpmrcPath m)) = Inr info"
    and "InspectNpmrc (cnHostname env) (lmNpmrcPath m) (Some (GenerateEnabledContent info (lmGatewayURL m))) = Inr info'"
  shows "\<exists>w1 w2 w3. EnableNpm env m w = (Ret (), w1) \<and> EnableNpm env m w1 = (Ret (), w2) \<and> DisableNpm env m w2 = (Ret (), w3) \<and>
     map_of (cwFiles w3) (lmNpmrcPath m) = Some (GenerateEnabledContent info (lmGatewayURL m))"
proof -
  note s = assms(1-3)
  obtain w1 where 1: "EnableNpm env m w = (Ret (), w1)" "cwFates w1 = []" "cwJournal w1 = None"
      "map_of (cwFiles w1) (lmNpmrcPath m) = Some (GenerateEnabledContent info (lmGatewayURL m))"
    using enable_quiet [OF assms(4-6) refl assms(7) s] by auto
  obtain st w2 where 2: "EnableNpm env m w1 = (Ret (), w2)" "cwFates w2 = []" "cwJournal w2 = None"
      "loaded env w2 = Inr st" "stPriorConfig st = Some (prior_of info')"
    using enable_quiet [OF 1(2,3) assms(6) refl _ s, of info'] 1(4) assms(8) by auto
  obtain w3 where "DisableNpm env m w2 = (Ret (), w3)" "map_of (cwFiles w3) (lmNpmrcPath m) = prior_content (prior_of info')"
    using disable_quiet [OF 2(2-5) refl s(1,2), of m] by auto
  then show ?thesis using 1 2 prior_of_inspected [OF assms(8)] by auto
qed

section \<open>A coding\<close>

text \<open>A coding of transactions and states that is exact, as JSON is on text in UTF-8: fields with their length in
  unary before them.\<close>

fun pack :: "string list \<Rightarrow> string" where
  "pack [] = []"
| "pack (x # xs) = replicate (length x) CHR ''1'' @ CHR ''.'' # x @ pack xs"

fun unpack :: "nat \<Rightarrow> string \<Rightarrow> string list" where
  "unpack 0 s = []"
| "unpack (Suc n) s =
     (let k = length (takeWhile (\<lambda>c. c = CHR ''1'') s); r = drop (Suc k) s in take k r # unpack n (drop k r))"

lemma unpack_pack: "n = length xs \<Longrightarrow> unpack n (pack xs) = xs"
proof (induction xs arbitrary: n)
  case (Cons x xs)
  have "takeWhile (\<lambda>c. c = CHR ''1'') (replicate (length x) CHR ''1'' @ CHR ''.'' # x @ pack xs) = replicate (length x) CHR ''1''"
    by (simp add: takeWhile_append)
  then show ?case using Cons by simp
qed simp

definition pack_bool :: "bool \<Rightarrow> string" where
  "pack_bool b = (if b then ''1'' else ''0'')"

definition pack_int :: "int \<Rightarrow> string" where
  "pack_int i = (if i < 0 then CHR ''-'' # replicate (nat (- i)) CHR ''1'' else replicate (nat i) CHR ''1'')"

definition unpack_int :: "string \<Rightarrow> int" where
  "unpack_int s = (case s of CHR ''-'' # r \<Rightarrow> - int (length r) | _ \<Rightarrow> int (length s))"

lemma unpack_int_pack [simp]: "unpack_int (pack_int i) = i"
proof (cases "i < 0")
  case False
  then show ?thesis by (cases "nat i") (auto simp: unpack_int_def pack_int_def)
qed (simp add: unpack_int_def pack_int_def)

definition pack_prior :: "PriorConfig \<Rightarrow> string" where
  "pack_prior p = pack [pack_bool (pcFileExisted p), pack_bool (pcHasRegistry p), pcRegistryValue p, pcRawContent p]"

definition unpack_prior :: "string \<Rightarrow> PriorConfig" where
  "unpack_prior s = (let f = unpack 4 s in
     \<lparr>pcFileExisted = (f ! 0 = ''1''), pcHasRegistry = (f ! 1 = ''1''), pcRegistryValue = f ! 2, pcRawContent = f ! 3\<rparr>)"

lemma unpack_prior_pack [simp]: "unpack_prior (pack_prior p) = p"
  by (simp add: unpack_prior_def pack_prior_def unpack_pack pack_bool_def Let_def del: pack.simps unpack.simps)

definition pack_tx :: "Transaction \<Rightarrow> string" where
  "pack_tx tx = pack [txID tx, txAction tx, txPhase tx, txTargetFile tx, txGatewayURL tx, txStagedFile tx, pack_prior (txPriorConfig tx),
     pack_int (txCreatedAt tx), pack_int (txUpdatedAt tx)]"

definition unpack_tx :: "string \<Rightarrow> Transaction option" where
  "unpack_tx s = (let f = unpack 9 s in Some
     \<lparr>txID = f ! 0, txAction = f ! 1, txPhase = f ! 2, txTargetFile = f ! 3, txGatewayURL = f ! 4, txStagedFile = f ! 5,
      txPriorConfig = unpack_prior (f ! 6), txCreatedAt = unpack_int (f ! 7), txUpdatedAt = unpack_int (f ! 8)\<rparr>)"

lemma unpack_tx_pack: "unpack_tx (pack_tx tx) = Some tx"
  by (simp add: unpack_tx_def pack_tx_def unpack_pack Let_def del: pack.simps unpack.simps)

definition pack_state :: "GatewayState \<Rightarrow> string" where
  "pack_state st = pack [pack_bool (stEnabled st), stGatewayURL st, pack_int (stPort st), pack_int (stPID st),
     (case stPriorConfig st of None \<Rightarrow> [] | Some p \<Rightarrow> CHR ''p'' # pack_prior p), pack_int (stLastUpdated st)]"

definition unpack_state :: "string \<Rightarrow> GatewayState option" where
  "unpack_state s = (let f = unpack 6 s in Some
     \<lparr>stEnabled = (f ! 0 = ''1''), stGatewayURL = f ! 1, stPort = unpack_int (f ! 2), stPID = unpack_int (f ! 3),
      stPriorConfig = (case f ! 4 of [] \<Rightarrow> None | _ # r \<Rightarrow> Some (unpack_prior r)), stLastUpdated = unpack_int (f ! 5)\<rparr>)"

lemma unpack_state_pack: "unpack_state (pack_state st) = Some st"
  by (simp add: unpack_state_def pack_state_def unpack_pack Let_def pack_bool_def del: pack.simps unpack.simps split: option.split)

text \<open>A staged name longer than every name there is.\<close>

definition fresh_name :: "string \<Rightarrow> (string \<times> string) list \<Rightarrow> string" where
  "fresh_name t fs = t @ ''.'' @ concat (map fst fs)"

lemma fresh_name_fresh: "fresh_name t fs \<noteq> []" "map_of fs (fresh_name t fs) = None"
proof -
  have "length (fst x) \<le> length (concat (map fst fs))" if "x \<in> set fs" for x
    using that by (induction fs) auto
  then have "fresh_name t fs \<notin> fst ` set fs" by (fastforce simp: fresh_name_def)
  then show "map_of fs (fresh_name t fs) = None" by (simp add: map_of_eq_None_iff)
qed (simp add: fresh_name_def)

definition calm_env :: config_env where
  "calm_env = \<lparr>cnNow = 0, cnTxID = ''tx'', cnStaged = fresh_name, cnTxEnc = pack_tx, cnTxDec = unpack_tx, cnStEnc = pack_state,
     cnStDec = unpack_state, cnHostname = (\<lambda>_. Some ''127.0.0.1''),
     cnHealth = (\<lambda>_. Some \<lparr>hrStatus = ''ok'', hrReady = True, hrCache = noCacheStats\<rparr>)\<rparr>"

definition sample_manager :: LifecycleManager where
  "sample_manager = \<lparr>lmDataDir = ''.installgate'', lmNpmrcPath = ''.npmrc'', lmGatewayURL = DefaultGatewayURL, lmGatewayPort = DefaultGatewayPort\<rparr>"

lemma calm_env_laws:
  "cnTxDec calm_env (cnTxEnc calm_env tx) = Some tx" "cnStDec calm_env (cnStEnc calm_env st) = Some st"
  "cnStaged calm_env t fs \<noteq> []" "map_of fs (cnStaged calm_env t fs) = None" "gateway_ready calm_env url"
  by (simp_all add: calm_env_def unpack_tx_pack unpack_state_pack fresh_name_fresh gateway_ready_def)

text \<open>A process that dies just after the configuration was replaced.\<close>

definition dying_world :: config_world where
  "dying_world = \<lparr>cwFiles = [], cwJournal = None, cwState = None, cwFates = replicate 21 Done @ [Dies]\<rparr>"

lemmas run_defs = bind_io_def try_io_def return_io_def fail_io_def effect_def Let_def ReadFile_def Remove_def Rename_def atomicWriteFile_def
  WriteJournal_def ReadJournal_def ClearJournal_def SaveState_def LoadState_def BeginTransaction_def StageTransaction_def cleanup_staged_def
  commit_file_def CommitTransaction_def RecoverJournal_def inspect_npmrc_def gateway_ready_def InspectNpmrc_def numeral_eq_Suc

lemma dying_enable:
  "fst (EnableNpm calm_env sample_manager dying_world) = Died"
  by (simp add: EnableNpm_def calm_env_def sample_manager_def dying_world_def run_defs ActionEnable_def ActionDisable_def fresh_name_def)

definition enabled_world :: config_world where
  "enabled_world = \<lparr>cwFiles = [(''.npmrc'', ''registry='' @ DefaultGatewayURL @ ''/'' @ [LF])], cwJournal = None,
     cwState = Some (pack_state (emptyState\<lparr>stEnabled := True, stPriorConfig := Some \<lparr>pcFileExisted = False, pcHasRegistry = False,
       pcRegistryValue = [], pcRawContent = []\<rparr>\<rparr>)), cwFates = replicate 8 Done @ [Fails]\<rparr>"

lemma failing_disable: "fst (DisableNpm calm_env sample_manager enabled_world) = Err (FaultIO ''remove'')"
  by (simp add: DisableNpm_def disable_prior_def calm_env_def sample_manager_def enabled_world_def run_defs ActionEnable_def ActionDisable_def unpack_state_pack)

section \<open>Properties\<close>

text \<open>
  C9. Enabling npm is atomic under every failure. Whatever file-system calls fail and wherever the
  process dies, either enabling returns, and then the gateway was ready, no transaction is open and
  the configuration is the rewritten one; or the next recovery succeeds and leaves the
  configuration byte for byte as it was, absent if it was absent, with no transaction open. A
  gateway that is not ready leaves the file untouched from the start.
\<close>

theorem enable_crash_safe:
  assumes "\<And>tx. cnTxDec env (cnTxEnc env tx) = Some tx" "\<And>t fs. cnStaged env t fs \<noteq> []"
    and "cwJournal w = None" "EnableNpm env m w = (res, w')"
  shows "case res of
     Ret _ \<Rightarrow> gateway_ready env (lmGatewayURL m) \<and> cwJournal w' = None \<and>
       (\<exists>info. InspectNpmrc (cnHostname env) (lmNpmrcPath m) (map_of (cwFiles w) (lmNpmrcPath m)) = Inr info \<and>
          map_of (cwFiles w') (lmNpmrcPath m) = Some (GenerateEnabledContent info (lmGatewayURL m)))
   | _ \<Rightarrow> \<exists>r w''. RecoverJournal env (w'\<lparr>cwFates := []\<rparr>) = (Ret r, w'') \<and> cwJournal w'' = None \<and>
       map_of (cwFiles w'') (lmNpmrcPath m) = map_of (cwFiles w) (lmNpmrcPath m) \<and>
       (gateway_ready env (lmGatewayURL m) \<or> map_of (cwFiles w') (lmNpmrcPath m) = map_of (cwFiles w) (lmNpmrcPath m))"
proof -
  let ?t = "lmNpmrcPath m"
  let ?c = "map_of (cwFiles w) ?t"
  have "idle ?t ?c w" using assms(3) by (simp add: idle_def)
  note run = hoare_run [OF enable_spec [OF assms(2) refl] this assms(4)]
  have rec: "\<exists>r w''. RecoverJournal env (w'\<lparr>cwFates := []\<rparr>) = (Ret r, w'') \<and> cwJournal w'' = None \<and> map_of (cwFiles w'') ?t = ?c"
    if "idle ?t ?c w' \<or> gateway_ready env (lmGatewayURL m) \<and> (\<exists>p tx. journaled env ActionEnable ?t p tx w' \<and> prior_content p = ?c)"
    using recover_after [of "w'\<lparr>cwFates := []\<rparr>" ?t ?c env ActionEnable ?c] that assms(1) by auto
  show ?thesis using run rec by (auto simp: idle_def split: io_result.splits)
qed

theorem enable_crash_safe_witness:
  "fst (EnableNpm calm_env sample_manager dying_world) = Died \<and>
   (\<exists>r w. RecoverJournal calm_env ((snd (EnableNpm calm_env sample_manager dying_world))\<lparr>cwFates := []\<rparr>) = (Ret r, w) \<and>
      cwJournal w = None \<and> map_of (cwFiles w) ''.npmrc'' = None)"
  using enable_crash_safe [of calm_env dying_world sample_manager Died "snd (EnableNpm calm_env sample_manager dying_world)",
      OF calm_env_laws(1,3)] dying_enable
  by (auto simp: prod_eq_iff dying_world_def sample_manager_def)

text \<open>
  C18. Disabling npm completes or can be completed. When the state remembers a prior
  configuration, then whatever fails and wherever the process dies, disabling returns with exactly
  the prior configuration in place and no transaction open; or the next recovery succeeds, and
  leaves the file untouched if it had nothing to undo and the prior configuration, byte for byte,
  if it had.
\<close>

theorem disable_crash_safe:
  assumes "\<And>tx. cnTxDec env (cnTxEnc env tx) = Some tx" "\<And>t fs. cnStaged env t fs \<noteq> []"
    and "cwJournal w = None" "loaded env w = Inr st" "stPriorConfig st = Some p" "DisableNpm env m w = (res, w')"
  shows "case res of
     Ret _ \<Rightarrow> cwJournal w' = None \<and> map_of (cwFiles w') (lmNpmrcPath m) = prior_content p
   | _ \<Rightarrow> \<exists>r w''. RecoverJournal env (w'\<lparr>cwFates := []\<rparr>) = (Ret r, w'') \<and> cwJournal w'' = None \<and>
       map_of (cwFiles w'') (lmNpmrcPath m) = (if r = None then map_of (cwFiles w) (lmNpmrcPath m) else prior_content p)"
proof -
  let ?t = "lmNpmrcPath m"
  let ?c = "map_of (cwFiles w) ?t"
  have "idle ?t ?c w \<and> loaded env w = Inr st" using assms(3,4) by (simp add: idle_def)
  note run = hoare_run [OF disable_spec [OF assms(2) refl assms(5)] this assms(6)]
  have rec: "\<exists>r w''. RecoverJournal env (w'\<lparr>cwFates := []\<rparr>) = (Ret r, w'') \<and> cwJournal w'' = None \<and>
      map_of (cwFiles w'') ?t = (if r = None then ?c else prior_content p)"
    if "idle ?t ?c w' \<or> (\<exists>p' tx. journaled env ActionDisable ?t p' tx w' \<and> prior_content p' = prior_content p)"
    using recover_after [of "w'\<lparr>cwFates := []\<rparr>" ?t ?c env ActionDisable "prior_content p"] that assms(1) by auto
  show ?thesis using run rec by (auto simp: idle_def split: io_result.splits)
qed

theorem disable_crash_safe_witness:
  "fst (DisableNpm calm_env sample_manager enabled_world) = Err (FaultIO ''remove'') \<and>
   (\<exists>r w. RecoverJournal calm_env ((snd (DisableNpm calm_env sample_manager enabled_world))\<lparr>cwFates := []\<rparr>) = (Ret r, w) \<and>
      cwJournal w = None \<and> map_of (cwFiles w) ''.npmrc'' = (if r = None then map_of (cwFiles enabled_world) ''.npmrc'' else None))"
proof -
  let ?p = "\<lparr>pcFileExisted = False, pcHasRegistry = False, pcRegistryValue = [], pcRawContent = []\<rparr>"
  let ?st = "emptyState\<lparr>stEnabled := True, stPriorConfig := Some ?p\<rparr>"
  have l: "cwJournal enabled_world = None" "loaded calm_env enabled_world = Inr ?st"
    by (simp_all add: loaded_def enabled_world_def calm_env_def unpack_state_pack)
  have p: "stPriorConfig ?st = Some ?p" "prior_content ?p = None" by (simp_all add: prior_content_def)
  have r: "DisableNpm calm_env sample_manager enabled_world = (Err (FaultIO ''remove''), snd (DisableNpm calm_env sample_manager enabled_world))"
    using failing_disable by (simp add: prod_eq_iff)
  have t: "lmNpmrcPath sample_manager = ''.npmrc''" by (simp add: sample_manager_def)
  show ?thesis
    using disable_crash_safe [OF calm_env_laws(1,3) l p(1) r] failing_disable unfolding p(2) t by simp
qed

text \<open>
  C15. Enabling and then disabling leaves no trace. On a machine where no call fails, with a ready
  gateway and an accepted configuration, both return, npm points at the gateway in between, and
  afterwards every file of the user is what it was, byte for byte, and a configuration that did not
  exist is gone again.
\<close>

theorem enable_then_disable_restores:
  assumes "\<And>t fs. cnStaged env t fs \<noteq> []" "\<And>t fs. map_of fs (cnStaged env t fs) = None" "\<And>st. cnStDec env (cnStEnc env st) = Some st"
    and "cwFates w = []" "cwJournal w = None" "gateway_ready env (lmGatewayURL m)"
    and "InspectNpmrc (cnHostname env) (lmNpmrcPath m) (map_of (cwFiles w) (lmNpmrcPath m)) = Inr info"
  shows "\<exists>w1 w2. EnableNpm env m w = (Ret (), w1) \<and>
     map_of (cwFiles w1) (lmNpmrcPath m) = Some (GenerateEnabledContent info (lmGatewayURL m)) \<and>
     DisableNpm env m w1 = (Ret (), w2) \<and> cwJournal w2 = None \<and> map_of (cwFiles w2) = map_of (cwFiles w)"
proof -
  obtain st w1 where 1: "EnableNpm env m w = (Ret (), w1)" "cwFates w1 = []" "cwJournal w1 = None"
      "map_of (cwFiles w1) = (map_of (cwFiles w))(lmNpmrcPath m \<mapsto> GenerateEnabledContent info (lmGatewayURL m))"
      "loaded env w1 = Inr st" "stPriorConfig st = Some (prior_of info)"
    using enable_quiet [OF assms(4-6) refl assms(7) assms(1-3)] by blast
  obtain w2 where 2: "DisableNpm env m w1 = (Ret (), w2)" "cwJournal w2 = None"
      "map_of (cwFiles w2) = (map_of (cwFiles w1))(lmNpmrcPath m := prior_content (prior_of info))"
    using disable_quiet [OF 1(2,3,5,6) refl assms(1,2)] by blast
  have "map_of (cwFiles w2) = map_of (cwFiles w)"
    using 1(4) 2(3) prior_of_inspected [OF assms(7)] by (simp add: fun_upd_idem)
  then show ?thesis using 1 2 by (intro exI [of _ w1] exI [of _ w2]) simp
qed

theorem enable_then_disable_restores_witness:
  "\<exists>w1 w2. EnableNpm calm_env sample_manager (dying_world\<lparr>cwFates := []\<rparr>) = (Ret (), w1) \<and>
     map_of (cwFiles w1) ''.npmrc'' = Some (''registry='' @ DefaultGatewayURL @ ''/'' @ [LF]) \<and>
     DisableNpm calm_env sample_manager w1 = (Ret (), w2) \<and> cwJournal w2 = None \<and> cwFiles w2 = []"
proof -
  let ?info = "\<lparr>niPath = ''.npmrc'', niExists = False, niRawContent = [], niLines = [], niHasRegistry = False,
     niRegistryValue = [], niRegistryLineIdx = - 1, niLineEnding = [LF]\<rparr>"
  have i: "InspectNpmrc (cnHostname calm_env) (lmNpmrcPath sample_manager) (map_of (cwFiles (dying_world\<lparr>cwFates := []\<rparr>)) (lmNpmrcPath sample_manager)) = Inr ?info"
    by (simp add: InspectNpmrc_def dying_world_def sample_manager_def)
  have g: "GenerateEnabledContent ?info (lmGatewayURL sample_manager) = ''registry='' @ DefaultGatewayURL @ ''/'' @ [LF]"
    by (simp add: GenerateEnabledContent_def sample_manager_def ensureTrailingSlash_def DefaultGatewayURL_def HasSuffix_def)
  show ?thesis
    using enable_then_disable_restores [OF calm_env_laws(3,4,2) _ _ calm_env_laws(5) i] unfolding g
    by (simp add: dying_world_def sample_manager_def)
qed

end
