(* ===== verification/Classify.thy ===== *)
theory Classify
  imports Prelude
begin

text \<open>
  Classification of npm registry requests: \<^verbatim>\<open>src/internal/gateway/classify.go\<close>, and the upstream
  URL built for a classified route (\<^verbatim>\<open>buildUpstreamURL\<close> of
  \<^verbatim>\<open>src/internal/gateway/transport.go\<close>). The lemmas relate the two: what is judged is what is
  fetched.
\<close>

datatype RequestKind = Metadata | Tarball | Health | Ready | Unsupported

record Route =
  routeKind :: RequestKind
  routePackage :: string
  routeVersion :: string

text \<open>\<^verbatim>\<open>url.PathUnescape\<close>: a percent sign without two hexadecimal digits is an error.\<close>

fun PathUnescape :: "string \<Rightarrow> string option" where
  "PathUnescape [] = Some []"
| "PathUnescape (c # s) =
     (if c = CHR ''%'' then
        (case s of
           a # b # r \<Rightarrow>
             (case (unhex a, unhex b) of
                (Some x, Some y) \<Rightarrow> map_option (Cons (char_of (16 * x + y))) (PathUnescape r)
              | _ \<Rightarrow> None)
         | _ \<Rightarrow> None)
      else map_option (Cons c) (PathUnescape s))"

definition unsupported_route :: Route where
  "unsupported_route = \<lparr>routeKind = Unsupported, routePackage = [], routeVersion = []\<rparr>"

definition packageAndRest :: "string list \<Rightarrow> (string \<times> string list) option" where
  "packageAndRest parts =
     (case parts of
        [] \<Rightarrow> None
      | p0 # rest \<Rightarrow>
          if p0 = [] then None
          else if HasPrefix p0 ''@'' then
            (if rest = [] \<and> Contains p0 ''/'' then Some (p0, [])
             else case rest of
               [] \<Rightarrow> None
             | p1 # rest' \<Rightarrow> if p1 = [] then None else Some (p0 @ ''/'' @ p1, rest'))
          else Some (p0, rest))"

definition versionFromTarball :: "string \<Rightarrow> string \<Rightarrow> string" where
  "versionFromTarball packageName filename =
     (let base = TrimSuffix filename ''.tgz'';
          name = (case LastIndexByte CHR ''/'' packageName of
                    Some slash \<Rightarrow> drop (slash + 1) packageName | None \<Rightarrow> packageName)
      in TrimPrefix base (name @ ''-''))"

definition Classify :: "string \<Rightarrow> string \<Rightarrow> Route" where
  "Classify meth escapedPath =
     (if meth \<noteq> ''GET'' \<and> meth \<noteq> ''HEAD'' then unsupported_route
      else case PathUnescape escapedPath of
        None \<Rightarrow> unsupported_route
      | Some decoded \<Rightarrow>
          let path = TrimByte CHR ''/'' decoded in
          if path = ''-/installgate/health'' then \<lparr>routeKind = Health, routePackage = [], routeVersion = []\<rparr>
          else if path = ''-/installgate/ready'' then \<lparr>routeKind = Ready, routePackage = [], routeVersion = []\<rparr>
          else if path = [] \<or> HasPrefix path ''-/'' then unsupported_route
          else case packageAndRest (Split CHR ''/'' path) of
            None \<Rightarrow> unsupported_route
          | Some (packageName, rest) \<Rightarrow>
              if rest = [] then \<lparr>routeKind = Metadata, routePackage = packageName, routeVersion = []\<rparr>
              else if length rest = 2 \<and> rest ! 0 = ''-'' \<and> HasSuffix (rest ! 1) ''.tgz''
              then \<lparr>routeKind = Tarball, routePackage = packageName,
                    routeVersion = versionFromTarball packageName (rest ! 1)\<rparr>
              else unsupported_route)"

section \<open>The upstream URL\<close>

text \<open>The parts of \<^verbatim>\<open>url.URL\<close> the transport changes.\<close>

record URL =
  urlScheme :: string
  urlHost :: string
  urlPath :: string
  urlRawPath :: string
  urlRawQuery :: string

datatype url_error = InvalidScopedPackage string | InvalidTarballPath | InvalidTarballFilename | UnsupportedKind

definition buildUpstreamURL :: "URL \<Rightarrow> Route \<Rightarrow> string \<Rightarrow> url_error + URL" where
  "buildUpstreamURL upstreamURL route rawPath =
     (let basePrefix = TrimSuffix (urlPath upstreamURL) ''/'' in
      case routeKind route of
        Metadata \<Rightarrow>
          if HasPrefix (routePackage route) ''@'' then
            (let parts = SplitN2 CHR ''/'' (routePackage route) in
             if length parts \<noteq> 2 \<or> parts ! 0 = [] \<or> parts ! 1 = []
             then Inl (InvalidScopedPackage (routePackage route))
             else Inr (upstreamURL\<lparr>urlPath := basePrefix @ ''/'' @ routePackage route,
                                    urlRawPath := basePrefix @ ''/'' @ parts ! 0 @ ''%2F'' @ parts ! 1\<rparr>))
          else Inr (upstreamURL\<lparr>urlPath := basePrefix @ ''/'' @ routePackage route, urlRawPath := []\<rparr>)
      | Tarball \<Rightarrow>
          (case PathUnescape rawPath of
             None \<Rightarrow> Inl InvalidTarballPath
           | Some decoded \<Rightarrow>
               (case LastIndexByte CHR ''/'' decoded of
                  None \<Rightarrow> Inl InvalidTarballPath
                | Some idx \<Rightarrow>
                    let filename = drop (idx + 1) decoded in
                    if \<not> HasSuffix filename ''.tgz'' then Inl InvalidTarballFilename
                    else Inr (upstreamURL\<lparr>urlPath := basePrefix @ ''/'' @ routePackage route @ ''/-/'' @ filename,
                                           urlRawPath := []\<rparr>)))
      | _ \<Rightarrow> Inl UnsupportedKind)"

section \<open>Package names and the paths clients ask for\<close>

definition plain_part :: "string \<Rightarrow> bool" where
  "plain_part s = (s \<noteq> [] \<and> CHR ''/'' \<notin> set s \<and> CHR ''%'' \<notin> set s)"

text \<open>Unscoped and scoped npm names, without the characters that have a meaning in a path.\<close>

definition npm_name :: "string \<Rightarrow> bool" where
  "npm_name n =
     (case Split CHR ''/'' n of
        [a] \<Rightarrow> plain_part a \<and> hd a \<noteq> CHR ''@'' \<and> a \<noteq> ''-''
      | [a, b] \<Rightarrow> plain_part a \<and> hd a = CHR ''@'' \<and> plain_part b
      | _ \<Rightarrow> False)"

definition base_name :: "string \<Rightarrow> string" where
  "base_name n = last (Split CHR ''/'' n)"

definition tarball_path :: "string \<Rightarrow> string \<Rightarrow> string" where
  "tarball_path pkg version = ''/'' @ pkg @ ''/-/'' @ base_name pkg @ ''-'' @ version @ ''.tgz''"

lemma PathUnescape_plain: "CHR ''%'' \<notin> set s \<Longrightarrow> PathUnescape s = Some s"
  by (induction s) auto

lemma PathUnescape_append: "CHR ''%'' \<notin> set s \<Longrightarrow> PathUnescape (s @ t) = map_option (append s) (PathUnescape t)"
  by (induction s; cases "PathUnescape t") auto

text \<open>A name is one part, or a scope and a part.\<close>

lemma npm_name_cases:
  assumes "npm_name n"
  obtains (plain) "plain_part n" "hd n \<noteq> CHR ''@''" "n \<noteq> ''-''" "Split CHR ''/'' n = [n]"
  | (scoped) a b where "n = a @ ''/'' @ b" "plain_part a" "hd a = CHR ''@''" "plain_part b"
      "Split CHR ''/'' n = [a, b]"
proof -
  have j: "Join ''/'' (Split CHR ''/'' n) = n" by (rule Join_Split)
  consider a where "Split CHR ''/'' n = [a]" "plain_part a" "hd a \<noteq> CHR ''@''" "a \<noteq> ''-''"
    | a b where "Split CHR ''/'' n = [a, b]" "plain_part a" "hd a = CHR ''@''" "plain_part b"
    using assms by (auto simp: npm_name_def split: list.splits)
  then show thesis
  proof cases
    case (1 a)
    then show ?thesis using j plain by simp
  next
    case (2 a b)
    then have "n = a @ ''/'' @ b" using j by simp
    then show ?thesis using 2 scoped by blast
  qed
qed

lemma HasPrefix_at: "s \<noteq> [] \<Longrightarrow> HasPrefix s ''@'' \<longleftrightarrow> hd s = CHR ''@''"
  by (cases s) auto

lemma packageAndRest_name:
  assumes "npm_name n"
  shows "packageAndRest (Split CHR ''/'' n @ rest) = Some (n, rest)"
  using assms
proof (cases rule: npm_name_cases)
  case plain
  then show ?thesis by (simp add: packageAndRest_def plain_part_def HasPrefix_at)
next
  case (scoped a b)
  then show ?thesis by (auto simp: packageAndRest_def plain_part_def HasPrefix_at)
qed

lemma npm_name_shape:
  assumes "npm_name n"
  shows "n \<noteq> []" "hd n \<noteq> CHR ''/''" "last n \<noteq> CHR ''/''" "CHR ''%'' \<notin> set n" "\<not> HasPrefix (n @ r) ''-/''"
proof -
  have "n \<noteq> [] \<and> hd n \<noteq> CHR ''/'' \<and> last n \<noteq> CHR ''/'' \<and> CHR ''%'' \<notin> set n \<and> \<not> HasPrefix (n @ r) ''-/''"
    using assms
  proof (cases rule: npm_name_cases)
    case plain
    obtain x xs where n: "n = x # xs" using plain(1) by (cases n) (auto simp: plain_part_def)
    have "last n \<in> set n" using n last_in_set [of n] by blast
    then have "last n \<noteq> CHR ''/''" using plain(1) unfolding plain_part_def by metis
    moreover have "\<not> HasPrefix (n @ r) ''-/''"
      using plain n by (cases xs) (auto simp: plain_part_def)
    ultimately show ?thesis using plain n by (auto simp: plain_part_def)
  next
    case (scoped a b)
    obtain x xs where a: "a = x # xs" using scoped(2) by (cases a) (auto simp: plain_part_def)
    have "last b \<in> set b" using scoped(4) last_in_set [of b] unfolding plain_part_def by blast
    then have "last b \<noteq> CHR ''/''" using scoped(4) unfolding plain_part_def by metis
    then show ?thesis using scoped a by (auto simp: plain_part_def)
  qed
  then show "n \<noteq> []" "hd n \<noteq> CHR ''/''" "last n \<noteq> CHR ''/''" "CHR ''%'' \<notin> set n" "\<not> HasPrefix (n @ r) ''-/''"
    by auto
qed

lemma not_internal: "\<not> HasPrefix s ''-/'' \<Longrightarrow> s \<noteq> ''-/installgate/health'' \<and> s \<noteq> ''-/installgate/ready''"
  by auto

lemma Classify_metadata_decoded:
  assumes "npm_name n" "PathUnescape raw = Some (CHR ''/'' # n)" "m = ''GET'' \<or> m = ''HEAD''"
  shows "Classify m raw = \<lparr>routeKind = Metadata, routePackage = n, routeVersion = []\<rparr>"
proof -
  have t: "TrimByte CHR ''/'' (CHR ''/'' # n) = n"
    using npm_name_shape [OF assms(1)] by (intro TrimByte_wrapped) auto
  have "\<not> HasPrefix n ''-/''" using npm_name_shape(5) [OF assms(1), of "[]"] by simp
  moreover have "packageAndRest (Split CHR ''/'' n) = Some (n, [])"
    using packageAndRest_name [OF assms(1), of "[]"] by simp
  ultimately show ?thesis
    using assms(2,3) t npm_name_shape(1) [OF assms(1)] not_internal by (auto simp: Classify_def Let_def)
qed

lemma LastIndexByte_name:
  assumes "npm_name n"
  shows "(case LastIndexByte CHR ''/'' n of Some slash \<Rightarrow> drop (slash + 1) n | None \<Rightarrow> n) = base_name n"
  using assms
proof (cases rule: npm_name_cases)
  case plain
  then have "LastIndexByte CHR ''/'' n = None" by (simp add: LastIndexByte_None_iff plain_part_def)
  then show ?thesis using plain by (simp add: base_name_def)
next
  case (scoped a b)
  then have "LastIndexByte CHR ''/'' n = Some (length a)"
    by (simp add: LastIndexByte_append plain_part_def)
  then show ?thesis using scoped by (simp add: base_name_def)
qed

lemma versionFromTarball_name:
  assumes "npm_name n"
  shows "versionFromTarball n (base_name n @ ''-'' @ v @ ''.tgz'') = v"
proof -
  have "TrimSuffix (base_name n @ ''-'' @ v @ ''.tgz'') ''.tgz'' = (base_name n @ ''-'') @ v"
    using TrimSuffix_append [of "base_name n @ ''-'' @ v" "''.tgz''"] by simp
  then show ?thesis
    using TrimPrefix_append [of "base_name n @ ''-''" v] LastIndexByte_name [OF assms]
    by (simp add: versionFromTarball_def Let_def)
qed

lemma base_name_no_slash: "CHR ''/'' \<notin> set (base_name n)"
  using Split_parts_no_sep [of "base_name n" "CHR ''/''" n] by (simp add: base_name_def)

lemma base_name_no_percent: "npm_name n \<Longrightarrow> CHR ''%'' \<notin> set (base_name n)"
  by (erule npm_name_cases) (auto simp: base_name_def plain_part_def)

lemma Split_tarball_path:
  assumes "npm_name n" "CHR ''/'' \<notin> set v"
  shows "Split CHR ''/'' (n @ ''/-/'' @ base_name n @ ''-'' @ v @ ''.tgz'')
       = Split CHR ''/'' n @ [''-'', base_name n @ ''-'' @ v @ ''.tgz'']"
proof -
  have f: "CHR ''/'' \<notin> set (base_name n @ ''-'' @ v @ ''.tgz'')" using assms(2) base_name_no_slash by simp
  have "Split CHR ''/'' (n @ ''/-/'' @ base_name n @ ''-'' @ v @ ''.tgz'')
      = Split CHR ''/'' n @ Split CHR ''/'' (''-'' @ CHR ''/'' # (base_name n @ ''-'' @ v @ ''.tgz''))"
    using Split_append [of "CHR ''/''" n "''-'' @ CHR ''/'' # (base_name n @ ''-'' @ v @ ''.tgz'')"] by simp
  then show ?thesis using Split_append_sep [of "CHR ''/''" "''-''"] Split_no_sep [OF f] by simp
qed

lemma last_Split_append: "CHR ''/'' \<notin> set q \<Longrightarrow> last (Split CHR ''/'' (p @ CHR ''/'' # q)) = q"
  by (simp add: Split_append Split_no_sep)

text \<open>A tarball route is read off the last part of the decoded path.\<close>

lemma Classify_TarballD:
  assumes "routeKind (Classify m raw) = Tarball"
  obtains decoded f where "PathUnescape raw = Some decoded" "m = ''GET'' \<or> m = ''HEAD''"
    "last (Split CHR ''/'' (TrimByte CHR ''/'' decoded)) = f" "length (Split CHR ''/'' (TrimByte CHR ''/'' decoded)) \<ge> 2"
    "routeVersion (Classify m raw) = versionFromTarball (routePackage (Classify m raw)) f" "HasSuffix f ''.tgz''"
proof -
  obtain decoded where d: "PathUnescape raw = Some decoded" "m = ''GET'' \<or> m = ''HEAD''"
    using assms by (auto simp: Classify_def unsupported_route_def split: if_splits option.splits)
  define parts where "parts = Split CHR ''/'' (TrimByte CHR ''/'' decoded)"
  obtain pkg rest where pr: "packageAndRest parts = Some (pkg, rest)" "length rest = 2"
      "Classify m raw = \<lparr>routeKind = Tarball, routePackage = pkg, routeVersion = versionFromTarball pkg (rest ! 1)\<rparr>"
      "HasSuffix (rest ! 1) ''.tgz''"
    using assms d
    by (auto simp: Classify_def unsupported_route_def Let_def parts_def split: if_splits option.splits prod.splits)
  have "\<exists>pre. parts = pre @ rest"
    using pr(1) by (auto simp: packageAndRest_def split: list.splits if_splits)
  then obtain pre where "parts = pre @ rest" by blast
  moreover obtain x y where "rest = [x, y]" using pr(2) by (metis length_0_conv length_Suc_conv numeral_2_eq_2)
  ultimately show thesis using that d pr unfolding parts_def by simp
qed

section \<open>Properties\<close>

text \<open>
  Only reads are served: a request that is routed to a package, or to any other supported
  endpoint, has the method GET or HEAD.
\<close>

lemma Classify_only_reads:
  "routeKind (Classify m raw) = Unsupported \<or> m = ''GET'' \<or> m = ''HEAD''"
  by (simp add: Classify_def unsupported_route_def)

text \<open>
  The metadata path of a package, with the slash of a scope written plainly or percent-encoded,
  is routed to that package's metadata.
\<close>

lemma Classify_metadata_paths:
  assumes "npm_name n" "m = ''GET'' \<or> m = ''HEAD''"
  shows "Classify m (''/'' @ n) = \<lparr>routeKind = Metadata, routePackage = n, routeVersion = []\<rparr> \<and>
         (n = a @ ''/'' @ b \<longrightarrow>
            Classify m (''/'' @ a @ ''%2f'' @ b) = \<lparr>routeKind = Metadata, routePackage = n, routeVersion = []\<rparr>)"
proof -
  have p: "CHR ''%'' \<notin> set n" by (rule npm_name_shape(4) [OF assms(1)])
  then have "PathUnescape (''/'' @ n) = Some (CHR ''/'' # n)" by (simp add: PathUnescape_plain)
  then have "Classify m (''/'' @ n) = \<lparr>routeKind = Metadata, routePackage = n, routeVersion = []\<rparr>"
    using Classify_metadata_decoded [OF assms(1) _ assms(2)] by simp
  moreover have "Classify m (''/'' @ a @ ''%2f'' @ b) = \<lparr>routeKind = Metadata, routePackage = n, routeVersion = []\<rparr>"
    if "n = a @ ''/'' @ b"
  proof -
    have "CHR ''%'' \<notin> set a" "CHR ''%'' \<notin> set b" using p that by auto
    moreover have "unhex CHR ''2'' = Some 2" "unhex CHR ''f'' = Some 15" by (simp_all add: unhex_def)
    moreover have "char_of (47 :: nat) = CHR ''/''" by code_simp
    ultimately have "PathUnescape (''/'' @ a @ ''%2f'' @ b) = Some (CHR ''/'' # n)"
      using that by (simp add: PathUnescape_append PathUnescape_plain)
    then show ?thesis using Classify_metadata_decoded [OF assms(1) _ assms(2)] by simp
  qed
  ultimately show ?thesis by blast
qed

text \<open>
  The conventional tarball path of a package version is routed to exactly that package and
  version, for scoped and unscoped names and for every version string without a slash or a percent
  sign.
\<close>

lemma Classify_tarball_path:
  assumes "npm_name n" "CHR ''/'' \<notin> set v" "CHR ''%'' \<notin> set v" "m = ''GET'' \<or> m = ''HEAD''"
  shows "Classify m (tarball_path n v) = \<lparr>routeKind = Tarball, routePackage = n, routeVersion = v\<rparr>"
proof -
  define p where "p = n @ ''/-/'' @ base_name n @ ''-'' @ v @ ''.tgz''"
  have path: "tarball_path n v = CHR ''/'' # p" by (simp add: tarball_path_def p_def)
  have "CHR ''%'' \<notin> set p"
    using npm_name_shape(4) [OF assms(1)] base_name_no_percent [OF assms(1)] assms(3) by (simp add: p_def)
  then have u: "PathUnescape (tarball_path n v) = Some (CHR ''/'' # p)"
    unfolding path by (subst PathUnescape_plain) simp_all
  have t: "TrimByte CHR ''/'' (CHR ''/'' # p) = p"
    using npm_name_shape [OF assms(1)] by (intro TrimByte_wrapped) (simp_all add: p_def)
  have "\<not> HasPrefix p ''-/''" unfolding p_def by (rule npm_name_shape(5) [OF assms(1)])
  moreover have "packageAndRest (Split CHR ''/'' p) = Some (n, [''-'', base_name n @ ''-'' @ v @ ''.tgz''])"
    unfolding p_def Split_tarball_path [OF assms(1,2)] by (rule packageAndRest_name [OF assms(1)])
  moreover have "HasSuffix (base_name n @ ''-'' @ v @ ''.tgz'') ''.tgz''"
    using HasSuffix_append [of "base_name n @ ''-'' @ v"] by simp
  ultimately show ?thesis
    using u t assms(4) not_internal [of p] versionFromTarball_name [OF assms(1), of v]
    by (auto simp: Classify_def Let_def p_def)
qed

text \<open>
  What is judged is what is fetched: when a tarball request is forwarded, the upstream path
  names the classified package and a file whose version part is the classified version.
\<close>

lemma tarball_fetched_is_judged:
  assumes "routeKind (Classify m raw) = Tarball"
    and "buildUpstreamURL upstream (Classify m raw) raw = Inr u"
  shows "\<exists>f. urlPath u = TrimSuffix (urlPath upstream) ''/'' @ ''/'' @ routePackage (Classify m raw) @ ''/-/'' @ f \<and>
             CHR ''/'' \<notin> set f \<and> HasSuffix f ''.tgz'' \<and>
             routeVersion (Classify m raw) = versionFromTarball (routePackage (Classify m raw)) f"
proof -
  let ?c = "CHR ''/''"
  obtain decoded f where d: "PathUnescape raw = Some decoded"
      "last (Split ?c (TrimByte ?c decoded)) = f" "length (Split ?c (TrimByte ?c decoded)) \<ge> 2"
      "routeVersion (Classify m raw) = versionFromTarball (routePackage (Classify m raw)) f"
    using Classify_TarballD [OF assms(1)] by metis
  obtain idx where idx: "LastIndexByte ?c decoded = Some idx" "HasSuffix (drop (idx + 1) decoded) ''.tgz''"
      "urlPath u = TrimSuffix (urlPath upstream) ''/'' @ ''/'' @ routePackage (Classify m raw) @ ''/-/'' @ drop (idx + 1) decoded"
    using assms d(1) by (auto simp: buildUpstreamURL_def Let_def split: option.splits if_splits)
  have "?c \<in> set (TrimByte ?c decoded)"
    using d(3) Split_no_sep [of ?c "TrimByte ?c decoded"] by (cases "?c \<in> set (TrimByte ?c decoded)") auto
  then obtain p q where pq: "TrimByte ?c decoded = p @ ?c # q" "?c \<notin> set q" by (meson split_list_last)
  obtain pre post where tr: "decoded = pre @ TrimByte ?c decoded @ post" "set post \<subseteq> {?c}"
    using TrimByte_parts by metis
  have post: "post = []"
  proof (rule ccontr)
    assume "post \<noteq> []"
    then obtain ps x where ps: "post = ps @ [x]" by (cases post rule: rev_cases) auto
    then have "x = ?c" using tr(2) by auto
    then have e: "decoded = (pre @ TrimByte ?c decoded @ ps) @ [?c]" using tr(1) ps by simp
    then have "idx = length (pre @ TrimByte ?c decoded @ ps)"
      using idx(1) LastIndexByte_append [of ?c "[]" "pre @ TrimByte ?c decoded @ ps"] by simp
    then have "length decoded = idx + 1" using arg_cong [OF e, of length] by simp
    then have "drop (idx + 1) decoded = []" by simp
    then show False using idx(2) by (simp add: HasSuffix_def)
  qed
  then have dec: "decoded = (pre @ p) @ ?c # q" using tr(1) pq(1) by simp
  then have "drop (idx + 1) decoded = q"
    using idx(1) LastIndexByte_append [OF pq(2), of "pre @ p"] by simp
  moreover have "f = q" using d(2) pq last_Split_append by metis
  ultimately show ?thesis using d(4) idx(2,3) pq(2) by blast
qed

end
