(* ===== verification/Digest.thy ===== *)
theory Digest
  imports Prelude
begin

text \<open>
  Digests of package archives: \<^verbatim>\<open>src/internal/quarantine/digest.go\<close>, with the hexadecimal and
  base64 codecs of the standard library that it uses. Bytes are characters. The hash functions are
  the parameter \<open>hash\<close>, from the lower-case algorithm name and the data to the raw digest.
  A reader is the bytes it delivers and whether it then fails.
\<close>

section \<open>Hexadecimal\<close>

fun hex_encode :: "string \<Rightarrow> string" where
  "hex_encode [] = []"
| "hex_encode (c # s) = hex_digit (of_char c div 16) # hex_digit (of_char c mod 16) # hex_encode s"

text \<open>\<^verbatim>\<open>hex.DecodeString\<close>; \<^term>\<open>None\<close> is an error.\<close>

fun hex_decode :: "string \<Rightarrow> string option" where
  "hex_decode [] = Some []"
| "hex_decode [a] = None"
| "hex_decode (a # b # s) =
     (case (unhex a, unhex b) of
        (Some x, Some y) \<Rightarrow> map_option (Cons (char_of (16 * x + y))) (hex_decode s)
      | _ \<Rightarrow> None)"

section \<open>Base64\<close>

definition b64_std :: string where
  "b64_std = ''ABCDEFGHIJKLMNOPQRSTUVWXYZabcdefghijklmnopqrstuvwxyz0123456789+/''"

definition b64_url :: string where
  "b64_url = ''ABCDEFGHIJKLMNOPQRSTUVWXYZabcdefghijklmnopqrstuvwxyz0123456789-_''"

fun b64_encode :: "string \<Rightarrow> string" where
  "b64_encode [] = []"
| "b64_encode [a] =
     [b64_std ! (of_char a div 4), b64_std ! (of_char a mod 4 * 16), CHR ''='', CHR ''='']"
| "b64_encode [a, b] =
     [b64_std ! (of_char a div 4), b64_std ! (of_char a mod 4 * 16 + of_char b div 16),
      b64_std ! (of_char b mod 16 * 4), CHR ''='']"
| "b64_encode (a # b # c # s) =
     b64_std ! (of_char a div 4) # b64_std ! (of_char a mod 4 * 16 + of_char b div 16)
       # b64_std ! (of_char b mod 16 * 4 + of_char c div 64) # b64_std ! (of_char c mod 64) # b64_encode s"

text \<open>
  One quantum of four characters at a time, as \<^verbatim>\<open>Encoding.DecodeString\<close> reads them once the line
  breaks it ignores are removed: only a padded encoding may end in \<^verbatim>\<open>=\<close> or \<^verbatim>\<open>==\<close>, only an
  unpadded one in two or three characters. Left-over bits are ignored.
\<close>

fun b64_quanta :: "bool \<Rightarrow> string \<Rightarrow> string \<Rightarrow> string option" where
  "b64_quanta padded alpha [] = Some []"
| "b64_quanta padded alpha [a] = None"
| "b64_quanta padded alpha [a, b] =
     (if padded then None
      else case (IndexByte a alpha, IndexByte b alpha) of
        (Some w, Some x) \<Rightarrow> Some [char_of (w * 4 + x div 16)]
      | _ \<Rightarrow> None)"
| "b64_quanta padded alpha [a, b, c] =
     (if padded then None
      else case (IndexByte a alpha, IndexByte b alpha, IndexByte c alpha) of
        (Some w, Some x, Some y) \<Rightarrow> Some [char_of (w * 4 + x div 16), char_of (x mod 16 * 16 + y div 4)]
      | _ \<Rightarrow> None)"
| "b64_quanta padded alpha (a # b # c # d # s) =
     (case (IndexByte a alpha, IndexByte b alpha, IndexByte c alpha, IndexByte d alpha) of
        (Some w, Some x, Some y, Some z) \<Rightarrow>
          map_option (\<lambda>r. char_of (w * 4 + x div 16) # char_of (x mod 16 * 16 + y div 4)
                          # char_of (y mod 4 * 64 + z) # r) (b64_quanta padded alpha s)
      | (Some w, Some x, Some y, None) \<Rightarrow>
          if padded \<and> d = CHR ''='' \<and> s = []
          then Some [char_of (w * 4 + x div 16), char_of (x mod 16 * 16 + y div 4)] else None
      | (Some w, Some x, None, None) \<Rightarrow>
          if padded \<and> c = CHR ''='' \<and> d = CHR ''='' \<and> s = [] then Some [char_of (w * 4 + x div 16)] else None
      | _ \<Rightarrow> None)"

definition b64_decode :: "bool \<Rightarrow> string \<Rightarrow> string \<Rightarrow> string option" where
  "b64_decode padded alpha s =
     b64_quanta padded alpha (filter (\<lambda>c. c \<noteq> CHR 0x0A \<and> c \<noteq> CHR 0x0D) s)"

section \<open>Digests\<close>

datatype digest_error =
  ErrInvalidDigestFormat | ErrInvalidDigestEncoding | ErrDigestLength nat string | ErrInvalidHexEncoding |
  ErrUnrecognizedHexLength nat | ErrUnsupportedAlgorithm string | ErrReadFailed

record ParsedDigest =
  Algorithm :: string
  Hex :: string
  SRI :: string
  Bytes :: string

definition Key :: "ParsedDigest \<Rightarrow> string" where
  "Key d = Algorithm d @ ''-'' @ Hex d"

definition expectedDigestByteLen :: "string \<Rightarrow> digest_error + nat" where
  "expectedDigestByteLen algo =
     (if algo = ''sha512'' then Inr 64
      else if algo = ''sha384'' then Inr 48
      else if algo = ''sha256'' then Inr 32
      else if algo = ''sha1'' then Inr 20
      else Inl (ErrUnsupportedAlgorithm algo))"

definition mkDigest :: "string \<Rightarrow> string \<Rightarrow> string \<Rightarrow> ParsedDigest" where
  "mkDigest algo hexStr raw =
     \<lparr>Algorithm = algo, Hex = hexStr, SRI = algo @ ''-'' @ b64_encode raw, Bytes = raw\<rparr>"

text \<open>The base64 form after the algorithm, padded standard or unpadded URL alphabet.\<close>

definition parse_base64 :: "string \<Rightarrow> nat \<Rightarrow> string \<Rightarrow> digest_error + ParsedDigest" where
  "parse_base64 algo expectedLen encoded =
     (case (case b64_decode True b64_std encoded of
              Some rawBytes \<Rightarrow> Some rawBytes | None \<Rightarrow> b64_decode False b64_url encoded) of
        None \<Rightarrow> Inl ErrInvalidDigestEncoding
      | Some rawBytes \<Rightarrow>
          if length rawBytes \<noteq> expectedLen then Inl (ErrDigestLength (length rawBytes) algo)
          else Inr (mkDigest algo (hex_encode rawBytes) rawBytes))"

text \<open>The prefixed form \<^verbatim>\<open><algorithm>-<base64_or_hex>\<close>.\<close>

definition parse_prefixed :: "string \<Rightarrow> string \<Rightarrow> digest_error + ParsedDigest" where
  "parse_prefixed algo encoded =
     (case expectedDigestByteLen algo of
        Inl err \<Rightarrow> Inl err
      | Inr expectedLen \<Rightarrow>
          (case hex_decode encoded of
             Some hexBytes \<Rightarrow>
               if length hexBytes = expectedLen then Inr (mkDigest algo (ToLower encoded) hexBytes)
               else parse_base64 algo expectedLen encoded
           | None \<Rightarrow> parse_base64 algo expectedLen encoded))"

definition hex_algorithm :: "nat \<Rightarrow> string option" where
  "hex_algorithm n =
     (if n = 20 then Some ''sha1'' else if n = 32 then Some ''sha256''
      else if n = 48 then Some ''sha384'' else if n = 64 then Some ''sha512'' else None)"

definition parse_hex :: "string \<Rightarrow> digest_error + ParsedDigest" where
  "parse_hex trimmed =
     (case hex_decode trimmed of
        None \<Rightarrow> Inl ErrInvalidHexEncoding
      | Some hexBytes \<Rightarrow>
          (case hex_algorithm (length hexBytes) of
             None \<Rightarrow> Inl (ErrUnrecognizedHexLength (length hexBytes))
           | Some algo \<Rightarrow> Inr (mkDigest algo (ToLower trimmed) hexBytes)))"

definition ParseDigest :: "string \<Rightarrow> digest_error + ParsedDigest" where
  "ParseDigest raw =
     (let trimmed = TrimSpace raw in
      if trimmed = [] then Inl ErrInvalidDigestFormat
      else case IndexByte CHR ''-'' trimmed of
        Some dashIdx \<Rightarrow>
          if dashIdx > 0 then parse_prefixed (ToLower (take dashIdx trimmed)) (drop (dashIdx + 1) trimmed)
          else parse_hex trimmed
      | None \<Rightarrow> parse_hex trimmed)"

record Reader =
  rdBytes :: string
  rdFails :: bool

definition HasherFor :: "(string \<Rightarrow> string \<Rightarrow> string) \<Rightarrow> string \<Rightarrow> digest_error + (string \<Rightarrow> string)" where
  "HasherFor hash algo =
     (if ToLower algo \<in> {''sha512'', ''sha384'', ''sha256'', ''sha1''} then Inr (hash (ToLower algo))
      else Inl (ErrUnsupportedAlgorithm algo))"

definition ComputeDigest ::
  "(string \<Rightarrow> string \<Rightarrow> string) \<Rightarrow> string \<Rightarrow> Reader \<Rightarrow> digest_error + ParsedDigest" where
  "ComputeDigest hash algo r =
     (case HasherFor hash algo of
        Inl err \<Rightarrow> Inl err
      | Inr hasher \<Rightarrow>
          if rdFails r then Inl ErrReadFailed
          else let digestBytes = hasher (rdBytes r) in
               Inr (mkDigest (ToLower algo) (hex_encode digestBytes) digestBytes))"

definition VerifyDigest ::
  "(string \<Rightarrow> string \<Rightarrow> string) \<Rightarrow> string \<Rightarrow> Reader \<Rightarrow> digest_error + (bool \<times> ParsedDigest)" where
  "VerifyDigest hash expected r =
     (case ParseDigest expected of
        Inl err \<Rightarrow> Inl err
      | Inr parsedExpected \<Rightarrow>
          (case ComputeDigest hash (Algorithm parsedExpected) r of
             Inl err \<Rightarrow> Inl err
           | Inr computed \<Rightarrow> Inr (Bytes parsedExpected = Bytes computed, computed)))"

section \<open>The codecs\<close>

lemma hex_digit_unhex: "n < 16 \<Longrightarrow> unhex (hex_digit n) = Some n"
  by (auto simp: unhex_def hex_digit_def Let_def)

lemma unhex_lt: "unhex c = Some x \<Longrightarrow> x < 16"
  by (auto simp: unhex_def Let_def split: if_splits)

lemma byte_lt: "of_char (c :: char) < (256 :: nat)"
  by simp

lemma byte_div_mod: "of_char c div 16 < (16 :: nat)" "of_char c mod 16 < (16 :: nat)"
proof -
  have "n < 256 \<Longrightarrow> n div 16 < 16" for n :: nat by simp
  from this [OF byte_lt] show "of_char c div 16 < (16 :: nat)" .
qed simp

lemma hex_decode_encode [simp]: "hex_decode (hex_encode bs) = Some bs"
proof (induction bs)
  case (Cons c bs)
  have "16 * (of_char c div 16) + of_char c mod 16 = (of_char c :: nat)" by simp
  then show ?case using Cons by (simp add: hex_digit_unhex byte_div_mod)
qed simp

lemma length_hex_encode [simp]: "length (hex_encode bs) = 2 * length bs"
  by (induction bs) auto

lemma hex_decode_length: "hex_decode s = Some bs \<Longrightarrow> length s = 2 * length bs"
  by (induction s arbitrary: bs rule: hex_decode.induct) (auto split: option.splits)

text \<open>Lowering the digits of a hexadecimal string gives the canonical encoding of its bytes.\<close>

definition is_hex_char :: "char \<Rightarrow> bool" where
  "is_hex_char c = (unhex c \<noteq> None)"

lemma unhex_lower: "unhex c = Some x \<Longrightarrow> lower_byte c = hex_digit x \<and> byte c < 128"
  by (auto simp: unhex_def lower_byte_def hex_digit_def Let_def split: if_splits)

lemma hex_decode_lower: "hex_decode s = Some bs \<Longrightarrow> is_ascii s \<and> map lower_byte s = hex_encode bs"
proof (induction s arbitrary: bs rule: hex_decode.induct)
  case (3 a b s)
  then obtain x y r where xy: "unhex a = Some x" "unhex b = Some y" "hex_decode s = Some r"
      "bs = char_of (16 * x + y) # r"
    by (auto split: option.splits)
  have lt: "x < 16" "y < 16" using xy unhex_lt by auto
  then have "of_char (char_of (16 * x + y) :: char) = 16 * x + y" by simp
  then show ?case using 3(1) [OF _ xy(1,2)] xy lt unhex_lower by auto
qed auto

lemma ToLower_hex: "hex_decode s = Some bs \<Longrightarrow> ToLower s = hex_encode bs"
  using hex_decode_lower by (simp add: ToLower_def)

lemma IndexByte_nth: "distinct s \<Longrightarrow> n < length s \<Longrightarrow> IndexByte (s ! n) s = Some n"
proof (induction s arbitrary: n)
  case (Cons c s)
  then show ?case by (cases n) auto
qed simp

lemma b64_index: "n < 64 \<Longrightarrow> IndexByte (b64_std ! n) b64_std = Some n"
  by (rule IndexByte_nth) (simp_all add: b64_std_def)

lemma b64_pad_index: "IndexByte CHR ''='' b64_std = None"
  by code_simp

lemma b64_digit_bounds:
  fixes a b :: char
  shows "of_char a div 4 < (64 :: nat)" "of_char a mod 4 * 16 < (64 :: nat)"
    "of_char a mod 4 * 16 + of_char b div 16 < (64 :: nat)" "of_char b mod 16 * 4 < (64 :: nat)"
    "of_char a mod 16 * 4 + of_char b div 64 < (64 :: nat)" "of_char a mod 64 < (64 :: nat)"
proof -
  have n: "n < 256 \<Longrightarrow> n div 4 < 64" "n < 256 \<Longrightarrow> n div 16 < 16" "n < 256 \<Longrightarrow> n div 64 < 4" for n :: nat by simp_all
  have "of_char b div 16 < (16 :: nat)" "of_char b div 64 < (4 :: nat)"
    "of_char a mod 4 < (4 :: nat)" "of_char a mod 16 < (16 :: nat)" "of_char b mod 16 < (16 :: nat)"
    using n(2,3) [OF byte_lt] by simp_all
  then show "of_char a mod 4 * 16 < (64 :: nat)"
    "of_char a mod 4 * 16 + of_char b div 16 < (64 :: nat)" "of_char b mod 16 * 4 < (64 :: nat)"
    "of_char a mod 16 * 4 + of_char b div 64 < (64 :: nat)"
    by linarith+
  show "of_char a div 4 < (64 :: nat)" using n(1) [OF byte_lt] .
qed simp

lemma b64_regroup:
  fixes a b c :: nat
  assumes "a < 256" "b < 256" "c < 256"
  shows "a div 4 * 4 + (a mod 4 * 16 + b div 16) div 16 = a" "a div 4 * 4 + (a mod 4 * 16) div 16 = a"
    "(a mod 4 * 16 + b div 16) mod 16 * 16 + (b mod 16 * 4 + c div 64) div 4 = b"
    "(a mod 4 * 16 + b div 16) mod 16 * 16 + (b mod 16 * 4) div 4 = b"
    "(b mod 16 * 4 + c div 64) mod 4 * 64 + c mod 64 = c"
proof -
  have d: "b div 16 < 16" "c div 64 < 4" using assms by auto
  then show "a div 4 * 4 + (a mod 4 * 16 + b div 16) div 16 = a" "a div 4 * 4 + (a mod 4 * 16) div 16 = a"
    "(a mod 4 * 16 + b div 16) mod 16 * 16 + (b mod 16 * 4 + c div 64) div 4 = b"
    "(a mod 4 * 16 + b div 16) mod 16 * 16 + (b mod 16 * 4) div 4 = b"
    "(b mod 16 * 4 + c div 64) mod 4 * 64 + c mod 64 = c"
    by simp_all
qed

lemma b64_quanta_encode: "b64_quanta True b64_std (b64_encode bs) = Some bs"
proof (induction bs rule: b64_encode.induct)
  case (4 a b c s)
  have "of_char a < (256 :: nat)" "of_char b < (256 :: nat)" "of_char c < (256 :: nat)" by simp_all
  from b64_regroup [OF this] show ?case
    using 4 by (simp add: b64_index b64_digit_bounds)
next
  case (3 a b)
  have "of_char a < (256 :: nat)" "of_char b < (256 :: nat)" "(0 :: nat) < 256" by simp_all
  from b64_regroup [OF this] show ?case
    by (simp add: b64_index b64_digit_bounds b64_pad_index)
next
  case (2 a)
  have "of_char a < (256 :: nat)" "(0 :: nat) < 256" by simp_all
  from b64_regroup(2) [OF this(1) this(2) this(2)] show ?case
    by (simp add: b64_index b64_digit_bounds b64_pad_index)
qed simp

lemma length_b64_encode: "length (b64_encode bs) = 4 * ((length bs + 2) div 3)"
proof (induction bs rule: b64_encode.induct)
  case (4 a b c s)
  have "(length s + 5) div 3 = (length s + 2) div 3 + 1" by linarith
  then show ?case using 4 by (simp add: add.commute)
qed simp_all

lemma b64_encode_chars: "set (b64_encode bs) \<subseteq> set b64_std \<union> {CHR ''=''}"
proof -
  have n: "n < 64 \<Longrightarrow> b64_std ! n \<in> set b64_std" for n by (rule nth_mem) (simp add: b64_std_def)
  show ?thesis
    by (induction bs rule: b64_encode.induct) (simp_all add: n b64_digit_bounds)
qed

lemma b64_std_chars: "c \<in> set b64_std \<union> {CHR ''=''} \<Longrightarrow>
  byte c < 128 \<and> \<not> ascii_space c \<and> c \<noteq> CHR 0x0A \<and> c \<noteq> CHR 0x0D"
  by (auto simp: b64_std_def ascii_space_def)

lemma b64_decode_encode [simp]: "b64_decode True b64_std (b64_encode bs) = Some bs"
proof -
  have "filter (\<lambda>c. c \<noteq> CHR 0x0A \<and> c \<noteq> CHR 0x0D) (b64_encode bs) = b64_encode bs"
    using b64_encode_chars b64_std_chars by (intro filter_True) blast
  then show ?thesis by (simp add: b64_decode_def b64_quanta_encode)
qed

section \<open>Well-formed digests\<close>

text \<open>A digest whose four fields agree.\<close>

definition wf_digest :: "ParsedDigest \<Rightarrow> bool" where
  "wf_digest d = (expectedDigestByteLen (Algorithm d) = Inr (length (Bytes d)) \<and>
     Hex d = hex_encode (Bytes d) \<and> SRI d = Algorithm d @ ''-'' @ b64_encode (Bytes d))"

lemma wf_digestE:
  assumes "wf_digest d"
  obtains "Algorithm d = ''sha512'' \<and> length (Bytes d) = 64 \<or> Algorithm d = ''sha384'' \<and> length (Bytes d) = 48 \<or>
    Algorithm d = ''sha256'' \<and> length (Bytes d) = 32 \<or> Algorithm d = ''sha1'' \<and> length (Bytes d) = 20"
  using assms by (auto simp: wf_digest_def expectedDigestByteLen_def split: if_splits)

lemma wf_digest_algorithm:
  "wf_digest d \<Longrightarrow> Algorithm d \<in> {''sha512'', ''sha384'', ''sha256'', ''sha1''}"
  by (erule wf_digestE) auto

lemma wf_mkDigest:
  "expectedDigestByteLen algo = Inr (length bs) \<Longrightarrow> wf_digest (mkDigest algo (hex_encode bs) bs)"
  by (simp add: wf_digest_def mkDigest_def)

lemma wf_digest_mk: "wf_digest d \<Longrightarrow> mkDigest (Algorithm d) (hex_encode (Bytes d)) (Bytes d) = d"
  by (simp add: wf_digest_def mkDigest_def)

lemma parse_base64_wf:
  "expectedDigestByteLen algo = Inr n \<Longrightarrow> parse_base64 algo n e = Inr d \<Longrightarrow> wf_digest d"
  by (auto simp: parse_base64_def wf_mkDigest split: option.splits if_splits)

lemma parse_prefixed_wf: "parse_prefixed algo e = Inr d \<Longrightarrow> wf_digest d"
  by (auto simp: parse_prefixed_def ToLower_hex wf_mkDigest intro: parse_base64_wf
      split: option.splits if_splits sum.splits)

lemma parse_hex_wf: "parse_hex s = Inr d \<Longrightarrow> wf_digest d"
  by (auto simp: parse_hex_def hex_algorithm_def ToLower_hex wf_mkDigest expectedDigestByteLen_def
      split: option.splits if_splits)

lemma ParseDigest_wf: "ParseDigest raw = Inr d \<Longrightarrow> wf_digest d"
  by (auto simp: ParseDigest_def Let_def intro: parse_prefixed_wf parse_hex_wf
      split: option.splits if_splits)

text \<open>Parsing a string that is an algorithm, a dash and an encoding without white space.\<close>

lemma ParseDigest_prefixed:
  assumes "algo \<in> {''sha512'', ''sha384'', ''sha256'', ''sha1''}" "e \<noteq> []"
    and "\<forall>c \<in> set e. byte c < 128 \<and> \<not> ascii_space c"
  shows "ParseDigest (algo @ ''-'' @ e) = parse_prefixed algo e"
proof -
  have a: "ToLower algo = algo" "CHR ''-'' \<notin> set algo" "algo \<noteq> []" "hd algo = CHR ''s''"
    using assms(1) by (auto simp: ToLower_def lower_byte_def)
  have "last e \<in> set e" using assms(2) by simp
  then have l: "byte (last e) < 128" "\<not> ascii_space (last e)" using assms(3) by auto
  have "TrimSpace (algo @ ''-'' @ e) = algo @ ''-'' @ e"
    by (rule TrimSpace_id) (use a l assms(2) in \<open>auto simp: ascii_space_def\<close>)
  then show ?thesis using a by (simp add: ParseDigest_def Let_def IndexByte_append)
qed

lemma hex_encode_chars: "c \<in> set (hex_encode bs) \<Longrightarrow> \<exists>n < 16. c = hex_digit n"
  by (induction bs) (auto intro: byte_div_mod)

lemma hex_digit_plain: "n < 16 \<Longrightarrow> byte (hex_digit n) < 128 \<and> \<not> ascii_space (hex_digit n)"
  by (simp add: hex_digit_def ascii_space_def)

lemma wf_digest_nonempty: "wf_digest d \<Longrightarrow> Bytes d \<noteq> []"
  by (erule wf_digestE) auto

lemma ParseDigest_Key: 
  assumes "wf_digest d" shows "ParseDigest (Key d) = Inr d"
proof -
  have h: "Hex d = hex_encode (Bytes d)" and n: "expectedDigestByteLen (Algorithm d) = Inr (length (Bytes d))"
    using assms by (simp_all add: wf_digest_def)
  have "hex_encode (Bytes d) \<noteq> []" using wf_digest_nonempty [OF assms] by (cases "Bytes d") auto
  moreover have "\<forall>c \<in> set (hex_encode (Bytes d)). byte c < 128 \<and> \<not> ascii_space c"
    using hex_encode_chars hex_digit_plain by blast
  ultimately have "ParseDigest (Key d) = parse_prefixed (Algorithm d) (hex_encode (Bytes d))"
    unfolding Key_def h by (rule ParseDigest_prefixed [OF wf_digest_algorithm [OF assms]])
  then show ?thesis using n wf_digest_mk [OF assms] by (simp add: parse_prefixed_def ToLower_hex [OF hex_decode_encode])
qed

lemma ParseDigest_SRI:
  assumes "wf_digest d" shows "ParseDigest (SRI d) = Inr d"
proof -
  let ?e = "b64_encode (Bytes d)"
  have s: "SRI d = Algorithm d @ ''-'' @ ?e" and n: "expectedDigestByteLen (Algorithm d) = Inr (length (Bytes d))"
    using assms by (simp_all add: wf_digest_def)
  have "length (Bytes d) \<ge> 1" using wf_digest_nonempty [OF assms] by (cases "Bytes d") auto
  then have "(length (Bytes d) + 2) div 3 \<ge> 1" by linarith
  then have "length ?e > 0" by (simp add: length_b64_encode)
  then have "?e \<noteq> []" by auto
  moreover have "\<forall>c \<in> set ?e. byte c < 128 \<and> \<not> ascii_space c"
    using b64_encode_chars b64_std_chars by blast
  ultimately have p: "ParseDigest (SRI d) = parse_prefixed (Algorithm d) ?e"
    unfolding s by (rule ParseDigest_prefixed [OF wf_digest_algorithm [OF assms]])
  have "length hb \<noteq> length (Bytes d)" if "hex_decode ?e = Some hb" for hb
    using hex_decode_length [OF that] assms by (auto simp: length_b64_encode elim!: wf_digestE)
  then have "parse_prefixed (Algorithm d) ?e = parse_base64 (Algorithm d) (length (Bytes d)) ?e"
    using n by (auto simp: parse_prefixed_def split: option.splits)
  then show ?thesis using p wf_digest_mk [OF assms] by (simp add: parse_base64_def)
qed

lemma Key_inj:
  assumes "wf_digest d" "wf_digest d'" "Key d = Key d'" shows "d = d'"
proof -
  have "Inr d = (Inr d' :: digest_error + ParsedDigest)"
    using ParseDigest_Key [OF assms(1)] ParseDigest_Key [OF assms(2)] unfolding assms(3) by (rule trans [OF sym])
  then show ?thesis by simp
qed

lemma HasherFor_wf:
  assumes "wf_digest d" shows "HasherFor hash (Algorithm d) = Inr (hash (Algorithm d))"
proof -
  have "ToLower (Algorithm d) = Algorithm d"
    using wf_digest_algorithm [OF assms] by (auto simp: ToLower_def lower_byte_def)
  then show ?thesis using wf_digest_algorithm [OF assms] by (simp add: HasherFor_def)
qed

section \<open>Properties\<close>

text \<open>
  Every accepted digest string denotes one canonical digest: its length fits its algorithm, its
  hexadecimal, base64 and raw forms agree, and parsing its content key or its canonical SRI string
  gives the same digest again.
\<close>

lemma ParseDigest_canonical:
  assumes "ParseDigest raw = Inr d"
  shows "wf_digest d \<and> ParseDigest (Key d) = Inr d \<and> ParseDigest (SRI d) = Inr d"
  using ParseDigest_wf [OF assms] ParseDigest_Key ParseDigest_SRI by blast

definition sample_digest :: ParsedDigest where
  "sample_digest = mkDigest ''sha1'' (hex_encode (replicate 20 CHR ''x'')) (replicate 20 CHR ''x'')"

lemma sample_digest_wf: "wf_digest sample_digest"
  unfolding sample_digest_def by (rule wf_mkDigest) (simp add: expectedDigestByteLen_def)

text \<open>
  Content keys identify content digests and are safe file names: two digests with the same key
  are equal, and a key has neither a path separator nor a dot.
\<close>

lemma Key_identifies_digest:
  assumes "ParseDigest raw = Inr d" "ParseDigest raw' = Inr d'"
  shows "(Key d = Key d' \<longleftrightarrow> d = d') \<and> CHR ''/'' \<notin> set (Key d) \<and> CHR ''.'' \<notin> set (Key d) \<and> Key d \<noteq> []"
proof -
  have w: "wf_digest d" "wf_digest d'" using assms ParseDigest_wf by auto
  have "hex_digit n \<noteq> CHR ''/'' \<and> hex_digit n \<noteq> CHR ''.''" if "n < 16" for n
    using that hex_digit_unhex [OF that] by (auto simp: unhex_def)
  then have "CHR ''/'' \<notin> set (Hex d)" "CHR ''.'' \<notin> set (Hex d)"
    using w(1) hex_encode_chars unfolding wf_digest_def by metis+
  moreover have "CHR ''/'' \<notin> set (Algorithm d)" "CHR ''.'' \<notin> set (Algorithm d)"
    using wf_digest_algorithm [OF w(1)] by auto
  ultimately show ?thesis using Key_inj [OF w] by (auto simp: Key_def)
qed

end
