(* ===== verification/Http.thy ===== *)
theory Http
  imports Classify Decision_Store Digest
begin

text \<open>
  The upstream transport of \<^verbatim>\<open>src/internal/gateway/transport.go\<close>: header filtering, round trips
  and error responses. A header is an association list from canonical names to value lists, as in
  a request parsed by \<^verbatim>\<open>net/http\<close>. The network is the parameter \<open>rt\<close>, which answers an
  upstream request with a response or an error; the deadline of the request context shows as an
  error of \<open>rt\<close>. Requests that are sent are kept in a log so that what reaches the upstream can
  be stated.
\<close>

section \<open>Headers\<close>

type_synonym header = "(string \<times> string list) list"

definition header_get :: "string \<Rightarrow> header \<Rightarrow> string" where
  "header_get k hs = (case map_of hs k of Some (v # _) \<Rightarrow> v | _ \<Rightarrow> [])"

definition header_add :: "string \<Rightarrow> string \<Rightarrow> header \<Rightarrow> header" where
  "header_add k v hs = AList.update k ((case map_of hs k of None \<Rightarrow> [] | Some vs \<Rightarrow> vs) @ [v]) hs"

definition header_set :: "string \<Rightarrow> string \<Rightarrow> header \<Rightarrow> header" where
  "header_set k v hs = AList.update k [v] hs"

definition header_names :: "header \<Rightarrow> string set" where
  "header_names hs = fst ` set hs"

definition hopByHopHeaders :: "string list" where
  "hopByHopHeaders = [''connection'', ''proxy-connection'', ''keep-alive'', ''proxy-authenticate'', ''proxy-authorization'',
     ''te'', ''trailer'', ''transfer-encoding'', ''upgrade'']"

definition isHopByHop :: "string \<Rightarrow> bool" where
  "isHopByHop h = List.member hopByHopHeaders (ToLower h)"

definition isConnectionHeader :: "string \<Rightarrow> string list \<Rightarrow> bool" where
  "isConnectionHeader h connectionTokens =
     (let lower = ToLower h in
      List.member hopByHopHeaders lower \<or> list_ex (\<lambda>token. ToLower token = lower) connectionTokens)"

definition credential_header :: "string \<Rightarrow> bool" where
  "credential_header k = (EqualFold k ''Authorization'' \<or> EqualFold k ''Proxy-Authorization'' \<or> EqualFold k ''Cookie'')"

text \<open>The loop over the source map; \<open>skip\<close> is the condition of its \<^verbatim>\<open>continue\<close> statements.\<close>

fun copy_headers :: "(string \<Rightarrow> bool) \<Rightarrow> header \<Rightarrow> header \<Rightarrow> header" where
  "copy_headers skip [] dst = dst"
| "copy_headers skip ((k, vv) # src) dst = copy_headers skip src (if skip k then dst else fold (header_add k) vv dst)"

definition copyClientHeaders :: "header \<Rightarrow> header \<Rightarrow> header" where
  "copyClientHeaders src dst = copy_headers (\<lambda>k. isHopByHop k \<or> credential_header k) src dst"

definition connection_tokens :: "header \<Rightarrow> string list" where
  "connection_tokens src =
     (let conn = header_get ''Connection'' src in if conn = [] then [] else map TrimSpace (Split CHR '','' conn))"

definition copyResponseHeaders :: "header \<Rightarrow> header \<Rightarrow> header" where
  "copyResponseHeaders src dst =
     copy_headers (\<lambda>k. isConnectionHeader k (connection_tokens src) \<or> EqualFold k ''Set-Cookie'') src dst"

section \<open>Requests and responses\<close>

record Request =
  rqMethod :: string
  rqPath :: string
  rqQuery :: string
  rqHeader :: header

record upstream_request =
  urMethod :: string
  urURL :: URL
  urHeader :: header

record upstream_response =
  upStatus :: int
  upHeader :: header
  upContentLength :: int
  upBody :: Reader

record client_response =
  crStatus :: int
  crHeader :: header
  crBody :: string
  crAborted :: bool

datatype transport_error = ErrTimeout | ErrConnectionFailed | ErrClientCancelled | ErrBodyLimit | ErrUnsupportedRoute
  | ErrUpstreamURL url_error

text \<open>How a failed exchange looks to \<^verbatim>\<open>sanitizeRoundTripError\<close>: the error or the context says that
  the deadline passed, else that the client cancelled, else neither.\<close>

datatype network_error = NetDeadline | NetCanceled | NetOther

fun sanitizeRoundTripError :: "network_error \<Rightarrow> transport_error" where
  "sanitizeRoundTripError NetDeadline = ErrTimeout"
| "sanitizeRoundTripError NetCanceled = ErrClientCancelled"
| "sanitizeRoundTripError NetOther = ErrConnectionFailed"

type_synonym network = "upstream_request \<Rightarrow> network_error + upstream_response"

definition DefaultMaxBodyBytes :: int where "DefaultMaxBodyBytes = 104857600"
definition DefaultTimeout :: duration where "DefaultTimeout = 30 * Second"
definition DefaultUpstreamURL :: string where "DefaultUpstreamURL = ''https://registry.npmjs.org''"

record UpstreamTransport =
  utURL :: URL
  utTimeout :: duration
  utMaxBodyBytes :: int

datatype config_error = ErrParseURL | ErrURLScheme string | ErrURLHost

text \<open>\<open>parse\<close> is \<^verbatim>\<open>url.Parse\<close>.\<close>

definition NewUpstreamTransport :: "(string \<Rightarrow> URL option) \<Rightarrow> string \<Rightarrow> duration \<Rightarrow> int \<Rightarrow> config_error + UpstreamTransport" where
  "NewUpstreamTransport parse baseURL timeout maxBodyBytes =
     (case parse (if baseURL = [] then DefaultUpstreamURL else baseURL) of
        None \<Rightarrow> Inl ErrParseURL
      | Some parsed \<Rightarrow>
          if urlScheme parsed \<noteq> ''http'' \<and> urlScheme parsed \<noteq> ''https'' then Inl (ErrURLScheme (urlScheme parsed))
          else if urlHost parsed = [] then Inl ErrURLHost
          else Inr \<lparr>utURL = parsed, utTimeout = (if timeout \<le> 0 then DefaultTimeout else timeout),
                    utMaxBodyBytes = (if maxBodyBytes \<le> 0 then DefaultMaxBodyBytes else maxBodyBytes)\<rparr>)"

text \<open>The result of a round trip, with the log of the requests sent.\<close>

definition RoundTrip ::
  "network \<Rightarrow> UpstreamTransport \<Rightarrow> Route \<Rightarrow> Request \<Rightarrow> upstream_request list \<Rightarrow>
   (transport_error + upstream_response) \<times> upstream_request list" where
  "RoundTrip rt t route req log =
     (if routeKind route \<noteq> Metadata \<and> routeKind route \<noteq> Tarball then (Inl ErrUnsupportedRoute, log)
      else case buildUpstreamURL (utURL t) route (rqPath req) of
        Inl e \<Rightarrow> (Inl (ErrUpstreamURL e), log)
      | Inr target \<Rightarrow>
          let targetURL = (if rqQuery req \<noteq> [] then target\<lparr>urlRawQuery := rqQuery req\<rparr> else target);
              up = \<lparr>urMethod = rqMethod req, urURL = targetURL, urHeader = copyClientHeaders (rqHeader req) []\<rparr>
          in (case rt up of
                Inl e \<Rightarrow> (Inl (sanitizeRoundTripError e), log @ [up])
              | Inr resp \<Rightarrow>
                  if utMaxBodyBytes t > 0 \<and> upContentLength resp > utMaxBodyBytes t
                  then (Inl ErrBodyLimit, log @ [up])
                  else (Inr resp, log @ [up])))"

section \<open>Error responses\<close>

definition http_error :: "string \<Rightarrow> int \<Rightarrow> client_response" where
  "http_error msg code =
     \<lparr>crStatus = code, crHeader = [(''Content-Type'', [''text/plain; charset=utf-8'']), (''X-Content-Type-Options'', [''nosniff''])],
      crBody = msg @ nl, crAborted = False\<rparr>"

fun handleRoundTripError :: "transport_error \<Rightarrow> client_response" where
  "handleRoundTripError ErrTimeout = http_error ''gateway timeout: upstream request timed out'' 504"
| "handleRoundTripError ErrBodyLimit = http_error ''bad gateway: response body exceeds size limit'' 502"
| "handleRoundTripError ErrClientCancelled = http_error ''bad gateway: client request cancelled'' 502"
| "handleRoundTripError _ = http_error ''bad gateway: upstream connection failed'' 502"

definition WriteBlockedResponse :: "DecisionDocument \<Rightarrow> client_response" where
  "WriteBlockedResponse doc =
     (let errMsg = ''InstallGate: installation '' @ docVerdict doc @ '' for '' @ docPackage doc @ ''@'' @ docVersion doc @
            '' (decision: '' @ docDecisionID doc @ ''). Run '' @ [CHR 0x27] @ ''installgate explain '' @ docDecisionID doc @ [CHR 0x27] @
            '' to view reasons and next steps.''
      in \<lparr>crStatus = 403,
          crHeader = [(''Content-Type'', [''application/json; charset=utf-8'']), (''X-Installgate-Decision'', [docDecisionID doc]),
                      (''X-Installgate-Verdict'', [docVerdict doc])],
          crBody = json_object [(''decision_id'', json_string (docDecisionID doc)), (''error'', json_string errMsg),
                      (''verdict'', json_string (docVerdict doc))] @ nl,
          crAborted = False\<rparr>)"

section \<open>What the filters let through\<close>

lemma header_names_add: "header_names (header_add k v hs) = insert k (header_names hs)"
  by (simp add: header_names_def header_add_def dom_update)

lemma header_names_fold: "header_names (fold (header_add k) vv hs) \<subseteq> insert k (header_names hs)"
proof (induction vv arbitrary: hs)
  case (Cons v vv)
  then show ?case using Cons.IH [of "header_add k v hs"] by (simp add: header_names_add)
qed auto

lemma copy_headers_names: "h \<in> header_names (copy_headers skip src dst) \<Longrightarrow> h \<in> header_names dst \<or> (h \<in> header_names src \<and> \<not> skip h)"
proof (induction skip src dst rule: copy_headers.induct)
  case (2 skip k vv src dst)
  then show ?case using header_names_fold [of k vv dst] by (auto simp: header_names_def split: if_splits)
qed simp

lemma copyClientHeaders_names:
  "h \<in> header_names (copyClientHeaders src []) \<Longrightarrow> \<not> isHopByHop h \<and> \<not> credential_header h"
  using copy_headers_names [of h _ src "[]"] by (auto simp: copyClientHeaders_def header_names_def)

lemma buildUpstreamURL_host:
  "buildUpstreamURL up route raw = Inr u \<Longrightarrow> urlHost u = urlHost up \<and> urlScheme u = urlScheme up"
  by (auto simp: buildUpstreamURL_def Let_def split: RequestKind.splits if_splits option.splits)

text \<open>A request that reads from the configured upstream and carries no hop-by-hop header and no
  credentials.\<close>

definition clean_request :: "UpstreamTransport \<Rightarrow> upstream_request \<Rightarrow> bool" where
  "clean_request t up =
     ((urMethod up = ''GET'' \<or> urMethod up = ''HEAD'') \<and> urlHost (urURL up) = urlHost (utURL t) \<and>
      urlScheme (urURL up) = urlScheme (utURL t) \<and>
      list_all (\<lambda>(h, vs). \<not> isHopByHop h \<and> \<not> credential_header h) (urHeader up))"

definition sent_request :: "Request \<Rightarrow> URL \<Rightarrow> upstream_request" where
  "sent_request req u = \<lparr>urMethod = rqMethod req, urURL = (if rqQuery req \<noteq> [] then u\<lparr>urlRawQuery := rqQuery req\<rparr> else u),
     urHeader = copyClientHeaders (rqHeader req) []\<rparr>"

lemma RoundTrip_sends:
  assumes "RoundTrip rt t route req log = (r, log')"
  shows "log' = log \<or> (\<exists>u. buildUpstreamURL (utURL t) route (rqPath req) = Inr u \<and> log' = log @ [sent_request req u])"
  using assms unfolding RoundTrip_def Let_def sent_request_def [symmetric]
  by (auto split: if_splits sum.splits)

lemma sent_request_clean:
  assumes "buildUpstreamURL (utURL t) route (rqPath req) = Inr u" "rqMethod req = ''GET'' \<or> rqMethod req = ''HEAD''"
  shows "clean_request t (sent_request req u)"
proof -
  have "list_all (\<lambda>(h, vs). \<not> isHopByHop h \<and> \<not> credential_header h) (copyClientHeaders (rqHeader req) [])"
    unfolding list_all_iff using copyClientHeaders_names [of _ "rqHeader req"] by (force simp: header_names_def)
  then show ?thesis using buildUpstreamURL_host [OF assms(1)] assms(2) by (simp add: clean_request_def sent_request_def)
qed

lemma RoundTrip_log:
  assumes "RoundTrip rt t route req log = (r, log')" "rqMethod req = ''GET'' \<or> rqMethod req = ''HEAD''"
  shows "log' = log \<or> (\<exists>up. log' = log @ [up] \<and> clean_request t up)"
  using RoundTrip_sends [OF assms(1)] sent_request_clean [OF _ assms(2)] by blast

end
