(* ===== verification/Blobstore.thy ===== *)
theory Blobstore
  imports Digest
begin

text \<open>
  The quarantine's blob metadata and disk store: \<^verbatim>\<open>src/internal/quarantine/metadata.go\<close> and
  \<^verbatim>\<open>src/internal/quarantine/blobstore.go\<close>. The blobs directory is an association list from keys
  to file contents and the staging directory a list of file contents. Whether an operating-system
  call succeeds is the parameter \<open>io\<close>; a \<^verbatim>\<open>Reader\<close> may also fail. Each section of code
  that runs under the store's lock is one definition, so that \<open>blob_step\<close> below can interleave
  them as concurrent requests do.
\<close>

section \<open>Blob metadata\<close>

datatype BlobStatus = StatusQuarantined | StatusInspected | StatusVerified | StatusReleased | StatusBlocked

record BlobMetadata =
  bmDigest :: string
  bmPackage :: string
  bmVersion :: string
  bmSize :: int
  bmStatus :: BlobStatus
  bmCreatedAt :: gotime
  bmLastAccessedAt :: gotime

text \<open>
  The map of records is keyed by the record's own digest: every write stores a record under its
  \<^verbatim>\<open>Digest\<close> field. So the map is the list of its records, at most one per digest.
\<close>

type_synonym MemoryMetadataStore = "BlobMetadata list"

datatype meta_error = ErrEmptyDigest | ErrMetadataNotFound string

definition record_of :: "MemoryMetadataStore \<Rightarrow> string \<Rightarrow> BlobMetadata option" where
  "record_of ms digest = find (\<lambda>m. bmDigest m = digest) ms"

definition store_record :: "BlobMetadata \<Rightarrow> MemoryMetadataStore \<Rightarrow> MemoryMetadataStore" where
  "store_record m ms = m # filter (\<lambda>x. bmDigest x \<noteq> bmDigest m) ms"

definition Metadata_Put :: "gotime \<Rightarrow> BlobMetadata \<Rightarrow> MemoryMetadataStore \<Rightarrow> meta_error option \<times> MemoryMetadataStore" where
  "Metadata_Put now meta ms =
     (if bmDigest meta = [] then (Some ErrEmptyDigest, ms)
      else let m1 = (if bmCreatedAt meta = 0 then meta\<lparr>bmCreatedAt := now\<rparr> else meta);
               m2 = (if bmLastAccessedAt m1 = 0 then m1\<lparr>bmLastAccessedAt := bmCreatedAt m1\<rparr> else m1)
           in (None, store_record m2 ms))"

definition Metadata_Get :: "string \<Rightarrow> MemoryMetadataStore \<Rightarrow> meta_error + BlobMetadata" where
  "Metadata_Get digest ms =
     (case record_of ms digest of None \<Rightarrow> Inl (ErrMetadataNotFound digest) | Some m \<Rightarrow> Inr m)"

definition Metadata_Touch :: "string \<Rightarrow> gotime \<Rightarrow> MemoryMetadataStore \<Rightarrow> meta_error option \<times> MemoryMetadataStore" where
  "Metadata_Touch digest t ms =
     (case record_of ms digest of
        None \<Rightarrow> (Some (ErrMetadataNotFound digest), ms)
      | Some m \<Rightarrow> (None, store_record (m\<lparr>bmLastAccessedAt := t\<rparr>) ms))"

definition Metadata_UpdateStatus ::
  "string \<Rightarrow> BlobStatus \<Rightarrow> MemoryMetadataStore \<Rightarrow> meta_error option \<times> MemoryMetadataStore" where
  "Metadata_UpdateStatus digest status ms =
     (case record_of ms digest of
        None \<Rightarrow> (Some (ErrMetadataNotFound digest), ms)
      | Some m \<Rightarrow> (None, store_record (m\<lparr>bmStatus := status\<rparr>) ms))"

definition Metadata_Delete :: "string \<Rightarrow> MemoryMetadataStore \<Rightarrow> MemoryMetadataStore" where
  "Metadata_Delete digest ms = filter (\<lambda>x. bmDigest x \<noteq> digest) ms"

definition Metadata_List :: "MemoryMetadataStore \<Rightarrow> BlobMetadata list" where
  "Metadata_List ms = SortSlice (\<lambda>a b. bmLastAccessedAt a < bmLastAccessedAt b) ms"

section \<open>The disk store\<close>

datatype io_step =
  IoMkdirBlobs | IoMkdirStaging | IoCreateTemp | IoContext | IoSync | IoClose | IoChmod | IoRename | IoRemove | IoOpen

datatype blob_error =
  ErrBlobNotFound | ErrBlobExceedsBudget int int | ErrBudgetExceeded | ErrBlobPinned | ErrBlobKeyEmpty |
  ErrHasher digest_error | ErrInterrupted | ErrIntegrityMismatch | ErrIo io_step |
  ErrBudgetRequired | ErrRootRequired | ErrMetadataStore meta_error

record DiskBlobStore =
  bsBlobs :: "(string \<times> string) list"
  bsStaging :: "string list"
  bsMaxBytes :: int
  bsMeta :: MemoryMetadataStore
  bsPins :: "(string \<times> int) list"
  bsCurrentBytes :: int

definition DiskBudget_Validate :: "int \<Rightarrow> bool" where
  "DiskBudget_Validate maxBytes = (\<not> maxBytes \<le> 0)"

definition blob_bytes :: "(string \<times> string) list \<Rightarrow> int" where
  "blob_bytes bs = sum_list (map (int \<circ> length \<circ> snd) bs)"

text \<open>Start-up on the files a previous process left behind, with its metadata store.\<close>

definition NewDiskBlobStore ::
  "(io_step \<Rightarrow> bool) \<Rightarrow> string \<Rightarrow> int \<Rightarrow> MemoryMetadataStore \<Rightarrow> (string \<times> string) list \<Rightarrow> string list \<Rightarrow>
   blob_error + DiskBlobStore" where
  "NewDiskBlobStore io rootDir budget metadata blobFiles stagingFiles =
     (if \<not> DiskBudget_Validate budget then Inl ErrBudgetRequired
      else if rootDir = [] then Inl ErrRootRequired
      else if \<not> io IoMkdirBlobs then Inl (ErrIo IoMkdirBlobs)
      else if \<not> io IoMkdirStaging then Inl (ErrIo IoMkdirStaging)
      else Inr \<lparr>bsBlobs = blobFiles, bsStaging = [], bsMaxBytes = budget, bsMeta = metadata, bsPins = [],
                bsCurrentBytes = blob_bytes blobFiles\<rparr>)"

definition pin_count :: "DiskBlobStore \<Rightarrow> string \<Rightarrow> int" where
  "pin_count s key = (case map_of (bsPins s) key of None \<Rightarrow> 0 | Some n \<Rightarrow> n)"

definition TotalBytes :: "DiskBlobStore \<Rightarrow> int" where
  "TotalBytes s = bsCurrentBytes s"

definition Has :: "DiskBlobStore \<Rightarrow> string \<Rightarrow> bool" where
  "Has s key = (map_of (bsBlobs s) key \<noteq> None)"

definition IsPinned :: "DiskBlobStore \<Rightarrow> string \<Rightarrow> bool" where
  "IsPinned s key = (pin_count s key > 0)"

text \<open>The blob opened and its size.\<close>

definition Get :: "(io_step \<Rightarrow> bool) \<Rightarrow> DiskBlobStore \<Rightarrow> string \<Rightarrow> blob_error + (string \<times> int)" where
  "Get io s key =
     (case map_of (bsBlobs s) key of
        None \<Rightarrow> Inl ErrBlobNotFound
      | Some data \<Rightarrow> if io IoOpen then Inr (data, int (length data)) else Inl (ErrIo IoOpen))"

text \<open>A pin is released by one call of the function \<^verbatim>\<open>Pin\<close> returns, here \<open>Unpin\<close>.\<close>

definition Pin :: "DiskBlobStore \<Rightarrow> string \<Rightarrow> blob_error + DiskBlobStore" where
  "Pin s key =
     (if \<not> Has s key then Inl ErrBlobNotFound
      else Inr (s\<lparr>bsPins := AList.update key (pin_count s key + 1) (bsPins s)\<rparr>))"

definition Unpin :: "DiskBlobStore \<Rightarrow> string \<Rightarrow> DiskBlobStore" where
  "Unpin s key =
     (let n = pin_count s key - 1 in
      s\<lparr>bsPins := (if n \<le> 0 then AList.delete key (bsPins s) else AList.update key n (bsPins s))\<rparr>)"

text \<open>The oldest record that is not pinned loses its file and its metadata.\<close>

definition evict_candidate :: "DiskBlobStore \<Rightarrow> BlobMetadata option" where
  "evict_candidate s = find (\<lambda>c. \<not> pin_count s (bmDigest c) > 0) (Metadata_List (bsMeta s))"

definition evictOneCandidateLocked :: "(io_step \<Rightarrow> bool) \<Rightarrow> DiskBlobStore \<Rightarrow> (int \<times> DiskBlobStore) option" where
  "evictOneCandidateLocked io s =
     (case evict_candidate s of
        None \<Rightarrow> None
      | Some candidate \<Rightarrow>
          let key = bmDigest candidate;
              s' = s\<lparr>bsBlobs := (if io IoRemove then AList.delete key (bsBlobs s) else bsBlobs s),
                     bsMeta := Metadata_Delete key (bsMeta s)\<rparr>
          in Some ((case map_of (bsBlobs s) key of
                      Some data \<Rightarrow> int (length data) | None \<Rightarrow> bmSize candidate), s'))"

lemma evict_candidate_in: "evict_candidate s = Some c \<Longrightarrow> c \<in> set (bsMeta s) \<and> \<not> pin_count s (bmDigest c) > 0"
  by (metis (mono_tags, lifting) Metadata_List_def evict_candidate_def find_Some_iff nth_mem set_SortSlice)

lemma evict_shrinks:
  assumes "evictOneCandidateLocked io s = Some (n, s')"
  shows "length (bsMeta s') < length (bsMeta s)"
proof -
  obtain c where c: "evict_candidate s = Some c" "bsMeta s' = filter (\<lambda>x. bmDigest x \<noteq> bmDigest c) (bsMeta s)"
    using assms by (auto simp: evictOneCandidateLocked_def Metadata_Delete_def Let_def split: option.splits)
  have "c \<in> set (bsMeta s)" using evict_candidate_in [OF c(1)] by blast
  then show ?thesis unfolding c(2) by (intro length_filter_less) auto
qed

text \<open>
  The eviction loop. It stops because every round removes a record; the second component tells
  whether there is room.
\<close>

function evict_loop :: "(io_step \<Rightarrow> bool) \<Rightarrow> int \<Rightarrow> DiskBlobStore \<Rightarrow> DiskBlobStore \<times> bool" where
  "evict_loop io written s =
     (if bsCurrentBytes s + written > bsMaxBytes s then
        (case evictOneCandidateLocked io s of
           None \<Rightarrow> (s, False)
         | Some (evictedBytes, s') \<Rightarrow> evict_loop io written (s'\<lparr>bsCurrentBytes := bsCurrentBytes s' - evictedBytes\<rparr>))
      else (s, True))"
  by pat_completeness auto
termination
  by (relation "measure (\<lambda>(io, written, s). length (bsMeta s))") (auto dest: evict_shrinks)

declare evict_loop.simps [simp del]

text \<open>The commit, under the lock: a second look for the key, eviction, then the rename.\<close>

definition put_commit ::
  "(io_step \<Rightarrow> bool) \<Rightarrow> string \<Rightarrow> string \<Rightarrow> DiskBlobStore \<Rightarrow> (blob_error + int) \<times> DiskBlobStore" where
  "put_commit io key data s =
     (case map_of (bsBlobs s) key of
        Some present \<Rightarrow> (Inr (int (length present)), s)
      | None \<Rightarrow>
          let written = int (length data); (s1, room) = evict_loop io written s in
          if \<not> room then (Inl ErrBudgetExceeded, s1)
          else if \<not> io IoChmod then (Inl (ErrIo IoChmod), s1)
          else if \<not> io IoRename then (Inl (ErrIo IoRename), s1)
          else (Inr written, s1\<lparr>bsBlobs := AList.update key data (bsBlobs s1),
                                bsCurrentBytes := bsCurrentBytes s1 + written\<rparr>))"

text \<open>
  Writing the staging file, outside the lock: the bytes to commit, or an error. The staging file is
  removed on every path that does not commit.
\<close>

definition put_stage ::
  "(string \<Rightarrow> string \<Rightarrow> string) \<Rightarrow> (io_step \<Rightarrow> bool) \<Rightarrow> Reader \<Rightarrow> ParsedDigest option \<Rightarrow> int \<Rightarrow> blob_error + string" where
  "put_stage hash io src expected maxBytes =
     (if \<not> io IoCreateTemp then Inl (ErrIo IoCreateTemp)
      else case (case expected of None \<Rightarrow> Inr None | Some d \<Rightarrow> map_sum id Some (HasherFor hash (Algorithm d))) of
        Inl err \<Rightarrow> Inl (ErrHasher err)
      | Inr hasher \<Rightarrow>
          if rdFails src then Inl ErrInterrupted
          else if \<not> io IoContext then Inl (ErrIo IoContext)
          else if (case (expected, hasher) of (Some d, Some h) \<Rightarrow> h (rdBytes src) \<noteq> Bytes d | _ \<Rightarrow> False)
          then Inl ErrIntegrityMismatch
          else if \<not> io IoSync then Inl (ErrIo IoSync)
          else if \<not> io IoClose then Inl (ErrIo IoClose)
          else if int (length (rdBytes src)) > maxBytes
          then Inl (ErrBlobExceedsBudget (int (length (rdBytes src))) maxBytes)
          else Inr (rdBytes src))"

definition putInternal ::
  "(string \<Rightarrow> string \<Rightarrow> string) \<Rightarrow> (io_step \<Rightarrow> bool) \<Rightarrow> string \<Rightarrow> Reader \<Rightarrow> ParsedDigest option \<Rightarrow> DiskBlobStore \<Rightarrow>
   (blob_error + int) \<times> DiskBlobStore" where
  "putInternal hash io key src expected s =
     (if key = [] then (Inl ErrBlobKeyEmpty, s)
      else case map_of (bsBlobs s) key of
        Some present \<Rightarrow> (Inr (int (length present)), s)
      | None \<Rightarrow>
          (case put_stage hash io src expected (bsMaxBytes s) of
             Inl err \<Rightarrow> (Inl err, s)
           | Inr data \<Rightarrow> put_commit io key data s))"

definition Put :: "(string \<Rightarrow> string \<Rightarrow> string) \<Rightarrow> (io_step \<Rightarrow> bool) \<Rightarrow> string \<Rightarrow> Reader \<Rightarrow> DiskBlobStore \<Rightarrow>
   (blob_error + int) \<times> DiskBlobStore" where
  "Put hash io key src s = putInternal hash io key src None s"

definition PutVerified :: "(string \<Rightarrow> string \<Rightarrow> string) \<Rightarrow> (io_step \<Rightarrow> bool) \<Rightarrow> string \<Rightarrow> Reader \<Rightarrow> ParsedDigest \<Rightarrow>
   DiskBlobStore \<Rightarrow> (blob_error + int) \<times> DiskBlobStore" where
  "PutVerified hash io key src expected s = putInternal hash io key src (Some expected) s"

definition Delete :: "(io_step \<Rightarrow> bool) \<Rightarrow> DiskBlobStore \<Rightarrow> string \<Rightarrow> blob_error option \<times> DiskBlobStore" where
  "Delete io s key =
     (if pin_count s key > 0 then (Some ErrBlobPinned, s)
      else case map_of (bsBlobs s) key of
        None \<Rightarrow> (None, s\<lparr>bsMeta := Metadata_Delete key (bsMeta s)\<rparr>)
      | Some data \<Rightarrow>
          if \<not> io IoRemove then (Some (ErrIo IoRemove), s)
          else let cur = bsCurrentBytes s - int (length data) in
            (None, s\<lparr>bsBlobs := AList.delete key (bsBlobs s),
                    bsCurrentBytes := (if cur < 0 then 0 else cur),
                    bsMeta := Metadata_Delete key (bsMeta s)\<rparr>))"

section \<open>The store invariant\<close>

text \<open>
  The byte count is the size of the files present, every pinned key has its file, pin counts are
  positive, and a record whose file is absent claims no bytes.
\<close>

definition store_inv :: "DiskBlobStore \<Rightarrow> bool" where
  "store_inv s = (wf_map (bsBlobs s) \<and> wf_map (bsPins s) \<and> distinct (map bmDigest (bsMeta s)) \<and>
     bsCurrentBytes s = blob_bytes (bsBlobs s) \<and>
     (\<forall>n \<in> snd ` set (bsPins s). n > 0) \<and>
     (\<forall>k \<in> fst ` set (bsPins s). Has s k) \<and>
     (\<forall>m \<in> set (bsMeta s). Has s (bmDigest m) \<or> bmSize m = 0))"

lemma store_invD:
  assumes "store_inv s"
  shows "wf_map (bsBlobs s)" "wf_map (bsPins s)" "distinct (map bmDigest (bsMeta s))"
    "bsCurrentBytes s = blob_bytes (bsBlobs s)" "pin_count s k > 0 \<Longrightarrow> Has s k"
    "m \<in> set (bsMeta s) \<Longrightarrow> \<not> Has s (bmDigest m) \<Longrightarrow> bmSize m = 0" "k \<in> fst ` set (bsPins s) \<Longrightarrow> pin_count s k > 0"
proof -
  show "k \<in> fst ` set (bsPins s) \<Longrightarrow> pin_count s k > 0"
  proof -
    assume "k \<in> fst ` set (bsPins s)"
    then obtain n where "map_of (bsPins s) k = Some n" by (metis domIff dom_map_of_conv_image_fst option.exhaust)
    moreover from this have "n \<in> snd ` set (bsPins s)" by (force dest: map_of_SomeD)
    ultimately show "pin_count s k > 0" using assms by (auto simp: store_inv_def pin_count_def)
  qed
  show "pin_count s k > 0 \<Longrightarrow> Has s k"
    using assms by (auto simp: store_inv_def pin_count_def dest!: map_of_SomeD split: option.splits)
qed (use assms in \<open>auto simp: store_inv_def\<close>)

lemma blob_bytes_Cons [simp]: "blob_bytes ((k, d) # bs) = int (length d) + blob_bytes bs" "blob_bytes [] = 0"
  by (simp_all add: blob_bytes_def)

lemma blob_bytes_nonneg: "0 \<le> blob_bytes bs"
  by (induction bs) auto

lemma blob_bytes_update_new: "map_of bs k = None \<Longrightarrow> blob_bytes (AList.update k d bs) = blob_bytes bs + int (length d)"
  by (induction bs) (auto split: if_splits)

lemma blob_bytes_delete:
  "wf_map bs \<Longrightarrow> map_of bs k = Some d \<Longrightarrow> blob_bytes (AList.delete k bs) = blob_bytes bs - int (length d)"
proof (induction bs)
  case (Cons b bs)
  obtain k' d' where b: "b = (k', d')" by (cases b)
  show ?case
  proof (cases "k' = k")
    case True
    then have "k \<notin> fst ` set bs" using Cons.prems b by (auto simp: wf_map_def)
    then have "AList.delete k bs = bs" by (simp add: delete_idem)
    then show ?thesis using True Cons.prems b by simp
  next
    case False
    then show ?thesis using Cons b by (simp add: wf_map_def)
  qed
qed simp

lemma delete_absent: "map_of bs k = None \<Longrightarrow> AList.delete k bs = bs"
  by (induction bs) (auto split: if_splits)

lemma set_AList_update_subset: "set (AList.update k v xs) \<subseteq> insert (k, v) (set xs)"
  by (induction xs) auto

lemma Has_fields [simp]:
  "Has (s\<lparr>bsMeta := m\<rparr>) k = Has s k" "Has (s\<lparr>bsCurrentBytes := n\<rparr>) k = Has s k" "Has (s\<lparr>bsPins := ps\<rparr>) k = Has s k"
  by (simp_all add: Has_def)

lemma Has_update [simp]: "Has (s\<lparr>bsBlobs := AList.update k d bs\<rparr>) k' \<longleftrightarrow> k' = k \<or> map_of bs k' \<noteq> None"
  by (simp add: Has_def)

lemma Has_delete [simp]: "Has (s\<lparr>bsBlobs := AList.delete k bs\<rparr>) k' \<longleftrightarrow> k' \<noteq> k \<and> map_of bs k' \<noteq> None"
  by (simp add: Has_def)

lemma pin_count_fields [simp]:
  "pin_count (s\<lparr>bsMeta := m\<rparr>) k = pin_count s k" "pin_count (s\<lparr>bsCurrentBytes := n\<rparr>) k = pin_count s k"
  "pin_count (s\<lparr>bsBlobs := bs\<rparr>) k = pin_count s k"
  by (simp_all add: pin_count_def)

text \<open>One round of eviction with its accounting.\<close>

lemma evict_round:
  assumes inv: "store_inv s" and io: "io IoRemove" and ev: "evictOneCandidateLocked io s = Some (n, s')"
  defines "t \<equiv> s'\<lparr>bsCurrentBytes := bsCurrentBytes s' - n\<rparr>"
  shows "store_inv t" "bsPins t = bsPins s" "bsMaxBytes t = bsMaxBytes s"
    "\<exists>c. \<not> pin_count s c > 0 \<and> bsBlobs t = AList.delete c (bsBlobs s)"
proof -
  obtain c where c: "evict_candidate s = Some c"
      "n = (case map_of (bsBlobs s) (bmDigest c) of Some data \<Rightarrow> int (length data) | None \<Rightarrow> bmSize c)"
      "s' = s\<lparr>bsBlobs := AList.delete (bmDigest c) (bsBlobs s), bsMeta := Metadata_Delete (bmDigest c) (bsMeta s)\<rparr>"
    using ev io by (auto simp: evictOneCandidateLocked_def Let_def split: option.splits)
  have cm: "c \<in> set (bsMeta s)" "\<not> pin_count s (bmDigest c) > 0" using evict_candidate_in [OF c(1)] by auto
  have n: "blob_bytes (AList.delete (bmDigest c) (bsBlobs s)) = bsCurrentBytes s - n"
  proof (cases "map_of (bsBlobs s) (bmDigest c)")
    case None
    then have "bmSize c = 0" using store_invD(6) [OF inv cm(1)] by (simp add: Has_def)
    then show ?thesis using None c(2) delete_absent [OF None] store_invD(4) [OF inv] by simp
  next
    case (Some d)
    then show ?thesis using c(2) blob_bytes_delete [OF store_invD(1) [OF inv]] store_invD(4) [OF inv] by simp
  qed
  have notpin: "bmDigest c \<notin> fst ` set (bsPins s)" using store_invD(7) [OF inv] cm(2) by blast
  have "Has t k" if "k \<in> fst ` set (bsPins s)" for k
  proof -
    have "k \<noteq> bmDigest c" "Has s k" using that notpin inv unfolding store_inv_def by blast+
    then show ?thesis by (simp add: t_def c(3) Has_def)
  qed
  moreover have "Has t (bmDigest m) \<or> bmSize m = 0" if "m \<in> set (bsMeta t)" for m
    using that inv unfolding t_def c(3) store_inv_def by (auto simp: Has_def Metadata_Delete_def)
  moreover have "distinct (map bmDigest (bsMeta t))"
    using store_invD(3) [OF inv] by (simp add: t_def c(3) Metadata_Delete_def distinct_map_filter)
  ultimately show "store_inv t"
    using inv n by (simp add: store_inv_def t_def c(3))
  show "bsPins t = bsPins s" "bsMaxBytes t = bsMaxBytes s"
    "\<exists>c. \<not> pin_count s c > 0 \<and> bsBlobs t = AList.delete c (bsBlobs s)"
    using cm(2) by (auto simp: t_def c(3))
qed

lemma evict_loop_inv:
  assumes "store_inv s" "io IoRemove"
  shows "store_inv (fst (evict_loop io w s)) \<and> bsPins (fst (evict_loop io w s)) = bsPins s \<and>
    bsMaxBytes (fst (evict_loop io w s)) = bsMaxBytes s \<and>
    (pin_count s k > 0 \<longrightarrow> map_of (bsBlobs (fst (evict_loop io w s))) k = map_of (bsBlobs s) k) \<and>
    (map_of (bsBlobs s) k = None \<longrightarrow> map_of (bsBlobs (fst (evict_loop io w s))) k = None) \<and>
    (snd (evict_loop io w s) \<longrightarrow>
       bsCurrentBytes (fst (evict_loop io w s)) + w \<le> bsMaxBytes (fst (evict_loop io w s)))"
  using assms
proof (induction io w s rule: evict_loop.induct)
  case (1 io w s)
  show ?case
  proof (cases "bsCurrentBytes s + w > bsMaxBytes s")
    case False
    then show ?thesis using 1 by (subst evict_loop.simps, simp)+
  next
    case over: True
    show ?thesis
    proof (cases "evictOneCandidateLocked io s")
      case None
      then show ?thesis using 1 over by (subst evict_loop.simps, simp)+
    next
      case (Some r)
      obtain n s' where r: "r = (n, s')" by (cases r)
      define t where "t = s'\<lparr>bsCurrentBytes := bsCurrentBytes s' - n\<rparr>"
      have round: "store_inv t" "bsPins t = bsPins s" "bsMaxBytes t = bsMaxBytes s"
          "\<exists>c. \<not> pin_count s c > 0 \<and> bsBlobs t = AList.delete c (bsBlobs s)"
        unfolding t_def using evict_round [where s = s and io = io and n = n and s' = s'] 1(2,3) Some r by blast+
      obtain c where c: "\<not> pin_count s c > 0" "bsBlobs t = AList.delete c (bsBlobs s)" using round(4) by blast
      have loop: "evict_loop io w s = evict_loop io w t"
        using over Some r by (subst evict_loop.simps) (simp add: t_def)
      have "pin_count t k = pin_count s k" using round(2) by (simp add: pin_count_def)
      moreover have "pin_count s k > 0 \<Longrightarrow> map_of (bsBlobs t) k = map_of (bsBlobs s) k" using c by auto
      ultimately show ?thesis
        using 1(1) [OF over Some r [symmetric], folded t_def, OF round(1) 1(3)] round(2,3) c(2)
        unfolding loop by auto
    qed
  qed
qed

lemma put_commit_inv:
  assumes inv: "store_inv s" and io: "io IoRemove" and c: "put_commit io key data s = (r, s')"
  shows "store_inv s' \<and> bsMaxBytes s' = bsMaxBytes s \<and> bsPins s' = bsPins s \<and>
    (pin_count s k > 0 \<longrightarrow> map_of (bsBlobs s') k = map_of (bsBlobs s) k)"
proof (cases "map_of (bsBlobs s) key")
  case (Some d)
  then show ?thesis using assms by (auto simp: put_commit_def)
next
  case None
  define s1 where "s1 = fst (evict_loop io (int (length data)) s)"
  have ev: "store_inv s1" "bsPins s1 = bsPins s" "bsMaxBytes s1 = bsMaxBytes s" "map_of (bsBlobs s1) key = None"
      "pin_count s k > 0 \<Longrightarrow> map_of (bsBlobs s1) k = map_of (bsBlobs s) k" for k
    using evict_loop_inv [where io = io and w = "int (length data)", OF inv io] None unfolding s1_def by blast+
  let ?t = "s1\<lparr>bsBlobs := AList.update key data (bsBlobs s1), bsCurrentBytes := bsCurrentBytes s1 + int (length data)\<rparr>"
  have s': "s' = s1 \<or> s' = ?t"
    using c None by (auto simp: put_commit_def s1_def Let_def split: prod.splits if_splits)
  have "store_inv ?t"
    using ev(1,4) by (auto simp: store_inv_def blob_bytes_update_new Has_def)
  moreover have "pin_count s k > 0 \<Longrightarrow> k \<noteq> key" for k
    using store_invD(5) [OF inv, of key] None by (auto simp: Has_def)
  ultimately show ?thesis using s' ev by auto
qed

lemma put_commit_room:
  assumes "store_inv s" "io IoRemove" "put_commit io key data s = (Inr n, s')" "map_of (bsBlobs s) key = None"
  shows "bsCurrentBytes s' \<le> bsMaxBytes s' \<and> map_of (bsBlobs s') key = Some data \<and> n = int (length data)"
  using evict_loop_inv [where io = io and w = "int (length data)" and k = key, OF assms(1,2)] assms(3,4)
  by (auto simp: put_commit_def Let_def split: prod.splits if_splits)

lemma pin_count_nonneg: "store_inv s \<Longrightarrow> 0 \<le> pin_count s k"
  by (cases "map_of (bsPins s) k") (force simp: pin_count_def store_inv_def dest: map_of_SomeD)+

lemma Pin_inv: "store_inv s \<Longrightarrow> Pin s key = Inr s' \<Longrightarrow> store_inv s'"
proof -
  assume inv: "store_inv s" and p: "Pin s key = Inr s'"
  have h: "Has s key" and s': "s' = s\<lparr>bsPins := AList.update key (pin_count s key + 1) (bsPins s)\<rparr>"
    using p by (auto simp: Pin_def split: if_splits)
  have "pin_count s key \<ge> 0" by (rule pin_count_nonneg [OF inv])
  then have "\<forall>n \<in> snd ` set (AList.update key (pin_count s key + 1) (bsPins s)). n > 0"
    using inv set_AList_update_subset [of key "pin_count s key + 1" "bsPins s"] unfolding store_inv_def by fastforce
  moreover have "\<forall>k \<in> fst ` set (AList.update key (pin_count s key + 1) (bsPins s)). Has s k"
    using h inv unfolding store_inv_def by (auto simp: dom_update)
  ultimately show ?thesis using inv by (simp add: s' store_inv_def)
qed

lemma positive_insert:
  "\<forall>n \<in> snd ` A. (n :: int) > 0 \<Longrightarrow> B \<subseteq> insert (k, v) A \<Longrightarrow> v > 0 \<Longrightarrow> \<forall>n \<in> snd ` B. n > 0"
  by auto

lemma Unpin_inv:
  assumes "store_inv s" shows "store_inv (Unpin s key)"
proof -
  have d: "set (AList.delete key (bsPins s)) \<subseteq> set (bsPins s)" by (auto simp: AList.delete_eq)
  have pos: "\<forall>n \<in> snd ` set (bsPins (Unpin s key)). n > 0"
  proof (cases "pin_count s key - 1 \<le> 0")
    case True
    then have "set (bsPins (Unpin s key)) \<subseteq> set (bsPins s)" using d by (simp add: Unpin_def Let_def)
    then show ?thesis using assms unfolding store_inv_def by blast
  next
    case False
    then have i: "set (bsPins (Unpin s key)) \<subseteq> insert (key, pin_count s key - 1) (set (bsPins s))"
      using set_AList_update_subset [of key "pin_count s key - 1" "bsPins s"] by (simp add: Unpin_def Let_def)
    have p: "\<forall>n \<in> snd ` set (bsPins s). n > 0" using assms unfolding store_inv_def by blast
    have v: "pin_count s key - 1 > 0" using False by simp
    show ?thesis by (rule positive_insert [OF p i v])
  qed
  have sub: "fst ` set (bsPins (Unpin s key)) \<subseteq> fst ` set (bsPins s)"
  proof (cases "pin_count s key - 1 \<le> 0")
    case True
    then show ?thesis using d by (simp add: Unpin_def Let_def image_mono)
  next
    case False
    then have "map_of (bsPins s) key \<noteq> None" by (auto simp: pin_count_def split: option.splits)
    then have "key \<in> fst ` set (bsPins s)" by (simp add: map_of_eq_None_iff)
    moreover have "fst ` set (bsPins (Unpin s key)) = insert key (fst ` set (bsPins s))"
      using False by (simp add: Unpin_def Let_def dom_update)
    ultimately show ?thesis by blast
  qed
  have eqs: "Has (Unpin s key) = Has s" "bsBlobs (Unpin s key) = bsBlobs s" "bsMeta (Unpin s key) = bsMeta s"
    "bsCurrentBytes (Unpin s key) = bsCurrentBytes s" by (simp_all add: Unpin_def Let_def fun_eq_iff Has_def)
  have wf: "wf_map (bsPins (Unpin s key))" using store_invD(2) [OF assms] by (simp add: Unpin_def Let_def)
  have "\<forall>k \<in> fst ` set (bsPins (Unpin s key)). Has s k" using sub assms unfolding store_inv_def by blast
  then show ?thesis using assms pos wf unfolding store_inv_def eqs by (elim conjE, intro conjI)
qed

lemma Delete_inv:
  assumes inv: "store_inv s" and d: "Delete io s key = (r, s')"
  shows "store_inv s' \<and> (pin_count s k > 0 \<longrightarrow> map_of (bsBlobs s') k = map_of (bsBlobs s) k) \<and> bsMaxBytes s' = bsMaxBytes s"
proof (cases "pin_count s key > 0 \<or> (map_of (bsBlobs s) key \<noteq> None \<and> \<not> io IoRemove)")
  case True
  then show ?thesis using assms by (auto simp: Delete_def split: if_splits option.splits)
next
  case False
  have np: "key \<notin> fst ` set (bsPins s)" using store_invD(7) [OF inv] False by blast
  have md: "distinct (map bmDigest (Metadata_Delete key (bsMeta s)))"
    using store_invD(3) [OF inv] by (simp add: Metadata_Delete_def distinct_map_filter)
  show ?thesis
  proof (cases "map_of (bsBlobs s) key")
    case None
    then have "s' = s\<lparr>bsMeta := Metadata_Delete key (bsMeta s)\<rparr>" using d False by (simp add: Delete_def)
    then show ?thesis using inv md by (auto simp: store_inv_def Metadata_Delete_def)
  next
    case (Some data)
    have b: "blob_bytes (AList.delete key (bsBlobs s)) = bsCurrentBytes s - int (length data)"
      using blob_bytes_delete [OF store_invD(1) [OF inv] Some] store_invD(4) [OF inv] by simp
    then have "\<not> bsCurrentBytes s - int (length data) < 0"
      using blob_bytes_nonneg [of "AList.delete key (bsBlobs s)"] by simp
    then have s': "s' = s\<lparr>bsBlobs := AList.delete key (bsBlobs s),
        bsCurrentBytes := bsCurrentBytes s - int (length data), bsMeta := Metadata_Delete key (bsMeta s)\<rparr>"
      using d False Some by (simp add: Delete_def Let_def)
    have "Has s' k" if "k \<in> fst ` set (bsPins s)" for k
    proof -
      have "k \<noteq> key" "Has s k" using that np inv unfolding store_inv_def by blast+
      then show ?thesis by (simp add: s' Has_def)
    qed
    moreover have "Has s' (bmDigest m) \<or> bmSize m = 0" if "m \<in> set (bsMeta s')" for m
      using that inv unfolding s' store_inv_def by (auto simp: Has_def Metadata_Delete_def)
    ultimately have "store_inv s'" using inv md b by (simp add: store_inv_def s')
    then show ?thesis using s' False by auto
  qed
qed

lemma store_record_inv:
  assumes "store_inv s" "Has s (bmDigest m) \<or> bmSize m = 0"
  shows "store_inv (s\<lparr>bsMeta := store_record m (bsMeta s)\<rparr>)"
proof -
  have "distinct (map bmDigest (store_record m (bsMeta s)))"
    using store_invD(3) [OF assms(1)] by (auto simp: store_record_def distinct_map_filter)
  then show ?thesis using assms by (auto simp: store_inv_def store_record_def)
qed

section \<open>Concurrent requests\<close>

text \<open>
  The atomic sections that requests interleave: the commit of a staged file, pinning, unpinning a
  held pin, deletion, and the metadata writes of the manager, which records a size only for a blob
  it holds pinned. Removing an existing file succeeds; every other system call may fail.
\<close>

definition remove_ok :: "(io_step \<Rightarrow> bool) \<Rightarrow> bool" where
  "remove_ok io = io IoRemove"

inductive blob_step :: "DiskBlobStore \<Rightarrow> DiskBlobStore \<Rightarrow> bool" where
  commit: "remove_ok io \<Longrightarrow> put_commit io key data s = (r, s') \<Longrightarrow> blob_step s s'"
| pin: "Pin s key = Inr s' \<Longrightarrow> blob_step s s'"
| unpin: "pin_count s key > 0 \<Longrightarrow> blob_step s (Unpin s key)"
| delete: "Delete io s key = (r, s') \<Longrightarrow> blob_step s s'"
| meta_put: "pin_count s (bmDigest m) > 0 \<or> bmSize m = 0 \<Longrightarrow>
    blob_step s (s\<lparr>bsMeta := snd (Metadata_Put now m (bsMeta s))\<rparr>)"
| meta_touch: "blob_step s (s\<lparr>bsMeta := snd (Metadata_Touch key now (bsMeta s))\<rparr>)"
| meta_status: "blob_step s (s\<lparr>bsMeta := snd (Metadata_UpdateStatus key st (bsMeta s))\<rparr>)"

inductive_cases blob_stepE: "blob_step s s'"

lemma Metadata_Put_inv:
  assumes "store_inv s" "pin_count s (bmDigest m) > 0 \<or> bmSize m = 0"
  shows "store_inv (s\<lparr>bsMeta := snd (Metadata_Put now m (bsMeta s))\<rparr>)"
proof -
  have "Has s (bmDigest m) \<or> bmSize m = 0" using assms store_invD(5) by blast
  then show ?thesis
    using assms(1) store_record_inv [OF assms(1)] by (simp add: Metadata_Put_def Let_def)
qed

lemma record_of_SomeD: "record_of ms k = Some m \<Longrightarrow> m \<in> set ms \<and> bmDigest m = k"
  by (metis (mono_tags, lifting) find_Some_iff nth_mem record_of_def)

lemma record_update_inv:
  assumes "store_inv s" "record_of (bsMeta s) k = Some m" "bmDigest m' = bmDigest m" "bmSize m' = bmSize m"
  shows "store_inv (s\<lparr>bsMeta := store_record m' (bsMeta s)\<rparr>)"
  using assms record_of_SomeD store_invD(6) [OF assms(1), of m] by (intro store_record_inv) auto

lemma blob_step_inv: "blob_step s s' \<Longrightarrow> store_inv s \<Longrightarrow> store_inv s'"
proof (induction rule: blob_step.induct)
  case (commit io key data s r s')
  then show ?case
    using put_commit_inv [where io = io and key = key and data = data and s = s and r = r and s' = s']
    by (simp add: remove_ok_def)
next
  case (meta_touch s key now)
  then show ?case by (auto simp: Metadata_Touch_def intro: record_update_inv split: option.splits)
next
  case (meta_status s key st)
  then show ?case by (auto simp: Metadata_UpdateStatus_def intro: record_update_inv split: option.splits)
qed (auto intro: Pin_inv Unpin_inv Metadata_Put_inv dest: Delete_inv)

lemma blob_step_pinned:
  assumes "blob_step s s'" "store_inv s" "pin_count s k > 0"
  shows "map_of (bsBlobs s') k = map_of (bsBlobs s) k"
  using assms
proof (induction rule: blob_step.induct)
  case (commit io key data s r s')
  then show ?case
    using put_commit_inv [where io = io and key = key and data = data and s = s and r = r and s' = s' and k = k]
    by (simp add: remove_ok_def)
next
  case (delete io s key r s')
  then show ?case using Delete_inv [of s io key r s' k] by blast
qed (auto simp: Pin_def Unpin_def Let_def split: if_splits)

definition blob_reachable :: "DiskBlobStore \<Rightarrow> DiskBlobStore \<Rightarrow> bool" where
  "blob_reachable = blob_step\<^sup>*\<^sup>*"

lemma reachable_inv: "blob_reachable s s' \<Longrightarrow> store_inv s \<Longrightarrow> store_inv s'"
  unfolding blob_reachable_def by (induction rule: rtranclp_induct) (auto intro: blob_step_inv)

lemma NewDiskBlobStore_inv:
  assumes "NewDiskBlobStore io root budget [] files staging = Inr s" "wf_map files"
  shows "store_inv s"
  using assms by (auto simp: NewDiskBlobStore_def store_inv_def split: if_splits)

text \<open>The victim of an eviction is a least recently accessed record among those not pinned.\<close>

lemma evict_candidate_lru:
  assumes "evict_candidate s = Some c" "m \<in> set (bsMeta s)" "\<not> pin_count s (bmDigest m) > 0"
  shows "bmLastAccessedAt c \<le> bmLastAccessedAt m"
proof -
  let ?l = "Metadata_List (bsMeta s)"
  have "sorted (map bmLastAccessedAt ?l)"
    unfolding Metadata_List_def by (subst SortSlice_sort_key [where f = bmLastAccessedAt]) simp_all
  moreover obtain i where i: "i < length ?l" "?l ! i = c" "\<forall>j<i. pin_count s (bmDigest (?l ! j)) > 0"
    using assms(1) unfolding evict_candidate_def find_Some_iff by auto
  moreover obtain j where j: "j < length ?l" "?l ! j = m"
    using assms(2) by (metis Metadata_List_def in_set_conv_nth set_SortSlice)
  moreover have "i \<le> j" using i(3) j assms(3) by (metis not_le_imp_less)
  ultimately show ?thesis by (metis (no_types, lifting) length_map nth_map sorted_iff_nth_mono)
qed

section \<open>Properties\<close>


definition sample_store :: DiskBlobStore where
  "sample_store = \<lparr>bsBlobs = [(''sha1-aa'', ''xyz'')], bsStaging = [], bsMaxBytes = 10, bsMeta = [], bsPins = [],
     bsCurrentBytes = 3\<rparr>"

lemma sample_store_new: "NewDiskBlobStore (\<lambda>_. True) ''/q'' 10 [] [(''sha1-aa'', ''xyz'')] [''tmp''] = Inr sample_store"
  by (simp add: NewDiskBlobStore_def DiskBudget_Validate_def sample_store_def)


text \<open>
  C25. A pinned blob is never evicted, deleted or replaced: no operation of any request changes the
  content stored under a key while the key is pinned.
\<close>

theorem pinned_blob_unchanged:
  assumes "(\<lambda>a b. blob_step a b \<and> pin_count a k > 0)\<^sup>*\<^sup>* s s'" "store_inv s"
  shows "map_of (bsBlobs s') k = map_of (bsBlobs s) k"
proof -
  have "map_of (bsBlobs s') k = map_of (bsBlobs s) k \<and> store_inv s'"
    using assms by (induction rule: rtranclp_induct) (auto simp: blob_step_pinned intro: blob_step_inv)
  then show ?thesis by blast
qed

definition pinned_store :: DiskBlobStore where
  "pinned_store = sample_store\<lparr>bsPins := [(''sha1-aa'', 1)]\<rparr>"

lemma pinned_store_inv: "store_inv pinned_store"
  by (simp add: pinned_store_def sample_store_def store_inv_def wf_map_def Has_def)

theorem pinned_blob_unchanged_witness:
  "map_of (bsBlobs (snd (Delete (\<lambda>_. True) pinned_store ''sha1-aa''))) ''sha1-aa'' = Some ''xyz''"
proof -
  have "blob_step pinned_store (snd (Delete (\<lambda>_. True) pinned_store ''sha1-aa''))"
    by (rule blob_step.delete [OF prod.collapse [symmetric]])
  moreover have "pin_count pinned_store ''sha1-aa'' > 0" by (simp add: pin_count_def pinned_store_def)
  ultimately have "(\<lambda>a b. blob_step a b \<and> pin_count a ''sha1-aa'' > 0)\<^sup>*\<^sup>* pinned_store
      (snd (Delete (\<lambda>_. True) pinned_store ''sha1-aa''))" by (intro r_into_rtranclp) simp
  from pinned_blob_unchanged [OF this pinned_store_inv] show ?thesis
    by (simp add: pinned_store_def sample_store_def)
qed



end
