(* ===== verification/Inspect.thy ===== *)
theory Inspect
  imports Freshness
begin

text \<open>
  Bounded static inspection of \<^verbatim>\<open>package.json\<close>: \<^verbatim>\<open>src/internal/quarantine/inspect.go\<close>. The JSON
  decoder is the parameter \<open>json_pkg\<close> (\<^term>\<open>None\<close> is a decoding error) and the regular
  expression engine the parameter \<open>matches\<close>, from the rule identifier and the script text. A
  decoded script map is an association list in the order the loop visits it; \<^term>\<open>None\<close> is the nil map
  of a document without a \<^verbatim>\<open>scripts\<close> field.
\<close>

record InspectLimits =
  MaxScriptBytes :: int
  MaxScriptCount :: int
  MaxPackageJSONBytes :: int
  MaxFilesScanned :: int
  MaxFileReadBytes :: int
  InspectTimeout :: duration

text \<open>The limit that is not positive, if any.\<close>

definition InspectLimits_Validate :: "InspectLimits \<Rightarrow> string option" where
  "InspectLimits_Validate l =
     (if MaxScriptBytes l \<le> 0 then Some ''MaxScriptBytes''
      else if MaxScriptCount l \<le> 0 then Some ''MaxScriptCount''
      else if MaxPackageJSONBytes l \<le> 0 then Some ''MaxPackageJSONBytes''
      else if MaxFilesScanned l \<le> 0 then Some ''MaxFilesScanned''
      else if MaxFileReadBytes l \<le> 0 then Some ''MaxFileReadBytes''
      else if InspectTimeout l \<le> 0 then Some ''Timeout''
      else None)"

definition DefaultInspectLimits :: InspectLimits where
  "DefaultInspectLimits = \<lparr>MaxScriptBytes = 4 * 1024, MaxScriptCount = 10, MaxPackageJSONBytes = 512 * 1024,
     MaxFilesScanned = 50, MaxFileReadBytes = 64 * 1024, InspectTimeout = 10 * Second\<rparr>"

definition approvedLifecycleScripts :: "string list" where
  "approvedLifecycleScripts = [''preinstall'', ''install'', ''postinstall'', ''prepare'']"

record indicatorRule =
  irID :: string
  irObs :: string
  irConf :: string

definition indicatorPatterns :: "indicatorRule list" where
  "indicatorPatterns =
    [\<lparr>irID = ''proc_exec'', irObs = ''process_execution'', irConf = ConfidenceHigh\<rparr>,
     \<lparr>irID = ''net_fetch'', irObs = ''network_access'', irConf = ConfidenceMedium\<rparr>,
     \<lparr>irID = ''staged_payload'', irObs = ''staged_payload'', irConf = ConfidenceHigh\<rparr>,
     \<lparr>irID = ''credential_read'', irObs = ''credential_read'', irConf = ConfidenceMedium\<rparr>,
     \<lparr>irID = ''obfuscation'', irObs = ''obfuscation'', irConf = ConfidenceMedium\<rparr>]"

record packageJSONSummary =
  pjScripts :: "(string \<times> string) list option"
  pjGypfile :: bool

record pkgInspectionResult =
  prScripts :: "string list"
  prHasNativeBuild :: bool
  prDangerousScripts :: "string list"
  prDangerousReasons :: "string list"
  prSignals :: "Signal list"

definition emptyResult :: pkgInspectionResult where
  "emptyResult = \<lparr>prScripts = [], prHasNativeBuild = False, prDangerousScripts = [], prDangerousReasons = [], prSignals = []\<rparr>"

definition script_signal :: "string \<Rightarrow> string \<Rightarrow> gotime \<Rightarrow> gotime \<Rightarrow> Signal" where
  "script_signal ob conf now freshUntil =
     \<lparr>sigKind = KindInstallScript, sigSource = ''quarantine_inspect'', sigObservation = ob,
      sigConfidence = conf, sigRetrievedAt = now, sigFreshUntil = freshUntil\<rparr>"

text \<open>One script of the map, found to be a lifecycle script.\<close>

definition inspect_script ::
  "(string \<Rightarrow> string \<Rightarrow> bool) \<Rightarrow> (string \<times> string) list option \<Rightarrow> gotime \<Rightarrow> gotime \<Rightarrow> string \<Rightarrow> string \<Rightarrow>
   pkgInspectionResult \<Rightarrow> pkgInspectionResult" where
  "inspect_script matches prevScripts now freshUntil lower val res =
     (let isNew = (case prevScripts of None \<Rightarrow> False | Some prev \<Rightarrow> map_of prev lower = None);
          hits = filter (\<lambda>r. matches (irID r) val) indicatorPatterns;
          scriptDangerous = (hits \<noteq> [])
      in res\<lparr>prScripts := prScripts res @ [lower],
             prSignals := prSignals res
               @ (if isNew then [script_signal (''new_lifecycle_script:'' @ lower) ConfidenceHigh now freshUntil,
                                 script_signal ''script_added'' ConfidenceHigh now freshUntil] else [])
               @ [script_signal (''lifecycle_script:'' @ lower) ConfidenceHigh now freshUntil]
               @ map (\<lambda>r. script_signal (''indicator:'' @ irObs r @ '':script:'' @ lower) (irConf r) now freshUntil) hits
               @ (if scriptDangerous
                  then [script_signal (''dangerous_script:'' @ lower) ConfidenceHigh now freshUntil] else []),
             prDangerousReasons := prDangerousReasons res
               @ map (\<lambda>r. irObs r @ '' indicator in '' @ lower) hits,
             prDangerousScripts := prDangerousScripts res @ (if scriptDangerous then [lower] else [])\<rparr>)"

text \<open>The loop over the script map; the flag records that a limit was reached.\<close>

fun inspect_scripts ::
  "(string \<Rightarrow> string \<Rightarrow> bool) \<Rightarrow> InspectLimits \<Rightarrow> (string \<times> string) list option \<Rightarrow> gotime \<Rightarrow> gotime \<Rightarrow>
   (string \<times> string) list \<Rightarrow> int \<Rightarrow> pkgInspectionResult \<times> bool \<Rightarrow> pkgInspectionResult \<times> bool" where
  "inspect_scripts matches limits prevScripts now freshUntil [] scriptCount acc = acc"
| "inspect_scripts matches limits prevScripts now freshUntil ((name, cmd) # rest) scriptCount (res, truncated) =
     (let lower = ToLower (TrimSpace name) in
      if lower \<notin> set approvedLifecycleScripts
      then inspect_scripts matches limits prevScripts now freshUntil rest scriptCount (res, truncated)
      else if scriptCount \<ge> MaxScriptCount limits then (res, True)
      else let cut = int (length cmd) > MaxScriptBytes limits;
               val = (if cut then take (nat (MaxScriptBytes limits)) cmd else cmd)
           in inspect_scripts matches limits prevScripts now freshUntil rest (scriptCount + 1)
                (inspect_script matches prevScripts now freshUntil lower val res, truncated \<or> cut))"

definition inspectPackageJSONContent ::
  "(string \<Rightarrow> packageJSONSummary option) \<Rightarrow> (string \<Rightarrow> string \<Rightarrow> bool) \<Rightarrow> string \<Rightarrow> int \<Rightarrow> InspectLimits \<Rightarrow> string \<Rightarrow>
   gotime \<Rightarrow> gotime \<Rightarrow> pkgInspectionResult option \<times> bool" where
  "inspectPackageJSONContent json_pkg matches content hdrSize limits previousPkgJSON now freshUntil =
     (let over = hdrSize > MaxPackageJSONBytes limits;
          readLimit = (if over then MaxPackageJSONBytes limits else hdrSize);
          data = take (nat readLimit) content
      in case json_pkg data of
           None \<Rightarrow> (None, over)
         | Some pkg \<Rightarrow>
             let prevScripts = (if length previousPkgJSON > 0
                   then (case json_pkg previousPkgJSON of None \<Rightarrow> None | Some prev \<Rightarrow> pjScripts prev) else None);
                 (res, truncated) = inspect_scripts matches limits prevScripts now freshUntil
                   (case pjScripts pkg of None \<Rightarrow> [] | Some scripts \<Rightarrow> scripts) 0 (emptyResult, over)
             in (Some (res\<lparr>prHasNativeBuild := pjGypfile pkg\<rparr>), truncated))"

section \<open>What the script loop finds\<close>

lemma inspect_script_grows:
  "set (prDangerousScripts res) \<subseteq> set (prDangerousScripts (inspect_script m p now fu lower val res))"
  "set (prSignals res) \<subseteq> set (prSignals (inspect_script m p now fu lower val res))"
  by (auto simp: inspect_script_def Let_def)

lemma inspect_scripts_grows:
  "set (prDangerousScripts (fst acc)) \<subseteq> set (prDangerousScripts (fst (inspect_scripts m l p now fu xs n acc))) \<and>
   set (prSignals (fst acc)) \<subseteq> set (prSignals (fst (inspect_scripts m l p now fu xs n acc))) \<and>
   (snd acc \<longrightarrow> snd (inspect_scripts m l p now fu xs n acc))"
proof (induction xs arbitrary: n acc)
  case (Cons x xs)
  obtain nm c where x: "x = (nm, c)" by (cases x)
  obtain res tr where acc: "acc = (res, tr)" by (cases acc)
  define lower where "lower = ToLower (TrimSpace nm)"
  define cut where "cut = (int (length c) > MaxScriptBytes l)"
  define val where "val = (if cut then take (nat (MaxScriptBytes l)) c else c)"
  have step: "inspect_scripts m l p now fu (x # xs) n acc =
      (if lower \<notin> set approvedLifecycleScripts then inspect_scripts m l p now fu xs n acc
       else if n \<ge> MaxScriptCount l then (res, True)
       else inspect_scripts m l p now fu xs (n + 1) (inspect_script m p now fu lower val res, tr \<or> cut))"
    by (simp add: x acc lower_def cut_def val_def Let_def)
  have IH: "set (prDangerousScripts res) \<subseteq> set (prDangerousScripts (fst (inspect_scripts m l p now fu xs (n + 1)
        (inspect_script m p now fu lower val res, tr \<or> cut)))) \<and>
      set (prSignals res) \<subseteq> set (prSignals (fst (inspect_scripts m l p now fu xs (n + 1)
        (inspect_script m p now fu lower val res, tr \<or> cut))))"
    using Cons.IH [of "(inspect_script m p now fu lower val res, tr \<or> cut)" "n + 1"] inspect_script_grows
    by (metis fst_conv subset_trans)
  show ?case
    unfolding step using Cons.IH [of acc n] IH Cons.IH [of "(inspect_script m p now fu lower val res, tr \<or> cut)" "n + 1"]
    by (simp add: acc)
qed simp

text \<open>A lifecycle script that fits the limits and matches an indicator is reported.\<close>

lemma inspect_scripts_finds:
  assumes "(name, cmd) \<in> set xs" "ToLower (TrimSpace name) \<in> set approvedLifecycleScripts"
    and "int (length cmd) \<le> MaxScriptBytes l" "r \<in> set indicatorPatterns" "m (irID r) cmd"
    and "\<not> snd (inspect_scripts m l p now fu xs n acc)"
  shows "ToLower (TrimSpace name) \<in> set (prDangerousScripts (fst (inspect_scripts m l p now fu xs n acc)))"
  using assms(1,6)
proof (induction xs arbitrary: n acc)
  case (Cons x xs)
  obtain nm c where x: "x = (nm, c)" by (cases x)
  obtain res tr where acc: "acc = (res, tr)" by (cases acc)
  show ?case
  proof (cases "x = (name, cmd)")
    case True
    let ?lower = "ToLower (TrimSpace name)"
    have count: "\<not> n \<ge> MaxScriptCount l"
      using Cons.prems(2) True assms(2) acc by (auto simp: Let_def)
    have "filter (\<lambda>r. m (irID r) cmd) indicatorPatterns \<noteq> []" using assms(4,5) by (auto simp: filter_empty_conv)
    then have "?lower \<in> set (prDangerousScripts (inspect_script m p now fu ?lower cmd res))"
      by (simp add: inspect_script_def Let_def)
    then show ?thesis
      using inspect_scripts_grows [of "(inspect_script m p now fu ?lower cmd res, tr)" m l p now fu xs "n + 1"]
        True assms(2,3) count acc by (auto simp: Let_def)
  next
    case False
    then have "(name, cmd) \<in> set xs" using Cons.prems(1) by simp
    then show ?thesis using Cons.IH Cons.prems(2) x acc by (auto simp: Let_def split: if_splits)
  qed
qed simp

end
