(* ===== verification/Archive.thy ===== *)
theory Archive
  imports Inspect Gopath
begin

text \<open>
  Archive safety inspection: \<^verbatim>\<open>src/internal/quarantine/archive.go\<close>. The gzip and tar decoders of
  the standard library are represented by what the loop receives from them: a \<open>TarStream\<close> is
  the failure of the gzip reader, if any, then the sequence of answers of \<^verbatim>\<open>tarReader.Next\<close>
  (an entry, or an error, which is also how a timeout or the compressed-size bound surfaces), and
  the number of compressed bytes read in the end. The entry loop and its checks are the code's.
\<close>

datatype archive_error =
  ErrArchiveTooLarge | ErrArchiveBomb | ErrArchiveTooManyEntries | ErrArchiveEntryTooLarge |
  ErrArchivePathTraversal | ErrArchiveSymlinkEscape | ErrArchiveHardlinkEscape | ErrArchiveDuplicateEntry |
  ErrArchiveNestedArchive | ErrArchiveDepthExceeded | ErrArchiveTimeout | ErrGzipReader | ErrTarEntry |
  ErrCancelled | ErrLimitRequired string

record ArchiveLimits =
  MaxTarballBytes :: int
  MaxExtractedBytes :: int
  MaxEntryCount :: int
  MaxFileBytes :: int
  MaxNestingDepth :: int
  ArchiveTimeout :: duration

definition ArchiveLimits_Validate :: "ArchiveLimits \<Rightarrow> string option" where
  "ArchiveLimits_Validate l =
     (if MaxTarballBytes l \<le> 0 then Some ''MaxTarballBytes''
      else if MaxExtractedBytes l \<le> 0 then Some ''MaxExtractedBytes''
      else if MaxEntryCount l \<le> 0 then Some ''MaxEntryCount''
      else if MaxFileBytes l \<le> 0 then Some ''MaxFileBytes''
      else if MaxNestingDepth l \<le> 0 then Some ''MaxNestingDepth''
      else if ArchiveTimeout l \<le> 0 then Some ''Timeout''
      else None)"

definition DefaultArchiveLimits :: ArchiveLimits where
  "DefaultArchiveLimits = \<lparr>MaxTarballBytes = 50 * 1024 * 1024, MaxExtractedBytes = 250 * 1024 * 1024,
     MaxEntryCount = 10000, MaxFileBytes = 20 * 1024 * 1024, MaxNestingDepth = 20, ArchiveTimeout = 15 * Second\<rparr>"

definition nestedArchiveExtensions :: "string list" where
  "nestedArchiveExtensions =
    [''.tar'', ''.tar.gz'', ''.tgz'', ''.gz'', ''.zip'', ''.bz2'', ''.tar.bz2'', ''.tbz'', ''.tbz2'', ''.xz'',
     ''.tar.xz'', ''.txz'', ''.7z'', ''.rar'', ''.whl'', ''.egg'', ''.gem'', ''.nupkg'', ''.jar'', ''.war'',
     ''.zst'', ''.tar.zst'']"

definition isNestedArchive :: "string \<Rightarrow> bool" where
  "isNestedArchive name = (let lower = ToLower name in list_ex (HasSuffix lower) nestedArchiveExtensions)"

definition pathDepth :: "string \<Rightarrow> nat" where
  "pathDepth cleanName =
     (if cleanName = [] \<or> cleanName = ''.'' then 0
      else length (filter (\<lambda>p. p \<noteq> [] \<and> p \<noteq> ''.'') (Split CHR ''/'' cleanName)))"

definition slashes :: "string \<Rightarrow> string" where
  "slashes s = ReplaceByte CHR 0x5C CHR ''/'' s"

definition isPackageJSON :: "string \<Rightarrow> bool" where
  "isPackageJSON p =
     (let clean = Clean (slashes p) in
      clean = ''package.json'' \<or> clean = ''package/package.json'' \<or> HasSuffix clean ''/package.json'')"

datatype Typeflag = TypeReg | TypeSymlink | TypeLink | TypeOther

record TarHeader =
  hdrName :: string
  hdrTypeflag :: Typeflag
  hdrLinkname :: string
  hdrSize :: int
  hdrContent :: string

datatype tar_event = TarEntry TarHeader | TarFail archive_error

record TarStream =
  tsGzip :: "archive_error option"
  tsEvents :: "tar_event list"
  tsCompressedRead :: int

record ArchiveInspection =
  EntryCount :: int
  TotalExtractedBytes :: int
  HasInstallScript :: bool
  InstallScripts :: "string list"
  HasNativeBuild :: bool
  DangerousScripts :: "string list"
  DangerousReasons :: "string list"
  Truncated :: bool
  inspSignals :: "Signal list"

text \<open>The variables of the loop: what is reported at the end, the paths seen, and whether a
  \<^verbatim>\<open>package.json\<close> was found.\<close>

record ins_state =
  insResult :: ArchiveInspection
  insSeen :: "string list"
  insPkgJSONFound :: bool

definition emptyInspection :: ArchiveInspection where
  "emptyInspection = \<lparr>EntryCount = 0, TotalExtractedBytes = 0, HasInstallScript = False, InstallScripts = [],
     HasNativeBuild = False, DangerousScripts = [], DangerousReasons = [], Truncated = False, inspSignals = []\<rparr>"

definition drive_prefix :: "string \<Rightarrow> bool" where
  "drive_prefix s = (length s \<ge> 2 \<and> s ! 1 = CHR '':'')"

text \<open>The path checks of an entry; \<^term>\<open>None\<close> when it passes.\<close>

definition check_name :: "string \<Rightarrow> archive_error option" where
  "check_name name =
     (let normalizedName = slashes name; cleanName = Clean normalizedName in
      if HasPrefix cleanName ''/'' \<or> IsAbs name \<or> drive_prefix cleanName then Some ErrArchivePathTraversal
      else if cleanName = ''..'' \<or> HasPrefix cleanName ''../'' then Some ErrArchivePathTraversal
      else if list_ex (\<lambda>part. part = ''..'') (Split CHR ''/'' normalizedName) then Some ErrArchivePathTraversal
      else None)"

text \<open>The check of a link target, shared by symbolic and hard links.\<close>

definition check_link :: "archive_error \<Rightarrow> string \<Rightarrow> string \<Rightarrow> archive_error option" where
  "check_link err cleanName link =
     (let cleanLink = Clean (slashes link) in
      if HasPrefix cleanLink ''/'' \<or> IsAbs link \<or> drive_prefix cleanLink then Some err
      else let resolved = Clean (path_Join [path_Dir cleanName, cleanLink]) in
        if cleanLink = ''..'' \<or> HasPrefix cleanLink ''../'' \<or> resolved = ''..'' \<or> HasPrefix resolved ''../''
        then Some err else None)"

text \<open>The static surface of an accepted entry: native build files and the first \<^verbatim>\<open>package.json\<close>.\<close>

definition inspect_surface ::
  "(string \<Rightarrow> packageJSONSummary option) \<Rightarrow> (string \<Rightarrow> string \<Rightarrow> bool) \<Rightarrow> InspectLimits \<Rightarrow> string \<Rightarrow> gotime \<Rightarrow> gotime \<Rightarrow>
   string \<Rightarrow> TarHeader \<Rightarrow> ins_state \<Rightarrow> ins_state" where
  "inspect_surface json_pkg matches inspectLimits previousPkgJSON now freshUntil cleanName hdr st =
     (let baseName = path_Base cleanName;
          r = insResult st;
          r1 = (if EqualFold baseName ''binding.gyp'' \<or> HasSuffix baseName ''.node'' then r\<lparr>HasNativeBuild := True\<rparr> else r)
      in if isPackageJSON cleanName \<and> hdrTypeflag hdr = TypeReg \<and> \<not> insPkgJSONFound st then
           (let (res, pkgTrunc) = inspectPackageJSONContent json_pkg matches (hdrContent hdr) (hdrSize hdr)
                  inspectLimits previousPkgJSON now freshUntil;
                r2 = (if pkgTrunc then r1\<lparr>Truncated := True\<rparr> else r1);
                r3 = (case res of
                        None \<Rightarrow> r2
                      | Some pr \<Rightarrow>
                          r2\<lparr>HasInstallScript := HasInstallScript r2 \<or> length (prScripts pr) > 0,
                             InstallScripts := InstallScripts r2 @ prScripts pr,
                             HasNativeBuild := HasNativeBuild r2 \<or> prHasNativeBuild pr,
                             DangerousScripts := DangerousScripts r2 @ prDangerousScripts pr,
                             DangerousReasons := DangerousReasons r2 @
                               (if length (prDangerousScripts pr) > 0 then prDangerousReasons pr else []),
                             inspSignals := inspSignals r2 @ prSignals pr\<rparr>)
            in st\<lparr>insResult := r3, insPkgJSONFound := True\<rparr>)
         else st\<lparr>insResult := r1\<rparr>)"

text \<open>One entry: the checks in the order of the code, then the surface.\<close>

definition inspect_entry ::
  "(string \<Rightarrow> packageJSONSummary option) \<Rightarrow> (string \<Rightarrow> string \<Rightarrow> bool) \<Rightarrow> ArchiveLimits \<Rightarrow> InspectLimits \<Rightarrow> string \<Rightarrow>
   gotime \<Rightarrow> gotime \<Rightarrow> TarHeader \<Rightarrow> ins_state \<Rightarrow> archive_error + ins_state" where
  "inspect_entry json_pkg matches al il previousPkgJSON now freshUntil hdr st =
     (let count = EntryCount (insResult st) + 1;
          cleanName = Clean (slashes (hdrName hdr)) in
      if count > MaxEntryCount al then Inl ErrArchiveTooManyEntries
      else case check_name (hdrName hdr) of
        Some err \<Rightarrow> Inl err
      | None \<Rightarrow>
          if int (pathDepth cleanName) > MaxNestingDepth al then Inl ErrArchiveDepthExceeded
          else if cleanName \<in> set (insSeen st) then Inl ErrArchiveDuplicateEntry
          else case (if hdrTypeflag hdr = TypeSymlink then check_link ErrArchiveSymlinkEscape cleanName (hdrLinkname hdr)
                     else if hdrTypeflag hdr = TypeLink then check_link ErrArchiveHardlinkEscape cleanName (hdrLinkname hdr)
                     else None) of
            Some err \<Rightarrow> Inl err
          | None \<Rightarrow>
              if hdrSize hdr > MaxFileBytes al then Inl ErrArchiveEntryTooLarge
              else let total = TotalExtractedBytes (insResult st) + hdrSize hdr in
                if total > MaxExtractedBytes al then Inl ErrArchiveBomb
                else if hdrTypeflag hdr = TypeReg \<and> isNestedArchive (path_Base cleanName) then Inl ErrArchiveNestedArchive
                else Inr (inspect_surface json_pkg matches il previousPkgJSON now freshUntil cleanName hdr
                       (st\<lparr>insSeen := cleanName # insSeen st,
                           insResult := (insResult st)\<lparr>EntryCount := count, TotalExtractedBytes := total\<rparr>\<rparr>)))"

fun inspect_entries ::
  "(TarHeader \<Rightarrow> ins_state \<Rightarrow> archive_error + ins_state) \<Rightarrow> tar_event list \<Rightarrow> ins_state \<Rightarrow> archive_error + ins_state" where
  "inspect_entries step [] st = Inr st"
| "inspect_entries step (TarFail err # rest) st = Inl err"
| "inspect_entries step (TarEntry hdr # rest) st =
     (case step hdr st of Inl err \<Rightarrow> Inl err | Inr st' \<Rightarrow> inspect_entries step rest st')"

definition archive_signal :: "string \<Rightarrow> string \<Rightarrow> string \<Rightarrow> gotime \<Rightarrow> gotime \<Rightarrow> Signal" where
  "archive_signal source ob conf now freshUntil =
     \<lparr>sigKind = KindInstallScript, sigSource = source, sigObservation = ob, sigConfidence = conf,
      sigRetrievedAt = now, sigFreshUntil = freshUntil\<rparr>"

text \<open>The closing signals.\<close>

definition final_signals :: "ArchiveInspection \<Rightarrow> gotime \<Rightarrow> gotime \<Rightarrow> Signal list" where
  "final_signals r now freshUntil =
     (if HasNativeBuild r then [archive_signal ''quarantine_inspect'' ''native_build'' ConfidenceHigh now freshUntil] else [])
     @ (if HasInstallScript r then [archive_signal ''quarantine_archive'' ''present'' ConfidenceHigh now freshUntil]
        else if HasNativeBuild r then [archive_signal ''quarantine_archive'' ''native_build'' ConfidenceHigh now freshUntil]
        else archive_signal ''quarantine_archive'' ''none'' ConfidenceHigh now freshUntil
             # (if Truncated r then []
                else [archive_signal ''quarantine_inspect'' ''no_lifecycle_scripts'' ConfidenceHigh now freshUntil]))
     @ (if Truncated r then [archive_signal ''quarantine_inspect'' ''inspect_truncated'' ConfidenceNone now freshUntil] else [])"

definition InspectArchiveWithLimits ::
  "(string \<Rightarrow> packageJSONSummary option) \<Rightarrow> (string \<Rightarrow> string \<Rightarrow> bool) \<Rightarrow> gotime \<Rightarrow> TarStream \<Rightarrow> ArchiveLimits \<Rightarrow>
   InspectLimits \<Rightarrow> string \<Rightarrow> archive_error + ArchiveInspection" where
  "InspectArchiveWithLimits json_pkg matches clock ts al il previousPkgJSON =
     (case ArchiveLimits_Validate al of
        Some field \<Rightarrow> Inl (ErrLimitRequired field)
      | None \<Rightarrow>
          (case InspectLimits_Validate il of
             Some field \<Rightarrow> Inl (ErrLimitRequired field)
           | None \<Rightarrow>
               (case tsGzip ts of
                  Some err \<Rightarrow> Inl err
                | None \<Rightarrow>
                    let now = Truncate clock Millisecond; freshUntil = now + 24 * Hour in
                    (case inspect_entries (inspect_entry json_pkg matches al il previousPkgJSON now freshUntil) (tsEvents ts)
                            \<lparr>insResult = emptyInspection, insSeen = [], insPkgJSONFound = False\<rparr> of
                       Inl err \<Rightarrow> Inl err
                     | Inr st \<Rightarrow>
                         if tsCompressedRead ts > MaxTarballBytes al then Inl ErrArchiveTooLarge
                         else let r = insResult st in
                           Inr (r\<lparr>inspSignals := inspSignals r @ final_signals r now freshUntil\<rparr>)))))"

definition InspectArchive ::
  "(string \<Rightarrow> packageJSONSummary option) \<Rightarrow> (string \<Rightarrow> string \<Rightarrow> bool) \<Rightarrow> gotime \<Rightarrow> TarStream \<Rightarrow> ArchiveLimits \<Rightarrow>
   archive_error + ArchiveInspection" where
  "InspectArchive json_pkg matches clock ts limits =
     InspectArchiveWithLimits json_pkg matches clock ts limits DefaultInspectLimits []"

record ScriptInspection =
  siSignals :: "Signal list"
  siTruncated :: bool
  siHasInstallScript :: bool
  siInstallScripts :: "string list"
  siHasNativeBuild :: bool
  siDangerousScripts :: "string list"
  siDangerousReasons :: "string list"

definition InspectScripts ::
  "(string \<Rightarrow> packageJSONSummary option) \<Rightarrow> (string \<Rightarrow> string \<Rightarrow> bool) \<Rightarrow> gotime \<Rightarrow> TarStream \<Rightarrow> ArchiveLimits \<Rightarrow>
   InspectLimits \<Rightarrow> string \<Rightarrow> archive_error + ScriptInspection" where
  "InspectScripts json_pkg matches clock ts al il previousPkgJSON =
     (case ArchiveLimits_Validate al of
        Some field \<Rightarrow> Inl (ErrLimitRequired field)
      | None \<Rightarrow>
          (case InspectLimits_Validate il of
             Some field \<Rightarrow> Inl (ErrLimitRequired field)
           | None \<Rightarrow>
               (case InspectArchiveWithLimits json_pkg matches clock ts al il previousPkgJSON of
                  Inl err \<Rightarrow> Inl err
                | Inr r \<Rightarrow> Inr \<lparr>siSignals = inspSignals r, siTruncated = Truncated r,
                     siHasInstallScript = HasInstallScript r, siInstallScripts = InstallScripts r,
                     siHasNativeBuild = HasNativeBuild r, siDangerousScripts = DangerousScripts r,
                     siDangerousReasons = DangerousReasons r\<rparr>)))"

text \<open>Over the bytes of a tarball; \<open>decode\<close> is what the decoders make of them.\<close>

definition ScriptInspectionFromArchive ::
  "(string \<Rightarrow> packageJSONSummary option) \<Rightarrow> (string \<Rightarrow> string \<Rightarrow> bool) \<Rightarrow> gotime \<Rightarrow> (string \<Rightarrow> TarStream) \<Rightarrow> string \<Rightarrow> ArchiveLimits \<Rightarrow>
   InspectLimits \<Rightarrow> string \<Rightarrow> archive_error + ScriptInspection" where
  "ScriptInspectionFromArchive json_pkg matches clock decode tarball al il previousPkgJSON =
     InspectScripts json_pkg matches clock (decode tarball) al il previousPkgJSON"

section \<open>What an accepted entry satisfies\<close>

text \<open>A link whose target, resolved from the entry's directory, stays under the archive root.\<close>

definition link_inside :: "string \<Rightarrow> string \<Rightarrow> bool" where
  "link_inside cleanName link =
     (let target = path_Join [path_Dir cleanName, Clean (slashes link)] in
      \<not> IsAbs link \<and> \<not> IsAbs target \<and> ''..'' \<notin> set (clean_elems target))"

definition safe_entry :: "ArchiveLimits \<Rightarrow> TarHeader \<Rightarrow> bool" where
  "safe_entry al hdr =
     (let cleanName = Clean (slashes (hdrName hdr)) in
      \<not> IsAbs (slashes (hdrName hdr)) \<and> ''..'' \<notin> set (clean_elems (slashes (hdrName hdr))) \<and>
      ''..'' \<notin> set (Split CHR ''/'' (slashes (hdrName hdr))) \<and> \<not> drive_prefix cleanName \<and>
      int (pathDepth cleanName) \<le> MaxNestingDepth al \<and> hdrSize hdr \<le> MaxFileBytes al \<and>
      (hdrTypeflag hdr = TypeReg \<longrightarrow> \<not> isNestedArchive (path_Base cleanName)) \<and>
      (hdrTypeflag hdr = TypeSymlink \<or> hdrTypeflag hdr = TypeLink \<longrightarrow> link_inside cleanName (hdrLinkname hdr)))"

lemma check_name_None:
  assumes "check_name name = None"
  shows "\<not> IsAbs (slashes name)" "''..'' \<notin> set (clean_elems (slashes name))"
    "''..'' \<notin> set (Split CHR ''/'' (slashes name))" "\<not> drive_prefix (Clean (slashes name))"
proof -
  have c: "\<not> HasPrefix (Clean (slashes name)) ''/''" "Clean (slashes name) \<noteq> ''..''"
      "\<not> HasPrefix (Clean (slashes name)) ''../''"
      "\<not> list_ex (\<lambda>part. part = ''..'') (Split CHR ''/'' (slashes name))" "\<not> drive_prefix (Clean (slashes name))"
    using assms unfolding check_name_def Let_def by (metis option.simps(3))+
  then show a: "\<not> IsAbs (slashes name)" using IsAbs_Clean by blast
  show "''..'' \<notin> set (clean_elems (slashes name))" using Clean_inside [OF a c(2,3)] .
  show "''..'' \<notin> set (Split CHR ''/'' (slashes name))" using c(4) by (simp add: list_ex_iff)
  show "\<not> drive_prefix (Clean (slashes name))" by (rule c(5))
qed

lemma check_link_None:
  assumes "check_link err cleanName link = None" "\<not> IsAbs cleanName"
  shows "link_inside cleanName link"
proof -
  let ?target = "path_Join [path_Dir cleanName, Clean (slashes link)]"
  have c: "\<not> IsAbs link" "Clean ?target \<noteq> ''..''" "\<not> HasPrefix (Clean ?target) ''../''"
    using assms(1) unfolding check_link_def Let_def by (metis option.simps(3))+
  have a: "\<not> IsAbs ?target" using path_Dir_relative [OF assms(2)] path_Join_relative by blast
  show ?thesis using c a Clean_inside [OF a c(2,3)] by (simp add: link_inside_def Let_def)
qed

lemma inspect_surface_fields [simp]:
  "EntryCount (insResult (inspect_surface j m il p now fu c hdr st)) = EntryCount (insResult st)"
  "TotalExtractedBytes (insResult (inspect_surface j m il p now fu c hdr st)) = TotalExtractedBytes (insResult st)"
  "insSeen (inspect_surface j m il p now fu c hdr st) = insSeen st"
  by (simp_all add: inspect_surface_def Let_def split: prod.splits option.splits)

lemma inspect_entry_Inr:
  assumes "inspect_entry j m al il p now fu hdr st = Inr st'"
  shows "safe_entry al hdr" "insSeen st' = Clean (slashes (hdrName hdr)) # insSeen st"
    "Clean (slashes (hdrName hdr)) \<notin> set (insSeen st)"
    "EntryCount (insResult st') = EntryCount (insResult st) + 1" "EntryCount (insResult st') \<le> MaxEntryCount al"
    "TotalExtractedBytes (insResult st') = TotalExtractedBytes (insResult st) + hdrSize hdr"
    "TotalExtractedBytes (insResult st') \<le> MaxExtractedBytes al"
proof -
  let ?c = "Clean (slashes (hdrName hdr))"
  let ?link = "if hdrTypeflag hdr = TypeSymlink then check_link ErrArchiveSymlinkEscape ?c (hdrLinkname hdr)
      else if hdrTypeflag hdr = TypeLink then check_link ErrArchiveHardlinkEscape ?c (hdrLinkname hdr) else None"
  have cn: "check_name (hdrName hdr) = None" and ln: "?link = None"
    using assms unfolding inspect_entry_def Let_def by (cases "check_name (hdrName hdr)"; cases ?link; simp split: if_splits)+
  note u = assms [unfolded inspect_entry_def Let_def cn ln, simplified]
  show "insSeen st' = ?c # insSeen st" "?c \<notin> set (insSeen st)"
    "EntryCount (insResult st') = EntryCount (insResult st) + 1" "EntryCount (insResult st') \<le> MaxEntryCount al"
    "TotalExtractedBytes (insResult st') = TotalExtractedBytes (insResult st) + hdrSize hdr"
    "TotalExtractedBytes (insResult st') \<le> MaxExtractedBytes al"
    using u by (auto split: if_splits)
  have "\<not> IsAbs ?c" using Clean_relative [OF check_name_None(1) [OF cn]] by (simp add: IsAbs_hd)
  then have "hdrTypeflag hdr = TypeSymlink \<or> hdrTypeflag hdr = TypeLink \<Longrightarrow> link_inside ?c (hdrLinkname hdr)"
    using ln check_link_None by (auto split: if_splits)
  then show "safe_entry al hdr"
    using u check_name_None [OF cn] unfolding safe_entry_def Let_def by (auto split: if_splits)
qed

lemma inspect_entries_Inr:
  assumes "inspect_entries (inspect_entry j m al il p now fu) evs st = Inr st'"
  shows "\<exists>hdrs. evs = map TarEntry hdrs \<and> (\<forall>h \<in> set hdrs. safe_entry al h) \<and>
     insSeen st' = rev (map (Clean \<circ> slashes \<circ> hdrName) hdrs) @ insSeen st \<and>
     (distinct (insSeen st) \<longrightarrow> distinct (insSeen st')) \<and>
     EntryCount (insResult st') = EntryCount (insResult st) + int (length hdrs) \<and>
     TotalExtractedBytes (insResult st') = TotalExtractedBytes (insResult st) + sum_list (map hdrSize hdrs) \<and>
     (hdrs \<noteq> [] \<longrightarrow> EntryCount (insResult st') \<le> MaxEntryCount al \<and> TotalExtractedBytes (insResult st') \<le> MaxExtractedBytes al)"
  using assms
proof (induction evs arbitrary: st)
  case Nil
  then show ?case by (intro exI [of _ "[]"]) simp
next
  case (Cons ev evs)
  then obtain hdr st1 where e: "ev = TarEntry hdr" "inspect_entry j m al il p now fu hdr st = Inr st1"
      "inspect_entries (inspect_entry j m al il p now fu) evs st1 = Inr st'"
    by (cases ev) (auto split: sum.splits)
  note one = inspect_entry_Inr [OF e(2)]
  obtain hdrs where h: "evs = map TarEntry hdrs" "\<forall>h \<in> set hdrs. safe_entry al h"
      "insSeen st' = rev (map (Clean \<circ> slashes \<circ> hdrName) hdrs) @ insSeen st1"
      "distinct (insSeen st1) \<longrightarrow> distinct (insSeen st')"
      "EntryCount (insResult st') = EntryCount (insResult st1) + int (length hdrs)"
      "TotalExtractedBytes (insResult st') = TotalExtractedBytes (insResult st1) + sum_list (map hdrSize hdrs)"
      "hdrs \<noteq> [] \<longrightarrow> EntryCount (insResult st') \<le> MaxEntryCount al \<and> TotalExtractedBytes (insResult st') \<le> MaxExtractedBytes al"
    using Cons.IH [OF e(3)] by blast
  have "EntryCount (insResult st') \<le> MaxEntryCount al \<and> TotalExtractedBytes (insResult st') \<le> MaxExtractedBytes al"
    using h(5-7) one(5,7) by (cases "hdrs = []") auto
  then show ?case
    using e(1) h one by (intro exI [of _ "hdr # hdrs"]) auto
qed

section \<open>What the surface inspection reports\<close>

text \<open>The entries that count as a package manifest.\<close>

definition manifest_entry :: "TarHeader \<Rightarrow> bool" where
  "manifest_entry hdr = (isPackageJSON (Clean (slashes (hdrName hdr))) \<and> hdrTypeflag hdr = TypeReg)"

lemma inspect_entry_surface:
  assumes "inspect_entry j m al il p now fu hdr st = Inr st'"
  obtains st0 where "st' = inspect_surface j m il p now fu (Clean (slashes (hdrName hdr))) hdr st0"
    "insPkgJSONFound st0 = insPkgJSONFound st" "DangerousScripts (insResult st0) = DangerousScripts (insResult st)"
    "Truncated (insResult st0) = Truncated (insResult st)"
  using assms unfolding inspect_entry_def Let_def by (auto split: if_splits option.splits)

lemma inspect_surface_grows:
  "set (DangerousScripts (insResult st)) \<subseteq> set (DangerousScripts (insResult (inspect_surface j m il p now fu c hdr st)))"
  "Truncated (insResult st) \<Longrightarrow> Truncated (insResult (inspect_surface j m il p now fu c hdr st))"
  "insPkgJSONFound (inspect_surface j m il p now fu c hdr st)
     \<longleftrightarrow> insPkgJSONFound st \<or> (isPackageJSON c \<and> hdrTypeflag hdr = TypeReg)"
  by (auto simp: inspect_surface_def Let_def split: prod.splits option.splits)

lemma inspect_entry_grows:
  assumes "inspect_entry j m al il p now fu hdr st = Inr st'"
  shows "set (DangerousScripts (insResult st)) \<subseteq> set (DangerousScripts (insResult st'))"
    "Truncated (insResult st) \<Longrightarrow> Truncated (insResult st')"
    "insPkgJSONFound st' \<longleftrightarrow> insPkgJSONFound st \<or> manifest_entry hdr"
  using inspect_entry_surface [OF assms] inspect_surface_grows by (metis manifest_entry_def)+

lemma inspect_entries_grows:
  assumes "inspect_entries (inspect_entry j m al il p now fu) evs st = Inr st'"
  shows "set (DangerousScripts (insResult st)) \<subseteq> set (DangerousScripts (insResult st')) \<and>
    (Truncated (insResult st) \<longrightarrow> Truncated (insResult st')) \<and>
    (insPkgJSONFound st' \<longleftrightarrow> insPkgJSONFound st \<or> (\<exists>h. TarEntry h \<in> set evs \<and> manifest_entry h))"
  using assms
proof (induction evs arbitrary: st)
  case (Cons ev evs)
  then obtain hdr st1 where e: "ev = TarEntry hdr" "inspect_entry j m al il p now fu hdr st = Inr st1"
      "inspect_entries (inspect_entry j m al il p now fu) evs st1 = Inr st'"
    by (cases ev) (auto split: sum.splits)
  show ?case using Cons.IH [OF e(3)] inspect_entry_grows [OF e(2)] e(1) by auto
qed simp

lemma inspect_entries_append:
  "inspect_entries f (xs @ ys) st = (case inspect_entries f xs st of Inl e \<Rightarrow> Inl e | Inr st' \<Rightarrow> inspect_entries f ys st')"
  by (induction f xs st rule: inspect_entries.induct) (auto split: sum.splits)

lemma surface_dangerous:
  fixes now fu :: gotime and p :: string
  assumes "manifest_entry hdr" "\<not> insPkgJSONFound st" "hdrSize hdr \<le> MaxPackageJSONBytes il"
    and "j (take (nat (hdrSize hdr)) (hdrContent hdr)) = Some pkg" "pjScripts pkg = Some scripts"
    and "(name, cmd) \<in> set scripts" "ToLower (TrimSpace name) \<in> set approvedLifecycleScripts"
    and "int (length cmd) \<le> MaxScriptBytes il" "r \<in> set indicatorPatterns" "m (irID r) cmd"
  defines "st' \<equiv> inspect_surface j m il p now fu (Clean (slashes (hdrName hdr))) hdr st"
  shows "ToLower (TrimSpace name) \<in> set (DangerousScripts (insResult st')) \<or> Truncated (insResult st')"
proof -
  let ?prev = "if length p > 0 then (case j p of None \<Rightarrow> None | Some prev \<Rightarrow> pjScripts prev) else None"
  let ?run = "inspect_scripts m il ?prev now fu scripts 0 (emptyResult, False)"
  have c: "inspectPackageJSONContent j m (hdrContent hdr) (hdrSize hdr) il p now fu
      = (Some ((fst ?run)\<lparr>prHasNativeBuild := pjGypfile pkg\<rparr>), snd ?run)"
    using assms(3-5) by (simp add: inspectPackageJSONContent_def Let_def split: prod.splits)
  show ?thesis
  proof (cases "snd ?run")
    case True
    then show ?thesis using assms(1,2) c by (simp add: st'_def inspect_surface_def manifest_entry_def Let_def)
  next
    case False
    from inspect_scripts_finds [where m = m and r = r, OF assms(6-10) False]
    show ?thesis using assms(1,2) c by (simp add: st'_def inspect_surface_def manifest_entry_def Let_def)
  qed
qed

section \<open>Properties\<close>

text \<open>
  C6. An archive that passes inspection is safe to unpack and within every limit: each entry has a
  relative path with no parent segment and bounded depth and size, no link leaves the archive root,
  no regular file is itself an archive, no path occurs twice, and the number of entries, their total
  size and the compressed size are bounded.
\<close>

theorem accepted_archive_is_safe:
  assumes "InspectArchiveWithLimits json_pkg matches clock ts al il prev = Inr r"
  shows "\<exists>hdrs. tsEvents ts = map TarEntry hdrs \<and> (\<forall>h \<in> set hdrs. safe_entry al h) \<and>
     distinct (map (Clean \<circ> slashes \<circ> hdrName) hdrs) \<and> EntryCount r = int (length hdrs) \<and>
     int (length hdrs) \<le> MaxEntryCount al \<and> sum_list (map hdrSize hdrs) \<le> MaxExtractedBytes al \<and>
     tsCompressedRead ts \<le> MaxTarballBytes al"
proof -
  let ?now = "Truncate clock Millisecond"
  let ?s0 = "\<lparr>insResult = emptyInspection, insSeen = [], insPkgJSONFound = False\<rparr>"
  obtain st where st: "inspect_entries (inspect_entry json_pkg matches al il prev ?now (?now + 24 * Hour)) (tsEvents ts) ?s0 = Inr st"
      "tsCompressedRead ts \<le> MaxTarballBytes al" "EntryCount r = EntryCount (insResult st)" "ArchiveLimits_Validate al = None"
    using assms by (auto simp: InspectArchiveWithLimits_def Let_def split: option.splits sum.splits if_splits)
  obtain hdrs where h: "tsEvents ts = map TarEntry hdrs" "\<forall>h \<in> set hdrs. safe_entry al h"
      "insSeen st = rev (map (Clean \<circ> slashes \<circ> hdrName) hdrs)" "distinct (insSeen st)"
      "EntryCount (insResult st) = int (length hdrs)"
      "TotalExtractedBytes (insResult st) = sum_list (map hdrSize hdrs)"
      "hdrs \<noteq> [] \<longrightarrow> EntryCount (insResult st) \<le> MaxEntryCount al \<and> TotalExtractedBytes (insResult st) \<le> MaxExtractedBytes al"
    using inspect_entries_Inr [OF st(1)] by (auto simp: emptyInspection_def)
  have "MaxEntryCount al > 0" "MaxExtractedBytes al > 0"
    using st(4) by (auto simp: ArchiveLimits_Validate_def split: if_splits)
  then show ?thesis using h st(2,3) by (intro exI [of _ hdrs]) (cases "hdrs = []"; simp)
qed

definition file_entry :: "string \<Rightarrow> string \<Rightarrow> TarHeader" where
  "file_entry name content = \<lparr>hdrName = name, hdrTypeflag = TypeReg, hdrLinkname = [],
     hdrSize = int (length content), hdrContent = content\<rparr>"

definition entries_stream :: "TarHeader list \<Rightarrow> TarStream" where
  "entries_stream hs = \<lparr>tsGzip = None, tsEvents = map TarEntry hs, tsCompressedRead = 100\<rparr>"

lemma sample_archive_accepted:
  "\<exists>r. InspectArchiveWithLimits (\<lambda>_. None) (\<lambda>_ _. False) 0 (entries_stream [file_entry ''a/b'' ''xyz''])
         DefaultArchiveLimits DefaultInspectLimits [] = Inr r"
proof -
  have "case InspectArchiveWithLimits (\<lambda>_. None) (\<lambda>_ _. False) 0 (entries_stream [file_entry ''a/b'' ''xyz''])
         DefaultArchiveLimits DefaultInspectLimits [] of Inr r \<Rightarrow> True | Inl e \<Rightarrow> False"
    by code_simp
  then show ?thesis by (simp split: sum.splits)
qed

theorem accepted_archive_is_safe_witness:
  "safe_entry DefaultArchiveLimits (file_entry ''a/b'' ''xyz'')"
proof -
  obtain r where "InspectArchiveWithLimits (\<lambda>_. None) (\<lambda>_ _. False) 0 (entries_stream [file_entry ''a/b'' ''xyz''])
         DefaultArchiveLimits DefaultInspectLimits [] = Inr r" using sample_archive_accepted by blast
  from accepted_archive_is_safe [OF this] show ?thesis
    by (auto simp: entries_stream_def map_eq_Cons_conv)
qed

text \<open>
  A dangerous lifecycle script is reported: when the first package manifest of an accepted
  archive decodes within the size limit and one of its lifecycle scripts, itself within the limit,
  matches an indicator, the script is listed as dangerous or the inspection is marked truncated.
\<close>

lemma dangerous_script_reported:
  assumes "InspectArchiveWithLimits json_pkg matches clock ts al il prev = Inr r"
    and "tsEvents ts = pre @ TarEntry hdr # post" "\<forall>h. TarEntry h \<in> set pre \<longrightarrow> \<not> manifest_entry h" "manifest_entry hdr"
    and "hdrSize hdr \<le> MaxPackageJSONBytes il"
    and "json_pkg (take (nat (hdrSize hdr)) (hdrContent hdr)) = Some pkg" "pjScripts pkg = Some scripts"
    and "(name, cmd) \<in> set scripts" "ToLower (TrimSpace name) \<in> {''preinstall'', ''install'', ''postinstall'', ''prepare''}"
    and "int (length cmd) \<le> MaxScriptBytes il" "rule \<in> set indicatorPatterns" "matches (irID rule) cmd"
  shows "ToLower (TrimSpace name) \<in> set (DangerousScripts r) \<or> Truncated r"
proof -
  let ?now = "Truncate clock Millisecond"
  let ?step = "inspect_entry json_pkg matches al il prev ?now (?now + 24 * Hour)"
  let ?s0 = "\<lparr>insResult = emptyInspection, insSeen = [], insPkgJSONFound = False\<rparr>"
  obtain st where st: "inspect_entries ?step (tsEvents ts) ?s0 = Inr st"
      "DangerousScripts r = DangerousScripts (insResult st)" "Truncated r = Truncated (insResult st)"
    using assms(1) by (auto simp: InspectArchiveWithLimits_def Let_def split: option.splits sum.splits if_splits)
  obtain s1 s2 where s: "inspect_entries ?step pre ?s0 = Inr s1" "?step hdr s1 = Inr s2" "inspect_entries ?step post s2 = Inr st"
    using st(1) unfolding assms(2) inspect_entries_append by (auto split: sum.splits)
  have "\<not> insPkgJSONFound s1" using inspect_entries_grows [OF s(1)] assms(3) by auto
  moreover obtain s1' where s1': "s2 = inspect_surface json_pkg matches il prev ?now (?now + 24 * Hour) (Clean (slashes (hdrName hdr))) hdr s1'"
      "insPkgJSONFound s1' = insPkgJSONFound s1"
    using inspect_entry_surface [OF s(2)] by metis
  ultimately have "ToLower (TrimSpace name) \<in> set (DangerousScripts (insResult s2)) \<or> Truncated (insResult s2)"
    unfolding s1'(1) using assms(4-12)
    by (intro surface_dangerous [where m = matches and j = json_pkg and r = rule])
       (auto simp: approvedLifecycleScripts_def)
  then show ?thesis using inspect_entries_grows [OF s(3)] st(2,3) by auto
qed

definition sample_json :: "string \<Rightarrow> packageJSONSummary option" where
  "sample_json s = (if s = ''P'' then Some \<lparr>pjScripts = Some [(''postinstall'', ''curl x'')], pjGypfile = False\<rparr>
                    else if s = ''Q'' then Some \<lparr>pjScripts = None, pjGypfile = False\<rparr> else None)"

definition sample_matches :: "string \<Rightarrow> string \<Rightarrow> bool" where
  "sample_matches rule s = (rule = ''net_fetch'' \<and> HasPrefix s ''curl'')"

definition sample_result :: ArchiveInspection where
  "sample_result = (case InspectArchiveWithLimits sample_json sample_matches 0 (entries_stream [file_entry ''package.json'' ''P''])
     DefaultArchiveLimits DefaultInspectLimits [] of Inr r \<Rightarrow> r | Inl e \<Rightarrow> emptyInspection)"

lemma sample_result_accepted:
  "InspectArchiveWithLimits sample_json sample_matches 0 (entries_stream [file_entry ''package.json'' ''P''])
     DefaultArchiveLimits DefaultInspectLimits [] = Inr sample_result"
proof -
  have "case InspectArchiveWithLimits sample_json sample_matches 0 (entries_stream [file_entry ''package.json'' ''P''])
     DefaultArchiveLimits DefaultInspectLimits [] of Inr r \<Rightarrow> True | Inl e \<Rightarrow> False"
    by code_simp
  then show ?thesis by (simp add: sample_result_def split: sum.splits)
qed

text \<open>
  A truncated inspection never reads as all-clear: its signals contain the truncation notice,
  and do not claim that there are no lifecycle scripts.
\<close>

lemma truncated_inspection_is_visible:
  assumes "InspectArchiveWithLimits json_pkg matches clock ts al il prev = Inr r" "Truncated r"
  shows "(\<exists>s \<in> set (inspSignals r). sigKind s = KindInstallScript \<and> sigObservation s = ''inspect_truncated'') \<and>
         (\<exists>ss. inspSignals r = ss @ final_signals r (Truncate clock Millisecond) (Truncate clock Millisecond + 24 * Hour) \<and>
            (\<forall>s \<in> set (final_signals r (Truncate clock Millisecond) (Truncate clock Millisecond + 24 * Hour)).
               sigObservation s \<noteq> ''no_lifecycle_scripts''))"
proof -
  let ?now = "Truncate clock Millisecond"
  obtain q where q: "r = q\<lparr>inspSignals := inspSignals q @ final_signals q ?now (?now + 24 * Hour)\<rparr>"
    using assms(1) by (auto simp: InspectArchiveWithLimits_def Let_def split: option.splits sum.splits if_splits)
  have f: "final_signals r ?now (?now + 24 * Hour) = final_signals q ?now (?now + 24 * Hour)"
    by (simp add: q final_signals_def)
  have tq: "Truncated q" using assms(2) q by simp
  have "\<exists>s \<in> set (final_signals q ?now (?now + 24 * Hour)). sigKind s = KindInstallScript \<and> sigObservation s = ''inspect_truncated''"
    using tq by (simp add: final_signals_def archive_signal_def)
  moreover have "\<forall>s \<in> set (final_signals q ?now (?now + 24 * Hour)). sigObservation s \<noteq> ''no_lifecycle_scripts''"
    using tq by (auto simp: final_signals_def archive_signal_def)
  moreover have "inspSignals r = inspSignals q @ final_signals q ?now (?now + 24 * Hour)" by (simp add: q)
  ultimately show ?thesis unfolding f by (metis Un_iff set_append)
qed

definition tiny_limits :: InspectLimits where
  "tiny_limits = DefaultInspectLimits\<lparr>MaxScriptBytes := 2\<rparr>"

definition truncated_result :: ArchiveInspection where
  "truncated_result = (case InspectArchiveWithLimits sample_json sample_matches 0 (entries_stream [file_entry ''package.json'' ''P''])
     DefaultArchiveLimits tiny_limits [] of Inr r \<Rightarrow> r | Inl e \<Rightarrow> emptyInspection)"

lemma truncated_result_accepted:
  "InspectArchiveWithLimits sample_json sample_matches 0 (entries_stream [file_entry ''package.json'' ''P''])
     DefaultArchiveLimits tiny_limits [] = Inr truncated_result \<and> Truncated truncated_result"
proof -
  have "case InspectArchiveWithLimits sample_json sample_matches 0 (entries_stream [file_entry ''package.json'' ''P''])
     DefaultArchiveLimits tiny_limits [] of Inr r \<Rightarrow> Truncated r | Inl e \<Rightarrow> False"
    by code_simp
  then show ?thesis by (simp add: truncated_result_def split: sum.splits)
qed

text \<open>
  Only the first manifest is read, whatever directory it is in: after an entry such as
  \<^verbatim>\<open>package/docs/package.json\<close>, the content of every later manifest, the root
  \<^verbatim>\<open>package/package.json\<close> included, has no effect on the result of the inspection.
\<close>

lemma later_manifest_is_not_inspected:
  assumes "manifest_entry first" "manifest_entry root" "hdrSize root = int (length x)" "length x = length y"
    and "tsEvents ts = TarEntry first # TarEntry (root\<lparr>hdrContent := x\<rparr>) # rest"
  shows "InspectArchiveWithLimits json_pkg matches clock
           (ts\<lparr>tsEvents := TarEntry first # TarEntry (root\<lparr>hdrContent := y\<rparr>) # rest\<rparr>) al il prev
         = InspectArchiveWithLimits json_pkg matches clock ts al il prev"
proof -
  let ?now = "Truncate clock Millisecond"
  let ?step = "inspect_entry json_pkg matches al il prev ?now (?now + 24 * Hour)"
  have same: "?step (root\<lparr>hdrContent := y\<rparr>) s = ?step (root\<lparr>hdrContent := x\<rparr>) s" if "insPkgJSONFound s" for s
    using that by (simp add: inspect_entry_def inspect_surface_def Let_def split: option.splits)
  have eq: "inspect_entries ?step (TarEntry first # TarEntry (root\<lparr>hdrContent := y\<rparr>) # rest) s
      = inspect_entries ?step (TarEntry first # TarEntry (root\<lparr>hdrContent := x\<rparr>) # rest) s" for s
  proof (cases "?step first s")
    case (Inr s1)
    then have "insPkgJSONFound s1" using inspect_entry_grows(3) [OF Inr] assms(1) by simp
    then show ?thesis using Inr same by simp
  qed simp
  have u: "tsEvents (ts\<lparr>tsEvents := evs\<rparr>) = evs" "tsGzip (ts\<lparr>tsEvents := evs\<rparr>) = tsGzip ts"
      "tsCompressedRead (ts\<lparr>tsEvents := evs\<rparr>) = tsCompressedRead ts" for evs by simp_all
  show ?thesis unfolding InspectArchiveWithLimits_def Let_def u assms(5) eq ..
qed

end
