(* ===== verification/Manager.thy ===== *)
theory Manager
  imports Blobstore Archive
begin

text \<open>
  The quarantine manager: \<^verbatim>\<open>src/internal/quarantine/manager.go\<close>. It uses a \<^verbatim>\<open>BlobStore\<close> and a
  \<^verbatim>\<open>MetadataStore\<close> through their interfaces; \<open>Quarantine_ops\<close> is the record of the methods
  it calls, over one state because the program gives both the same metadata store. The contract is
  the locale \<open>blob_store\<close>, the disk store its interpretation. An unpin function is the key of
  its lease. \<open>untar\<close> stands for the gzip and tar decoders applied to the bytes of a blob.
\<close>

section \<open>The store interface\<close>

record 's Quarantine_ops =
  qHas :: "'s \<Rightarrow> string \<Rightarrow> bool"
  qPutVerified :: "'s \<Rightarrow> string \<Rightarrow> Reader \<Rightarrow> ParsedDigest \<Rightarrow> (blob_error + int) \<times> 's"
  qGet :: "'s \<Rightarrow> string \<Rightarrow> blob_error + (string \<times> int)"
  qPin :: "'s \<Rightarrow> string \<Rightarrow> blob_error + 's"
  qUnpin :: "'s \<Rightarrow> string \<Rightarrow> 's"
  qMetaPut :: "'s \<Rightarrow> gotime \<Rightarrow> BlobMetadata \<Rightarrow> meta_error option \<times> 's"
  qMetaGet :: "'s \<Rightarrow> string \<Rightarrow> meta_error + BlobMetadata"
  qMetaTouch :: "'s \<Rightarrow> string \<Rightarrow> gotime \<Rightarrow> meta_error option \<times> 's"
  qMetaStatus :: "'s \<Rightarrow> string \<Rightarrow> BlobStatus \<Rightarrow> meta_error option \<times> 's"

section \<open>The manager\<close>

datatype manager_error =
  ErrInvalidExpectedIntegrity digest_error | ErrBlob blob_error | ErrMeta meta_error | ErrArchive archive_error |
  ErrMismatchFirst | ErrMismatchSecond | ErrNilEntry | ErrDigestHasher digest_error | ErrReadBlob |
  ErrManagerLimits string

record QuarantinedEntry =
  qeKey :: string
  qeExpectedIntegrity :: string
  qePackage :: string
  qeVersion :: string
  qeSize :: int
  qeLease :: "string option"

record Manager =
  mgLimits :: ArchiveLimits
  mgInspectLimits :: InspectLimits

definition NewManager :: "ArchiveLimits \<Rightarrow> InspectLimits \<Rightarrow> manager_error + Manager" where
  "NewManager limits inspectLimits =
     (case ArchiveLimits_Validate limits of
        Some field \<Rightarrow> Inl (ErrManagerLimits field)
      | None \<Rightarrow>
          let il = (if MaxScriptBytes inspectLimits = 0 then DefaultInspectLimits else inspectLimits) in
          (case InspectLimits_Validate il of
             Some field \<Rightarrow> Inl (ErrManagerLimits field)
           | None \<Rightarrow> Inr \<lparr>mgLimits = limits, mgInspectLimits = il\<rparr>))"

definition quarantine_meta :: "string \<Rightarrow> string \<Rightarrow> string \<Rightarrow> int \<Rightarrow> BlobStatus \<Rightarrow> gotime \<Rightarrow> BlobMetadata" where
  "quarantine_meta key pkg version sz status now =
     \<lparr>bmDigest = key, bmPackage = pkg, bmVersion = version, bmSize = sz, bmStatus = status,
      bmCreatedAt = now, bmLastAccessedAt = now\<rparr>"

text \<open>A key already in the store is reused; otherwise the stream is written and verified.\<close>

definition ingest_existing ::
  "'s Quarantine_ops \<Rightarrow> gotime \<Rightarrow> string \<Rightarrow> string \<Rightarrow> string \<Rightarrow> string \<Rightarrow> 's \<Rightarrow> (manager_error + QuarantinedEntry) \<times> 's" where
  "ingest_existing ops now pkg version expectedIntegrity key s =
     (case qPin ops s key of
        Inl err \<Rightarrow> (Inl (ErrBlob err), s)
      | Inr s1 \<Rightarrow>
          let s2 = snd (qMetaTouch ops s1 key now);
              sz = (case qMetaGet ops s2 key of Inr meta \<Rightarrow> bmSize meta | Inl _ \<Rightarrow> 0)
          in (Inr \<lparr>qeKey = key, qeExpectedIntegrity = expectedIntegrity, qePackage = pkg, qeVersion = version,
                   qeSize = sz, qeLease = Some key\<rparr>, s2))"

definition ingest_new ::
  "'s Quarantine_ops \<Rightarrow> gotime \<Rightarrow> string \<Rightarrow> string \<Rightarrow> string \<Rightarrow> ParsedDigest \<Rightarrow> Reader \<Rightarrow> 's \<Rightarrow>
   (manager_error + QuarantinedEntry) \<times> 's" where
  "ingest_new ops now pkg version expectedIntegrity parsed r s =
     (let key = Key parsed in
      case qPutVerified ops s key r parsed of
        (Inl err, s1) \<Rightarrow>
          if err = ErrIntegrityMismatch
          then (Inl ErrMismatchFirst, snd (qMetaPut ops s1 now (quarantine_meta key pkg version 0 StatusBlocked now)))
          else (Inl (ErrBlob err), s1)
      | (Inr sz, s1) \<Rightarrow>
          (case qPin ops s1 key of
             Inl err \<Rightarrow> (Inl (ErrBlob err), s1)
           | Inr s2 \<Rightarrow>
               (case qMetaPut ops s2 now (quarantine_meta key pkg version sz StatusQuarantined now) of
                  (Some err, s3) \<Rightarrow> (Inl (ErrMeta err), qUnpin ops s3 key)
                | (None, s3) \<Rightarrow>
                    (Inr \<lparr>qeKey = key, qeExpectedIntegrity = expectedIntegrity, qePackage = pkg, qeVersion = version,
                          qeSize = sz, qeLease = Some key\<rparr>, s3))))"

definition Ingest ::
  "'s Quarantine_ops \<Rightarrow> gotime \<Rightarrow> string \<Rightarrow> string \<Rightarrow> string \<Rightarrow> Reader \<Rightarrow> 's \<Rightarrow> (manager_error + QuarantinedEntry) \<times> 's" where
  "Ingest ops now pkg version expectedIntegrity r s =
     (case ParseDigest expectedIntegrity of
        Inl err \<Rightarrow> (Inl (ErrInvalidExpectedIntegrity err), s)
      | Inr parsedExpected \<Rightarrow>
          if qHas ops s (Key parsedExpected)
          then ingest_existing ops now pkg version expectedIntegrity (Key parsedExpected) s
          else ingest_new ops now pkg version expectedIntegrity parsedExpected r s)"

definition release_lease :: "'s Quarantine_ops \<Rightarrow> QuarantinedEntry \<Rightarrow> 's \<Rightarrow> 's" where
  "release_lease ops entry s = (case qeLease entry of None \<Rightarrow> s | Some k \<Rightarrow> qUnpin ops s k)"

text \<open>The deferred unpin runs on every path; the returned entry holds no lease.\<close>

definition Inspect ::
  "'s Quarantine_ops \<Rightarrow> (string \<Rightarrow> TarStream) \<Rightarrow> (string \<Rightarrow> packageJSONSummary option) \<Rightarrow> (string \<Rightarrow> string \<Rightarrow> bool) \<Rightarrow>
   Manager \<Rightarrow> gotime \<Rightarrow> QuarantinedEntry \<Rightarrow> 's \<Rightarrow> (manager_error + ArchiveInspection) \<times> QuarantinedEntry \<times> 's" where
  "Inspect ops untar json_pkg matches mg clock entry s =
     (let key = qeKey entry;
          (res, s') =
            (case qGet ops s key of
               Inl err \<Rightarrow> (Inl (ErrBlob err), snd (qMetaStatus ops s key StatusBlocked))
             | Inr (data, _) \<Rightarrow>
                 (case InspectArchiveWithLimits json_pkg matches clock (untar data) (mgLimits mg) (mgInspectLimits mg) [] of
                    Inl err \<Rightarrow> (Inl (ErrArchive err), snd (qMetaStatus ops s key StatusBlocked))
                  | Inr inspection \<Rightarrow>
                      if length (DangerousScripts inspection) > 0
                      then (Inr inspection, snd (qMetaStatus ops s key StatusBlocked))
                      else (Inr inspection, snd (qMetaStatus ops s key StatusInspected))))
      in (res, entry\<lparr>qeLease := None\<rparr>, release_lease ops entry s'))"

record releaseStream =
  rsBytes :: string
  rsSize :: int
  rsLease :: "string option"

definition VerifyAndRelease ::
  "'s Quarantine_ops \<Rightarrow> (string \<Rightarrow> string \<Rightarrow> string) \<Rightarrow> gotime \<Rightarrow> string \<Rightarrow> string \<Rightarrow> 's \<Rightarrow>
   (manager_error + releaseStream) \<times> 's" where
  "VerifyAndRelease ops hash now key expectedIntegrity s =
     (case ParseDigest expectedIntegrity of
        Inl err \<Rightarrow> (Inl (ErrInvalidExpectedIntegrity err), s)
      | Inr parsed \<Rightarrow>
          (case qPin ops s key of
             Inl err \<Rightarrow> (Inl (ErrBlob err), s)
           | Inr s1 \<Rightarrow>
               (case qGet ops s1 key of
                  Inl err \<Rightarrow> (Inl (ErrBlob err), qUnpin ops s1 key)
                | Inr (data, _) \<Rightarrow>
                    (case HasherFor hash (Algorithm parsed) of
                       Inl err \<Rightarrow> (Inl (ErrDigestHasher err), qUnpin ops s1 key)
                     | Inr hasher \<Rightarrow>
                         if hasher data \<noteq> Bytes parsed
                         then (Inl ErrMismatchSecond, snd (qMetaStatus ops (qUnpin ops s1 key) key StatusBlocked))
                         else (case qGet ops s1 key of
                                 Inl err \<Rightarrow> (Inl (ErrBlob err), qUnpin ops s1 key)
                               | Inr (stream, streamSize) \<Rightarrow>
                                   let s2 = snd (qMetaStatus ops s1 key StatusReleased);
                                       s3 = snd (qMetaTouch ops s2 key now)
                                   in (Inr \<lparr>rsBytes = stream, rsSize = streamSize, rsLease = Some key\<rparr>, s3))))))"

text \<open>Closing a release stream unpins once.\<close>

definition releaseStream_Close :: "'s Quarantine_ops \<Rightarrow> releaseStream \<Rightarrow> 's \<Rightarrow> releaseStream \<times> 's" where
  "releaseStream_Close ops st s =
     (case rsLease st of None \<Rightarrow> (st, s) | Some k \<Rightarrow> (st\<lparr>rsLease := None\<rparr>, qUnpin ops s k))"

section \<open>The integrity index\<close>

type_synonym IntegrityIndex = "(string \<times> string) list"

definition IntegrityIndex_Set :: "string \<Rightarrow> string \<Rightarrow> string \<Rightarrow> IntegrityIndex \<Rightarrow> IntegrityIndex" where
  "IntegrityIndex_Set pkg version integrity idx =
     (if pkg = [] \<or> version = [] \<or> integrity = [] then idx
      else AList.update (pkg @ ''@'' @ version) integrity idx)"

definition IntegrityIndex_Get :: "string \<Rightarrow> string \<Rightarrow> IntegrityIndex \<Rightarrow> string option" where
  "IntegrityIndex_Get pkg version idx = map_of idx (pkg @ ''@'' @ version)"

definition ResolveIntegrity :: "string \<Rightarrow> string \<Rightarrow> IntegrityIndex \<Rightarrow> string option" where
  "ResolveIntegrity pkg version idx = IntegrityIndex_Get pkg version idx"

section \<open>The contract\<close>

text \<open>
  What the manager relies on, in terms of two views of the state: the content stored under a key
  and the number of pins on it. Reading gives the content; only a verified write adds content, the
  bytes it was given, and may drop other keys that are not pinned; pins count up and down by one;
  nothing else changes the views.
\<close>

locale blob_store =
  fixes ops :: "'s Quarantine_ops" and hash :: "string \<Rightarrow> string \<Rightarrow> string"
    and blob :: "'s \<Rightarrow> string \<Rightarrow> string option" and pins :: "'s \<Rightarrow> string \<Rightarrow> int" and inv :: "'s \<Rightarrow> bool"
  assumes get_blob: "qGet ops s k = Inr (data, n) \<Longrightarrow> blob s k = Some data \<and> n = int (length data)"
    and has_blob: "qHas ops s k \<longleftrightarrow> blob s k \<noteq> None"
    and pin_views: "qPin ops s k = Inr s' \<Longrightarrow> blob s' = blob s \<and> pins s' = (pins s)(k := pins s k + 1)"
    and unpin_views: "pins s k > 0 \<Longrightarrow> blob (qUnpin ops s k) = blob s \<and> pins (qUnpin ops s k) = (pins s)(k := pins s k - 1)"
    and put_pins: "qPutVerified ops s k r d = (res, s') \<Longrightarrow> pins s' = pins s"
    and put_ok: "qPutVerified ops s k r d = (Inr n, s') \<Longrightarrow> blob s k = None \<Longrightarrow> wf_digest d \<Longrightarrow>
       blob s' k = Some (rdBytes r) \<and> hash (Algorithm d) (rdBytes r) = Bytes d"
    and put_err: "qPutVerified ops s k r d = (Inl err, s') \<Longrightarrow> blob s k = None \<Longrightarrow> blob s' k = None"
    and put_others: "qPutVerified ops s k r d = (res, s') \<Longrightarrow> j \<noteq> k \<Longrightarrow> blob s' j = blob s j \<or> blob s' j = None"
    and meta_put_views: "blob (snd (qMetaPut ops s t m)) = blob s \<and> pins (snd (qMetaPut ops s t m)) = pins s"
    and meta_touch_views: "blob (snd (qMetaTouch ops s k t)) = blob s \<and> pins (snd (qMetaTouch ops s k t)) = pins s"
    and meta_status_views: "blob (snd (qMetaStatus ops s k st)) = blob s \<and> pins (snd (qMetaStatus ops s k st)) = pins s"
    and pins_nonneg: "inv s \<Longrightarrow> 0 \<le> pins s k"
    and inv_put: "inv s \<Longrightarrow> qPutVerified ops s k r d = (res, s') \<Longrightarrow> inv s'"
    and inv_pin: "inv s \<Longrightarrow> qPin ops s k = Inr s' \<Longrightarrow> inv s'"
    and inv_unpin: "inv s \<Longrightarrow> inv (qUnpin ops s k)"
    and inv_meta: "inv s \<Longrightarrow> inv (snd (qMetaPut ops s t m)) \<and> inv (snd (qMetaTouch ops s k t)) \<and> inv (snd (qMetaStatus ops s k st))"
begin

lemmas views = meta_put_views meta_touch_views meta_status_views

lemma meta_put_eq: "qMetaPut ops s t m = (e, s') \<Longrightarrow> blob s' = blob s \<and> pins s' = pins s"
  using meta_put_views [of s t m] by simp

text \<open>Leases: a successful ingest holds one more pin on its key, a failed one none.\<close>

lemma unpin_after_pin:
  "inv s1 \<Longrightarrow> pins s3 = (pins s1)(k := pins s1 k + 1) \<Longrightarrow> blob (qUnpin ops s3 k) = blob s3 \<and> pins (qUnpin ops s3 k) = pins s1"
  using unpin_views [of s3 k] pins_nonneg [of s1 k] by simp

lemma ingest_existing_pins:
  assumes "ingest_existing ops now pkg v expected key s = (res, s')"
  shows "case res of Inl _ \<Rightarrow> pins s' = pins s
     | Inr e \<Rightarrow> pins s' = (pins s)(qeKey e := pins s (qeKey e) + 1) \<and> qeLease e = Some (qeKey e)"
  using assms by (auto simp: ingest_existing_def Let_def meta_touch_views dest!: pin_views split: sum.splits)

lemma ingest_new_pins:
  assumes "ingest_new ops now pkg v expected d r s = (res, s')" "inv s"
  shows "case res of Inl _ \<Rightarrow> pins s' = pins s
     | Inr e \<Rightarrow> pins s' = (pins s)(qeKey e := pins s (qeKey e) + 1) \<and> qeLease e = Some (qeKey e)"
proof -
  obtain pr s1 where put: "qPutVerified ops s (Key d) r d = (pr, s1)" by (cases "qPutVerified ops s (Key d) r d")
  have s1: "pins s1 = pins s" "inv s1" using put_pins [OF put] inv_put [OF assms(2) put] by auto
  show ?thesis
  proof (cases pr)
    case (Inl err)
    then show ?thesis using assms(1) put s1 meta_put_views by (auto simp: ingest_new_def Let_def split: if_splits)
  next
    case (Inr n)
    let ?m = "quarantine_meta (Key d) pkg v n StatusQuarantined now"
    show ?thesis
    proof (cases "qPin ops s1 (Key d)")
      case (Inl err)
      then show ?thesis using assms(1) put \<open>pr = Inr n\<close> s1 by (auto simp: ingest_new_def Let_def)
    next
      case (Inr s2)
      obtain me s3 where mp: "qMetaPut ops s2 now ?m = (me, s3)" by (cases "qMetaPut ops s2 now ?m")
      have p3: "pins s3 = (pins s1)(Key d := pins s1 (Key d) + 1)" using meta_put_eq [OF mp] pin_views [OF Inr] by simp
      show ?thesis
        using assms(1) put \<open>pr = Inr n\<close> Inr mp p3 s1 unpin_after_pin [OF s1(2) p3]
        by (auto simp: ingest_new_def Let_def split: option.splits)
    qed
  qed
qed

lemma ingest_pins:
  assumes "Ingest ops now pkg v expected r s = (res, s')" "inv s"
  shows "case res of Inl _ \<Rightarrow> pins s' = pins s
     | Inr e \<Rightarrow> pins s' = (pins s)(qeKey e := pins s (qeKey e) + 1) \<and> qeLease e = Some (qeKey e)"
proof (cases "ParseDigest expected")
  case (Inl err)
  then show ?thesis using assms(1) by (auto simp: Ingest_def)
next
  case (Inr d)
  then show ?thesis
    using assms ingest_existing_pins ingest_new_pins by (cases "qHas ops s (Key d)") (simp_all add: Ingest_def)
qed

lemma inspect_pins:
  assumes "Inspect ops untar j m mg clock e s = (res, e', s')" "qeLease e = Some (qeKey e)" "pins s (qeKey e) > 0"
  shows "pins s' = (pins s)(qeKey e := pins s (qeKey e) - 1)" "blob s' = blob s" "qeLease e' = None"
proof -
  obtain s1 where s1: "s' = qUnpin ops s1 (qeKey e)" "blob s1 = blob s" "pins s1 = pins s" "e' = e\<lparr>qeLease := None\<rparr>"
    using assms(1,2) views
    by (auto simp: Inspect_def Let_def release_lease_def split: sum.splits if_splits prod.splits)
  then show "pins s' = (pins s)(qeKey e := pins s (qeKey e) - 1)" "blob s' = blob s" "qeLease e' = None"
    using unpin_views [of s1 "qeKey e"] assms(3) by simp_all
qed

lemma release_views:
  assumes "VerifyAndRelease ops hash now key expected s = (res, s')" "inv s"
  shows "case res of Inl _ \<Rightarrow> pins s' = pins s
     | Inr st \<Rightarrow> pins s' = (pins s)(key := pins s key + 1) \<and> rsLease st = Some key" "blob s' = blob s"
proof -
  have unpin: "pins (qUnpin ops s1 key) = pins s" "blob (qUnpin ops s1 key) = blob s" if "qPin ops s key = Inr s1" for s1
    using unpin_after_pin [OF assms(2), of s1 key] pin_views [OF that] by auto
  show "case res of Inl _ \<Rightarrow> pins s' = pins s
     | Inr st \<Rightarrow> pins s' = (pins s)(key := pins s key + 1) \<and> rsLease st = Some key"
    using assms unpin views
    by (auto simp: VerifyAndRelease_def Let_def dest: pin_views split: sum.splits if_splits prod.splits)
  show "blob s' = blob s"
    using assms unpin views
    by (auto simp: VerifyAndRelease_def Let_def dest: pin_views split: sum.splits if_splits prod.splits)
qed

lemma release_digest:
  assumes "VerifyAndRelease ops hash now key expected s = (Inr st, s')"
  shows "\<exists>d. ParseDigest expected = Inr d \<and> hash (Algorithm d) (rsBytes st) = Bytes d \<and>
     rsSize st = int (length (rsBytes st)) \<and> blob s key = Some (rsBytes st)"
proof -
  obtain d where d: "ParseDigest expected = Inr d" using assms by (auto simp: VerifyAndRelease_def split: sum.splits)
  have h: "HasherFor hash (Algorithm d) = Inr (hash (Algorithm d))" by (rule HasherFor_wf [OF ParseDigest_wf [OF d]])
  obtain s1 n where s1: "qPin ops s key = Inr s1" "qGet ops s1 key = Inr (rsBytes st, n)" "hash (Algorithm d) (rsBytes st) = Bytes d"
      "rsSize st = n"
    using assms d h by (auto simp: VerifyAndRelease_def Let_def split: sum.splits if_splits prod.splits)
  then show ?thesis using d get_blob [OF s1(2)] pin_views [OF s1(1)] by auto
qed

text \<open>Content addressing: what is stored under the key of a digest has that digest.\<close>

definition content_addressed :: "'s \<Rightarrow> bool" where
  "content_addressed s = (\<forall>d data. wf_digest d \<longrightarrow> blob s (Key d) = Some data \<longrightarrow> hash (Algorithm d) data = Bytes d)"

lemma put_content_addressed:
  assumes "content_addressed s" "wf_digest d" "blob s (Key d) = None" "qPutVerified ops s (Key d) r d = (res, s')"
  shows "content_addressed s'"
  unfolding content_addressed_def
proof (intro allI impI)
  fix d' data assume w: "wf_digest d'" and b: "blob s' (Key d') = Some data"
  show "hash (Algorithm d') data = Bytes d'"
  proof (cases "Key d' = Key d")
    case True
    then have "d' = d" using Key_inj [OF w assms(2)] by simp
    moreover obtain n where "res = Inr n" using put_err [of s "Key d" r d _ s'] assms(3,4) b True by (cases res) auto
    ultimately show ?thesis using put_ok [of s "Key d" r d n s'] assms b by simp
  next
    case False
    then have "blob s (Key d') = Some data" using put_others [OF assms(4) False] b by auto
    then show ?thesis using assms(1) w by (simp add: content_addressed_def)
  qed
qed

lemma content_addressed_cong: "blob s' = blob s \<Longrightarrow> content_addressed s \<Longrightarrow> content_addressed s'"
  by (simp add: content_addressed_def)

lemma ingest_blob:
  assumes "Ingest ops now pkg v expected r s = (res, s')" "content_addressed s" "inv s"
  shows "content_addressed s'"
    "res = Inr e \<Longrightarrow> \<exists>d data. ParseDigest expected = Inr d \<and> qeKey e = Key d \<and> blob s' (Key d) = Some data"
proof -
  have "content_addressed s' \<and> (\<forall>e. res = Inr e \<longrightarrow>
      (\<exists>d data. ParseDigest expected = Inr d \<and> qeKey e = Key d \<and> blob s' (Key d) = Some data))"
  proof (cases "ParseDigest expected")
    case (Inl err)
    then show ?thesis using assms by (auto simp: Ingest_def)
  next
    case (Inr d)
    have w: "wf_digest d" by (rule ParseDigest_wf [OF Inr])
    show ?thesis
    proof (cases "qHas ops s (Key d)")
      case True
      then obtain data where "blob s (Key d) = Some data" using has_blob by blast
      moreover have "ingest_existing ops now pkg v expected (Key d) s = (res, s')"
        using assms(1) Inr True by (simp add: Ingest_def)
      then have "blob s' = blob s \<and> (\<forall>e. res = Inr e \<longrightarrow> qeKey e = Key d)"
        by (auto simp: ingest_existing_def Let_def meta_touch_views dest!: pin_views split: sum.splits)
      ultimately show ?thesis using Inr content_addressed_cong assms(2) by auto
    next
      case False
      then have none: "blob s (Key d) = None" using has_blob by simp
      have run: "ingest_new ops now pkg v expected d r s = (res, s')" using assms(1) Inr False by (simp add: Ingest_def)
      obtain pr s1 where put: "qPutVerified ops s (Key d) r d = (pr, s1)" by (cases "qPutVerified ops s (Key d) r d")
      have ca: "content_addressed s1" by (rule put_content_addressed [OF assms(2) w none put])
      show ?thesis
      proof (cases pr)
        case (Inl err)
        then have "blob s' = blob s1" "\<forall>e. res \<noteq> Inr e"
          using run put meta_put_views by (auto simp: ingest_new_def Let_def split: if_splits)
        then show ?thesis using ca content_addressed_cong by blast
      next
        case (Inr n)
        have b1: "blob s1 (Key d) = Some (rdBytes r)" using put_ok [of s "Key d" r d n s1] put Inr none w by simp
        have "blob s' = blob s1 \<and> (\<forall>e. res = Inr e \<longrightarrow> qeKey e = Key d)"
        proof (cases "qPin ops s1 (Key d)")
          case (Inl err)
          then show ?thesis using run put \<open>pr = Inr n\<close> by (auto simp: ingest_new_def Let_def)
        next
          case (Inr s2)
          note p2 = pin_views [OF Inr]
          let ?m = "quarantine_meta (Key d) pkg v n StatusQuarantined now"
          obtain me s3 where mp: "qMetaPut ops s2 now ?m = (me, s3)" by (cases "qMetaPut ops s2 now ?m")
          have p3: "blob s3 = blob s1" "pins s3 = (pins s1)(Key d := pins s1 (Key d) + 1)"
            using meta_put_eq [OF mp] p2 by auto
          then have "blob (qUnpin ops s3 (Key d)) = blob s1"
            using unpin_after_pin [OF inv_put [OF assms(3) put] p3(2)] by simp
          then show ?thesis
            using run put \<open>pr = Inr n\<close> Inr mp p3 by (auto simp: ingest_new_def Let_def split: option.splits)
        qed
        then show ?thesis using ca b1 content_addressed_cong \<open>ParseDigest expected = Inr d\<close> by auto
      qed
    qed
  qed
  then show "content_addressed s'"
    "res = Inr e \<Longrightarrow> \<exists>d data. ParseDigest expected = Inr d \<and> qeKey e = Key d \<and> blob s' (Key d) = Some data"
    by blast+
qed

end

section \<open>The disk store provides the contract\<close>

definition disk_ops :: "(string \<Rightarrow> string \<Rightarrow> string) \<Rightarrow> (io_step \<Rightarrow> bool) \<Rightarrow> DiskBlobStore Quarantine_ops" where
  "disk_ops hash io = \<lparr>qHas = Has, qPutVerified = (\<lambda>s key r d. PutVerified hash io key r d s), qGet = Get io,
     qPin = Pin, qUnpin = Unpin,
     qMetaPut = (\<lambda>s t m. map_prod id (\<lambda>ms. s\<lparr>bsMeta := ms\<rparr>) (Metadata_Put t m (bsMeta s))),
     qMetaGet = (\<lambda>s k. Metadata_Get k (bsMeta s)),
     qMetaTouch = (\<lambda>s k t. map_prod id (\<lambda>ms. s\<lparr>bsMeta := ms\<rparr>) (Metadata_Touch k t (bsMeta s))),
     qMetaStatus = (\<lambda>s k st. map_prod id (\<lambda>ms. s\<lparr>bsMeta := ms\<rparr>) (Metadata_UpdateStatus k st (bsMeta s)))\<rparr>"

definition disk_blob :: "DiskBlobStore \<Rightarrow> string \<Rightarrow> string option" where
  "disk_blob s k = map_of (bsBlobs s) k"

definition pins_ok :: "DiskBlobStore \<Rightarrow> bool" where
  "pins_ok s = (\<forall>n \<in> snd ` set (bsPins s). n > 0)"

lemma evictOne_views:
  "evictOneCandidateLocked io s = Some (n, s') \<Longrightarrow>
   bsPins s' = bsPins s \<and> (disk_blob s' j = disk_blob s j \<or> disk_blob s' j = None)"
  by (auto simp: evictOneCandidateLocked_def disk_blob_def Let_def split: option.splits if_splits)

lemma evict_loop_views:
  "bsPins (fst (evict_loop io w s)) = bsPins s \<and>
   (disk_blob (fst (evict_loop io w s)) j = disk_blob s j \<or> disk_blob (fst (evict_loop io w s)) j = None)"
proof (induction io w s rule: evict_loop.induct)
  case (1 io w s)
  show ?case
  proof (cases "bsCurrentBytes s + w > bsMaxBytes s \<and> evictOneCandidateLocked io s \<noteq> None")
    case False
    then have "fst (evict_loop io w s) = s" by (subst evict_loop.simps) (auto split: option.splits)
    then show ?thesis by simp
  next
    case True
    then obtain n s' where e: "evictOneCandidateLocked io s = Some (n, s')" by auto
    let ?t = "s'\<lparr>bsCurrentBytes := bsCurrentBytes s' - n\<rparr>"
    have "evict_loop io w s = evict_loop io w ?t" using True e by (subst evict_loop.simps) simp
    moreover have "bsPins ?t = bsPins s" "disk_blob ?t j = disk_blob s j \<or> disk_blob ?t j = None"
      using evictOne_views [OF e, of j] by (auto simp: disk_blob_def)
    ultimately show ?thesis using 1 [OF _ e refl] True by auto
  qed
qed

lemma PutVerified_views:
  assumes "PutVerified hash io k r d s = (res, s')"
  shows "bsPins s' = bsPins s" "j \<noteq> k \<Longrightarrow> disk_blob s' j = disk_blob s j \<or> disk_blob s' j = None"
    "res = Inl err \<Longrightarrow> disk_blob s k = None \<Longrightarrow> disk_blob s' k = None"
    "res = Inr n \<Longrightarrow> disk_blob s k = None \<Longrightarrow> wf_digest d \<Longrightarrow>
       disk_blob s' k = Some (rdBytes r) \<and> hash (Algorithm d) (rdBytes r) = Bytes d"
proof -
  let ?ev = "evict_loop io (int (length (rdBytes r))) s"
  let ?new = "(fst ?ev)\<lparr>bsBlobs := AList.update k (rdBytes r) (bsBlobs (fst ?ev)),
      bsCurrentBytes := bsCurrentBytes (fst ?ev) + int (length (rdBytes r))\<rparr>"
  have stage: "data = rdBytes r \<and> (wf_digest d \<longrightarrow> hash (Algorithm d) (rdBytes r) = Bytes d)"
    if "put_stage hash io r (Some d) mx = Inr data" for mx data
    using that HasherFor_wf [of d hash] by (auto simp: put_stage_def split: if_splits sum.splits)
  consider (same) "s' = s" "disk_blob s k = None \<longrightarrow> (\<exists>e. res = Inl e)"
    | (evicted) "s' = fst ?ev" "\<exists>e. res = Inl e" "disk_blob s k = None"
    | (new) "s' = ?new" "wf_digest d \<longrightarrow> hash (Algorithm d) (rdBytes r) = Bytes d" "disk_blob s k = None" "\<exists>n. res = Inr n"
    using assms stage
    by (fastforce simp: PutVerified_def putInternal_def put_commit_def disk_blob_def Let_def
        split: if_splits option.splits sum.splits prod.splits)
  note c = this
  show "bsPins s' = bsPins s" using c evict_loop_views [of io "int (length (rdBytes r))" s] by cases auto
  show "j \<noteq> k \<Longrightarrow> disk_blob s' j = disk_blob s j \<or> disk_blob s' j = None"
    using c evict_loop_views [of io "int (length (rdBytes r))" s j] by cases (auto simp: disk_blob_def)
  show "res = Inl err \<Longrightarrow> disk_blob s k = None \<Longrightarrow> disk_blob s' k = None"
    using c evict_loop_views [of io "int (length (rdBytes r))" s k] by cases auto
  show "res = Inr n \<Longrightarrow> disk_blob s k = None \<Longrightarrow> wf_digest d \<Longrightarrow>
       disk_blob s' k = Some (rdBytes r) \<and> hash (Algorithm d) (rdBytes r) = Bytes d"
    using c by cases (auto simp: disk_blob_def)
qed

lemma pin_count_fields_meta [simp]: "disk_blob (s\<lparr>bsMeta := m\<rparr>) = disk_blob s" "pins_ok (s\<lparr>bsMeta := m\<rparr>) = pins_ok s"
  by (simp_all add: disk_blob_def pins_ok_def fun_eq_iff)

lemma pins_ok_nonneg: "pins_ok s \<Longrightarrow> 0 \<le> pin_count s k"
  by (cases "map_of (bsPins s) k") (force simp: pin_count_def pins_ok_def dest: map_of_SomeD)+

lemma Pin_pins_ok:
  assumes "pins_ok s" "Pin s k = Inr s'" shows "pins_ok s'"
proof -
  have s': "bsPins s' = AList.update k (pin_count s k + 1) (bsPins s)" using assms(2) by (auto simp: Pin_def split: if_splits)
  have "pin_count s k + 1 > 0" using pins_ok_nonneg [OF assms(1), of k] by simp
  then show ?thesis
    using positive_insert [OF assms(1) [unfolded pins_ok_def] set_AList_update_subset [of k "pin_count s k + 1" "bsPins s"]]
    by (simp add: pins_ok_def s')
qed

lemma Unpin_pins_ok:
  assumes "pins_ok s" shows "pins_ok (Unpin s k)"
proof (cases "pin_count s k - 1 \<le> 0")
  case True
  then have "set (bsPins (Unpin s k)) \<subseteq> set (bsPins s)" by (auto simp: Unpin_def Let_def AList.delete_eq)
  then show ?thesis using assms unfolding pins_ok_def by blast
next
  case False
  then show ?thesis
    using positive_insert [OF assms [unfolded pins_ok_def] set_AList_update_subset [of k "pin_count s k - 1" "bsPins s"]]
    by (simp add: pins_ok_def Unpin_def Let_def)
qed

interpretation disk: blob_store "disk_ops hash io" hash disk_blob pin_count pins_ok
proof
  show "qPutVerified (disk_ops hash io) s k r d = (res, s') \<Longrightarrow> pin_count s' = pin_count s" for s k r d res s'
    using PutVerified_views(1) [of hash io k r d s res s'] by (simp add: disk_ops_def pin_count_def fun_eq_iff)
  show "pins_ok s \<Longrightarrow> qPutVerified (disk_ops hash io) s k r d = (res, s') \<Longrightarrow> pins_ok s'" for s k r d res s'
    using PutVerified_views(1) [of hash io k r d s res s'] by (simp add: disk_ops_def pins_ok_def)
  show "pins_ok s \<Longrightarrow> qPin (disk_ops hash io) s k = Inr s' \<Longrightarrow> pins_ok s'" for s k s'
    using Pin_pins_ok by (simp add: disk_ops_def)
  show "pins_ok s \<Longrightarrow> pins_ok (qUnpin (disk_ops hash io) s k)" for s k
    using Unpin_pins_ok by (simp add: disk_ops_def)
  show "pins_ok s \<Longrightarrow> 0 \<le> pin_count s k" for s k by (rule pins_ok_nonneg)
  show "qPutVerified (disk_ops hash io) s k r d = (Inr n, s') \<Longrightarrow> disk_blob s k = None \<Longrightarrow> wf_digest d \<Longrightarrow>
       disk_blob s' k = Some (rdBytes r) \<and> hash (Algorithm d) (rdBytes r) = Bytes d" for s k r d n s'
    using PutVerified_views(4) [of hash io k r d s "Inr n" s' n] by (simp add: disk_ops_def)
  show "qPutVerified (disk_ops hash io) s k r d = (Inl err, s') \<Longrightarrow> disk_blob s k = None \<Longrightarrow> disk_blob s' k = None" for s k r d err s'
    using PutVerified_views(3) [of hash io k r d s "Inl err" s' err] by (simp add: disk_ops_def)
  show "qPutVerified (disk_ops hash io) s k r d = (res, s') \<Longrightarrow> j \<noteq> k \<Longrightarrow> disk_blob s' j = disk_blob s j \<or> disk_blob s' j = None"
    for s k r d res s' j
    using PutVerified_views(2) [of hash io k r d s res s' j] by (simp add: disk_ops_def)
  show "qPin (disk_ops hash io) s k = Inr s' \<Longrightarrow>
      disk_blob s' = disk_blob s \<and> pin_count s' = (pin_count s)(k := pin_count s k + 1)" for s k s'
    by (auto simp: disk_ops_def Pin_def disk_blob_def pin_count_def fun_eq_iff split: if_splits)
  show "pin_count s k > 0 \<Longrightarrow>
      disk_blob (qUnpin (disk_ops hash io) s k) = disk_blob s \<and>
      pin_count (qUnpin (disk_ops hash io) s k) = (pin_count s)(k := pin_count s k - 1)" for s k
    by (auto simp: disk_ops_def Unpin_def disk_blob_def pin_count_def fun_eq_iff Let_def)
qed (auto simp: disk_ops_def disk_blob_def Has_def Get_def fun_eq_iff split: option.splits if_splits)

section \<open>Properties\<close>


definition const_hash :: "string \<Rightarrow> string \<Rightarrow> string" where
  "const_hash algo data = replicate 20 CHR ''x''"

definition quarantined_store :: DiskBlobStore where
  "quarantined_store = \<lparr>bsBlobs = [(Key sample_digest, ''tarball'')], bsStaging = [], bsMaxBytes = 100, bsMeta = [],
     bsPins = [], bsCurrentBytes = 7\<rparr>"

lemma sample_digest_fields: "Algorithm sample_digest = ''sha1''" "Bytes sample_digest = replicate 20 CHR ''x''"
  by (simp_all add: sample_digest_def mkDigest_def)

lemma sample_release:
  "VerifyAndRelease (disk_ops const_hash (\<lambda>_. True)) const_hash 5 (Key sample_digest) (Key sample_digest) quarantined_store
     = (Inr \<lparr>rsBytes = ''tarball'', rsSize = 7, rsLease = Some (Key sample_digest)\<rparr>,
        quarantined_store\<lparr>bsPins := [(Key sample_digest, 1)]\<rparr>)"
  using HasherFor_wf [OF sample_digest_wf, of const_hash]
  by (simp add: VerifyAndRelease_def ParseDigest_Key [OF sample_digest_wf] disk_ops_def Pin_def Has_def Get_def
      quarantined_store_def pin_count_def sample_digest_fields const_hash_def Metadata_UpdateStatus_def
      Metadata_Touch_def record_of_def Let_def)


text \<open>
  Leases are balanced: after ingestion and inspection of an archive, whatever the outcome of the
  inspection, every pin count is what it was before; a failed release leaves the counts unchanged and
  a successful one restores them when its stream is closed.
\<close>

lemma quarantine_leases_balanced:
  assumes "pins_ok s" "Ingest (disk_ops hash io) now pkg v expected r s = (Inr e, s1)"
    and "Inspect (disk_ops hash io) untar json_pkg matches mg clock e s1 = (res, e', s2)" "pins_ok s2"
    and "VerifyAndRelease (disk_ops hash io) hash now' key expected' s2 = (rel, s3)"
  shows "pin_count s2 = pin_count s \<and>
     (case rel of Inl _ \<Rightarrow> pin_count s3 = pin_count s
      | Inr st \<Rightarrow> pin_count (snd (releaseStream_Close (disk_ops hash io) st s3)) = pin_count s)"
proof -
  have i: "pin_count s1 = (pin_count s)(qeKey e := pin_count s (qeKey e) + 1)" "qeLease e = Some (qeKey e)"
    using disk.ingest_pins [OF assms(2,1)] by auto
  have "pin_count s1 (qeKey e) > 0" using i(1) pins_ok_nonneg [OF assms(1), of "qeKey e"] by simp
  then have s2: "pin_count s2 = pin_count s"
    using disk.inspect_pins(1) [OF assms(3) i(2)] i(1) by (simp add: fun_eq_iff)
  have "case rel of Inl _ \<Rightarrow> pin_count s3 = pin_count s2
      | Inr st \<Rightarrow> pin_count s3 = (pin_count s2)(key := pin_count s2 key + 1) \<and> rsLease st = Some key"
    by (rule disk.release_views(1) [OF assms(5,4)])
  then show ?thesis
    using s2 disk.unpin_after_pin [OF assms(4), of s3 key]
    by (cases rel) (auto simp: releaseStream_Close_def)
qed

definition sample_entry :: QuarantinedEntry where
  "sample_entry = \<lparr>qeKey = Key sample_digest, qeExpectedIntegrity = Key sample_digest, qePackage = ''ms'',
     qeVersion = ''1'', qeSize = 0, qeLease = Some (Key sample_digest)\<rparr>"

lemma sample_ingest:
  "Ingest (disk_ops const_hash (\<lambda>_. True)) 3 ''ms'' ''1'' (Key sample_digest) \<lparr>rdBytes = [], rdFails = False\<rparr> quarantined_store
     = (Inr sample_entry, quarantined_store\<lparr>bsPins := [(Key sample_digest, 1)]\<rparr>)"
  by (simp add: Ingest_def ingest_existing_def ParseDigest_Key [OF sample_digest_wf] disk_ops_def Pin_def Has_def
      quarantined_store_def sample_entry_def pin_count_def Metadata_Touch_def Metadata_Get_def record_of_def Let_def)

lemma sample_inspect:
  "Inspect (disk_ops const_hash (\<lambda>_. True)) (\<lambda>_. \<lparr>tsGzip = Some ErrGzipReader, tsEvents = [], tsCompressedRead = 0\<rparr>)
     (\<lambda>_. None) (\<lambda>_ _. False) \<lparr>mgLimits = DefaultArchiveLimits, mgInspectLimits = DefaultInspectLimits\<rparr> 4 sample_entry
     (quarantined_store\<lparr>bsPins := [(Key sample_digest, 1)]\<rparr>)
     = (Inl (ErrArchive ErrGzipReader), sample_entry\<lparr>qeLease := None\<rparr>, quarantined_store)"
  by (simp add: Inspect_def disk_ops_def Get_def quarantined_store_def sample_entry_def release_lease_def Unpin_def
      pin_count_def Metadata_UpdateStatus_def record_of_def InspectArchiveWithLimits_def ArchiveLimits_Validate_def
      InspectLimits_Validate_def DefaultArchiveLimits_def DefaultInspectLimits_def duration_defs Let_def)


lemma const_hash_content:
  "wf_digest d \<Longrightarrow> map_of (bsBlobs quarantined_store) (Key d) = Some data \<Longrightarrow> const_hash (Algorithm d) data = Bytes d"
  using Key_inj [OF _ sample_digest_wf, of d]
  by (auto simp: quarantined_store_def const_hash_def sample_digest_fields split: if_splits)


end
