(* ===== verification/Gateway.thy ===== *)
theory Gateway
  imports Engine Http Manager
begin

text \<open>
  The gateway handler of \<^verbatim>\<open>src/internal/gateway/transport.go\<close>. A request is handled as one
  sequence of steps over the state \<open>gw_state\<close>: the evaluator's state, the decision store, the
  blob store, the integrity index and the log of upstream requests. The environment record holds
  what is outside the program: the network, the decoders, the hash functions and the clock, which
  is read as one instant per request. A Go panic is the response \<open>aborted_response\<close>, the
  connection being closed by the server.
\<close>

section \<open>Environment, handler and state\<close>

record gateway_env =
  gwRegex :: regexes
  gwSha :: "string \<Rightarrow> string"
  gwNow :: gotime
  gwNetwork :: network
  gwHash :: "string \<Rightarrow> string \<Rightarrow> string"
  gwUntar :: "string \<Rightarrow> TarStream"
  gwPackageJSON :: "string \<Rightarrow> packageJSONSummary option"
  gwMatches :: "string \<Rightarrow> string \<Rightarrow> bool"
  gwGunzip :: "string \<Rightarrow> string option"
  gwPackument :: "string \<Rightarrow> (string \<times> string \<times> string) list option"
  gwParseURL :: "string \<Rightarrow> (string \<times> string) option"
  gwHealthJSON :: string
  gwForwarded :: "string \<Rightarrow> nat"
  gwErrorText :: "manager_error \<Rightarrow> string"

text \<open>An evaluation answers with a document, possibly none, or an error. Saving a decision is the
  effect of the store's \<^verbatim>\<open>Save\<close>, whose error the handler ignores.\<close>

type_synonym 'e evaluator = "string \<Rightarrow> string \<Rightarrow> 'e \<Rightarrow> (engine_error + DecisionDocument option) \<times> 'e"

record ('e, 'd, 'q) Handler =
  hTransport :: UpstreamTransport
  hEvaluator :: "'e evaluator option"
  hDecisionStore :: "(DecisionDocument \<Rightarrow> 'd \<Rightarrow> 'd) option"
  hQuarantine :: "('q Quarantine_ops \<times> Manager) option"
  hResolver :: "(string \<Rightarrow> string \<Rightarrow> string option) option"

record ('e, 'd, 'q) Config =
  cfgUpstreamBaseURL :: string
  cfgTimeout :: duration
  cfgMaxBodyBytes :: int
  cfgEvaluator :: "'e evaluator option"
  cfgDecisionStore :: "(DecisionDocument \<Rightarrow> 'd \<Rightarrow> 'd) option"
  cfgQuarantine :: "('q Quarantine_ops \<times> Manager) option"
  cfgIntegrityResolver :: "(string \<Rightarrow> string \<Rightarrow> string option) option"

text \<open>The index starts empty; the timeout and the body limit of the handler are the transport's.\<close>

definition NewHandler :: "(string \<Rightarrow> URL option) \<Rightarrow> ('e, 'd, 'q) Config \<Rightarrow> config_error + ('e, 'd, 'q) Handler \<times> IntegrityIndex" where
  "NewHandler parse cfg =
     (case NewUpstreamTransport parse (cfgUpstreamBaseURL cfg) (cfgTimeout cfg) (cfgMaxBodyBytes cfg) of
        Inl err \<Rightarrow> Inl err
      | Inr transport \<Rightarrow>
          Inr (\<lparr>hTransport = transport, hEvaluator = cfgEvaluator cfg, hDecisionStore = cfgDecisionStore cfg,
                hQuarantine = cfgQuarantine cfg, hResolver = cfgIntegrityResolver cfg\<rparr>, []))"

record ('e, 'd, 'q) gw_state =
  gsEval :: 'e
  gsDecisions :: 'd
  gsBlobs :: 'q
  gsIndex :: IntegrityIndex
  gsLog :: "upstream_request list"

definition aborted_response :: client_response where
  "aborted_response = \<lparr>crStatus = 0, crHeader = [], crBody = [], crAborted = True\<rparr>"

definition held_doc :: "DecisionDocument \<Rightarrow> bool" where
  "held_doc doc = (docVerdict doc = kind_string Block \<or> docVerdict doc = kind_string ApprovalRequired)"

section \<open>Documents made by the gateway\<close>

definition made_doc :: "gateway_env \<Rightarrow> string \<Rightarrow> string \<Rightarrow> Decision \<Rightarrow> Signal list \<Rightarrow> ProviderStates \<Rightarrow> DecisionDocument option" where
  "made_doc env pkg version dec signals states =
     (let now = Truncate (gwNow env) Millisecond;
          snap = NewSnapshot (gwSha env) pkg version signals states now in
      case NewDecisionDocument (gwRegex env) (gwSha env) (gwNow env) pkg version dec snap (emptyConfig\<lparr>refTime := now\<rparr>) of
        Inl _ \<Rightarrow> None
      | Inr doc \<Rightarrow> Some doc)"

definition makeIntegrityDecisionDoc :: "gateway_env \<Rightarrow> string \<Rightarrow> string \<Rightarrow> string \<Rightarrow> string \<Rightarrow> DecisionDocument option" where
  "makeIntegrityDecisionDoc env pkg version observation summary =
     (let now = Truncate (gwNow env) Millisecond in
      made_doc env pkg version
        \<lparr>decVerdict = Block, decReasons = [\<lparr>reasonRuleID = ''core.integrity-or-malicious'', reasonSummary = summary,
           reasonSignalKinds = [KindIntegrity]\<rparr>], decDegraded = False\<rparr>
        [\<lparr>sigKind = KindIntegrity, sigSource = ''quarantine'', sigObservation = observation, sigConfidence = ConfidenceHigh,
          sigRetrievedAt = now, sigFreshUntil = now + 24 * Hour\<rparr>]
        [(KindIntegrity, StateAvailable)])"

definition makeDangerousScriptDecisionDoc :: "gateway_env \<Rightarrow> string \<Rightarrow> string \<Rightarrow> ArchiveInspection \<Rightarrow> DecisionDocument option" where
  "makeDangerousScriptDecisionDoc env pkg version inspection =
     (let now = Truncate (gwNow env) Millisecond;
          scriptName = Join '', '' (DangerousScripts inspection);
          summary = ''dangerous install script detected in '' @ scriptName @
            (if DangerousReasons inspection = [] then [] else '': '' @ Join ''; '' (DangerousReasons inspection));
          signals = (if inspSignals inspection = []
            then [\<lparr>sigKind = KindInstallScript, sigSource = ''quarantine_inspect'', sigObservation = ''dangerous_script:'' @ scriptName,
                   sigConfidence = ConfidenceHigh, sigRetrievedAt = now, sigFreshUntil = now + 24 * Hour\<rparr>]
            else inspSignals inspection)
      in made_doc env pkg version
        \<lparr>decVerdict = Block, decReasons = [\<lparr>reasonRuleID = ''execution.dangerous-install-script'', reasonSummary = summary,
           reasonSignalKinds = [KindInstallScript]\<rparr>], decDegraded = Truncated inspection\<rparr>
        signals [(KindInstallScript, if Truncated inspection then StateDegraded else StateAvailable)])"

definition makeTruncatedInspectionDecisionDoc :: "gateway_env \<Rightarrow> string \<Rightarrow> string \<Rightarrow> ArchiveInspection \<Rightarrow> DecisionDocument option" where
  "makeTruncatedInspectionDecisionDoc env pkg version inspection =
     made_doc env pkg version
       \<lparr>decVerdict = Warn, decReasons = [\<lparr>reasonRuleID = ''execution.install-time'',
          reasonSummary = ''inspection limits were reached; analysis degraded'', reasonSignalKinds = [KindInstallScript]\<rparr>],
        decDegraded = True\<rparr>
       (inspSignals inspection) [(KindInstallScript, StateDegraded)]"

definition save_decision :: "('e, 'd, 'q) Handler \<Rightarrow> DecisionDocument option \<Rightarrow> ('e, 'd, 'q) gw_state \<Rightarrow> ('e, 'd, 'q) gw_state" where
  "save_decision h doc g =
     (case (hDecisionStore h, doc) of
        (Some save, Some d) \<Rightarrow> g\<lparr>gsDecisions := save d (gsDecisions g)\<rparr>
      | _ \<Rightarrow> g)"

text \<open>Saving and reporting a document; a nil document makes the report panic.\<close>

definition block_with :: "('e, 'd, 'q) Handler \<Rightarrow> DecisionDocument option \<Rightarrow> ('e, 'd, 'q) gw_state \<Rightarrow> client_response \<times> ('e, 'd, 'q) gw_state" where
  "block_with h doc g =
     ((case doc of None \<Rightarrow> aborted_response | Some d \<Rightarrow> WriteBlockedResponse d), save_decision h doc g)"

text \<open>One policy evaluation: the response that ends the request, if it does. \<open>mark\<close> is what the
  caller does to the document before looking at its verdict.\<close>

definition policy_gate ::
  "('e, 'd, 'q) Handler \<Rightarrow> (DecisionDocument \<Rightarrow> DecisionDocument) \<Rightarrow> string \<Rightarrow> string \<Rightarrow> ('e, 'd, 'q) gw_state \<Rightarrow>
   client_response option \<times> ('e, 'd, 'q) gw_state" where
  "policy_gate h mark pkg version g =
     (case hEvaluator h of
        None \<Rightarrow> (None, g)
      | Some ev \<Rightarrow>
          (case ev pkg version (gsEval g) of
             (Inl e, st) \<Rightarrow> (Some (http_error ''bad gateway: policy evaluation error'' 502), g\<lparr>gsEval := st\<rparr>)
           | (Inr None, st) \<Rightarrow> (None, g\<lparr>gsEval := st\<rparr>)
           | (Inr (Some doc), st) \<Rightarrow>
               let doc' = mark doc; g' = g\<lparr>gsEval := st\<rparr> in
               if held_doc doc' then (let (r, g'') = block_with h (Some doc') g' in (Some r, g'')) else (None, g')))"

section \<open>Integrity of a tarball\<close>

definition dist_integrity :: "string \<times> string \<times> string \<Rightarrow> string" where
  "dist_integrity d = (if fst (snd d) = [] then snd (snd d) else fst (snd d))"

definition packument_text :: "gateway_env \<Rightarrow> string \<Rightarrow> string" where
  "packument_text env data =
     (if length data \<ge> 2 \<and> byte (data ! 0) = 31 \<and> byte (data ! 1) = 139
      then (case gwGunzip env data of None \<Rightarrow> data | Some t \<Rightarrow> t) else data)"

definition indexPackumentIntegrities :: "gateway_env \<Rightarrow> string \<Rightarrow> string \<Rightarrow> IntegrityIndex \<Rightarrow> IntegrityIndex" where
  "indexPackumentIntegrities env pkg data idx =
     (if data = [] then idx
      else case gwPackument env (packument_text env data) of
        None \<Rightarrow> idx
      | Some versions \<Rightarrow>
          fold (\<lambda>d i. if dist_integrity d \<noteq> [] then IntegrityIndex_Set pkg (fst d) (dist_integrity d) i else i) versions idx)"

text \<open>\<open>gwParseURL\<close> gives the escaped path and the query of a URL that parses.\<close>

text \<open>The resolver of the handler, which is its own index unless the configuration names another.\<close>

definition resolver_lookup :: "('e, 'd, 'q) Handler \<Rightarrow> IntegrityIndex \<Rightarrow> string \<Rightarrow> string \<Rightarrow> string option" where
  "resolver_lookup h idx pkg version =
     (case hResolver h of None \<Rightarrow> ResolveIntegrity pkg version idx | Some f \<Rightarrow> f pkg version)"

definition resolveExpectedIntegrity ::
  "gateway_env \<Rightarrow> ('e, 'd, 'q) Handler \<Rightarrow> string \<Rightarrow> string \<Rightarrow> string \<Rightarrow> ('e, 'd, 'q) gw_state \<Rightarrow> string option \<times> ('e, 'd, 'q) gw_state" where
  "resolveExpectedIntegrity env h pkg version headerIntegrity g =
     (if headerIntegrity \<noteq> [] then (Some headerIntegrity, g)
      else case IntegrityIndex_Get pkg version (gsIndex g) of
        Some v \<Rightarrow> (Some v, g)
      | None \<Rightarrow>
          (case resolver_lookup h (gsIndex g) pkg version of
             Some (c # cs) \<Rightarrow> (Some (c # cs), g)
           | _ \<Rightarrow>
               (case gwParseURL env (''http://dummy/'' @ pkg) of
                  None \<Rightarrow> (None, g)
                | Some (path, query) \<Rightarrow>
                 let metaRoute = \<lparr>routeKind = Metadata, routePackage = pkg, routeVersion = []\<rparr>;
                     dummyReq = \<lparr>rqMethod = ''GET'', rqPath = path, rqQuery = query, rqHeader = [(''Accept'', [''application/json''])]\<rparr>
                 in (case RoundTrip (gwNetwork env) (hTransport h) metaRoute dummyReq (gsLog g) of
                       (Inl e, log) \<Rightarrow> (None, g\<lparr>gsLog := log\<rparr>)
                     | (Inr resp, log) \<Rightarrow>
                         let g1 = g\<lparr>gsLog := log\<rparr> in
                         if upStatus resp \<noteq> 200 \<or> rdFails (upBody resp) then (None, g1)
                         else
                           let g2 = g1\<lparr>gsIndex := indexPackumentIntegrities env pkg (rdBytes (upBody resp)) (gsIndex g1)\<rparr>
                           in (IntegrityIndex_Get pkg version (gsIndex g2), g2)))))"

section \<open>A quarantined tarball\<close>

text \<open>Steps 7 and 8: the second verification, and the delivery of the released stream.\<close>

definition tarball_release ::
  "gateway_env \<Rightarrow> ('e, 'd, 'q) Handler \<Rightarrow> 'q Quarantine_ops \<Rightarrow> Route \<Rightarrow> upstream_response \<Rightarrow> string \<Rightarrow> QuarantinedEntry \<Rightarrow>
   ('e, 'd, 'q) gw_state \<Rightarrow> client_response \<times> ('e, 'd, 'q) gw_state" where
  "tarball_release env h ops route resp expected entry g =
     (case VerifyAndRelease ops (gwHash env) (gwNow env) (qeKey entry) expected (gsBlobs g) of
        (Inl ErrMismatchSecond, s) \<Rightarrow>
          block_with h (makeIntegrityDecisionDoc env (routePackage route) (routeVersion route) ''mismatch''
            ''second integrity verification failed: blob modified or corrupted before release'') (g\<lparr>gsBlobs := s\<rparr>)
      | (Inl e, s) \<Rightarrow> (http_error ''bad gateway: quarantine release failed'' 502, g\<lparr>gsBlobs := s\<rparr>)
      | (Inr st, s) \<Rightarrow>
          (\<lparr>crStatus = 200,
            crHeader = header_set ''Content-Length'' (show_int (rsSize st))
              (header_set ''Content-Type'' ''application/octet-stream'' (copyResponseHeaders (upHeader resp) [])),
            crBody = rsBytes st, crAborted = False\<rparr>,
           g\<lparr>gsBlobs := snd (releaseStream_Close ops st s)\<rparr>))"

text \<open>Steps 5 and 6: static inspection and the evaluation after it.\<close>

definition tarball_inspect ::
  "gateway_env \<Rightarrow> ('e, 'd, 'q) Handler \<Rightarrow> 'q Quarantine_ops \<Rightarrow> Manager \<Rightarrow> Route \<Rightarrow> upstream_response \<Rightarrow> string \<Rightarrow> QuarantinedEntry \<Rightarrow>
   ('e, 'd, 'q) gw_state \<Rightarrow> client_response \<times> ('e, 'd, 'q) gw_state" where
  "tarball_inspect env h ops mg route resp expected entry g =
     (case Inspect ops (gwUntar env) (gwPackageJSON env) (gwMatches env) mg (gwNow env) entry (gsBlobs g) of
        (Inl e, entry', s) \<Rightarrow>
          block_with h (makeIntegrityDecisionDoc env (routePackage route) (routeVersion route) ''failed''
            (''quarantine inspection rejected unsafe archive structure: '' @ gwErrorText env e)) (g\<lparr>gsBlobs := s\<rparr>)
      | (Inr inspection, entry', s) \<Rightarrow>
          let g1 = g\<lparr>gsBlobs := s\<rparr> in
          if DangerousScripts inspection \<noteq> []
          then block_with h (makeDangerousScriptDecisionDoc env (routePackage route) (routeVersion route) inspection) g1
          else
            let g2 = (if Truncated inspection
                      then save_decision h (makeTruncatedInspectionDecisionDoc env (routePackage route) (routeVersion route) inspection) g1
                      else g1);
                mark = (if Truncated inspection then (\<lambda>d. d\<lparr>docDegraded := True\<rparr>) else (\<lambda>d. d))
            in (case policy_gate h mark (routePackage route) (routeVersion route) g2 of
                  (Some r, g3) \<Rightarrow> (r, g3)
                | (None, g3) \<Rightarrow> tarball_release env h ops route resp expected entry' g3))"

text \<open>Steps 3 and 4: the expected digest and the first verification.\<close>

definition tarball_ingest ::
  "gateway_env \<Rightarrow> ('e, 'd, 'q) Handler \<Rightarrow> 'q Quarantine_ops \<Rightarrow> Manager \<Rightarrow> Request \<Rightarrow> Route \<Rightarrow> upstream_response \<Rightarrow>
   ('e, 'd, 'q) gw_state \<Rightarrow> client_response \<times> ('e, 'd, 'q) gw_state" where
  "tarball_ingest env h ops mg req route resp g =
     (case resolveExpectedIntegrity env h (routePackage route) (routeVersion route) (header_get ''X-Package-Integrity'' (rqHeader req)) g of
        (Some (c # cs), g1) \<Rightarrow>
          (case Ingest ops (gwNow env) (routePackage route) (routeVersion route) (c # cs) (upBody resp) (gsBlobs g1) of
             (Inl ErrMismatchFirst, s) \<Rightarrow>
               block_with h (makeIntegrityDecisionDoc env (routePackage route) (routeVersion route) ''mismatch''
                 ''package integrity verification failed (checksum mismatch)'') (g1\<lparr>gsBlobs := s\<rparr>)
           | (Inl e, s) \<Rightarrow> (http_error ''bad gateway: quarantine ingestion failed'' 502, g1\<lparr>gsBlobs := s\<rparr>)
           | (Inr entry, s) \<Rightarrow> tarball_inspect env h ops mg route resp (c # cs) entry (g1\<lparr>gsBlobs := s\<rparr>))
      | (_, g1) \<Rightarrow>
          block_with h (makeIntegrityDecisionDoc env (routePackage route) (routeVersion route) ''unresolvable''
            ''upstream package integrity could not be resolved'') g1)"

text \<open>Steps 1 and 2: the evaluation before anything is fetched, and the fetch.\<close>

definition handleQuarantinedTarball ::
  "gateway_env \<Rightarrow> ('e, 'd, 'q) Handler \<Rightarrow> 'q Quarantine_ops \<Rightarrow> Manager \<Rightarrow> Request \<Rightarrow> Route \<Rightarrow> ('e, 'd, 'q) gw_state \<Rightarrow>
   client_response \<times> ('e, 'd, 'q) gw_state" where
  "handleQuarantinedTarball env h ops mg req route g =
     (case (if routePackage route \<noteq> [] then policy_gate h (\<lambda>d. d) (routePackage route) (routeVersion route) g else (None, g)) of
        (Some r, g1) \<Rightarrow> (r, g1)
      | (None, g1) \<Rightarrow>
          (case RoundTrip (gwNetwork env) (hTransport h) route req (gsLog g1) of
             (Inl e, log) \<Rightarrow> (handleRoundTripError e, g1\<lparr>gsLog := log\<rparr>)
           | (Inr resp, log) \<Rightarrow>
               let g2 = g1\<lparr>gsLog := log\<rparr> in
               if upStatus resp \<ge> 500 then (http_error ''bad gateway: upstream service error'' 502, g2)
               else if upStatus resp \<noteq> 200
               then (\<lparr>crStatus = upStatus resp, crHeader = copyResponseHeaders (upHeader resp) [], crBody = [], crAborted = False\<rparr>, g2)
               else tarball_ingest env h ops mg req route resp g2))"

section \<open>The handler\<close>

text \<open>The body of a passed-through response. When it exceeds the limit the connection is aborted
  after \<open>gwForwarded\<close> of its bytes; when the upstream breaks off, what was read has been sent.\<close>

definition forward_body :: "gateway_env \<Rightarrow> int \<Rightarrow> Reader \<Rightarrow> string \<times> bool" where
  "forward_body env limit body =
     (if limit > 0 \<and> int (length (rdBytes body)) > limit
      then (take (gwForwarded env (rdBytes body)) (rdBytes body), True)
      else (rdBytes body, False))"

definition pass_through ::
  "gateway_env \<Rightarrow> ('e, 'd, 'q) Handler \<Rightarrow> Request \<Rightarrow> Route \<Rightarrow> ('e, 'd, 'q) gw_state \<Rightarrow> client_response \<times> ('e, 'd, 'q) gw_state" where
  "pass_through env h req route g =
     (case RoundTrip (gwNetwork env) (hTransport h) route req (gsLog g) of
        (Inl e, log) \<Rightarrow> (handleRoundTripError e, g\<lparr>gsLog := log\<rparr>)
      | (Inr resp, log) \<Rightarrow>
          let g1 = g\<lparr>gsLog := log\<rparr>; hd = copyResponseHeaders (upHeader resp) [] in
          if upStatus resp \<ge> 500 then (http_error ''bad gateway: upstream service error'' 502, g1)
          else if rqMethod req = ''HEAD'' \<or> upStatus resp = 304
          then (\<lparr>crStatus = upStatus resp, crHeader = hd, crBody = [], crAborted = False\<rparr>, g1)
          else
            let (sent, over) = forward_body env (utMaxBodyBytes (hTransport h)) (upBody resp);
                r = \<lparr>crStatus = upStatus resp, crHeader = hd, crBody = sent, crAborted = over\<rparr>
            in if over \<or> rdFails (upBody resp) then (r, g1)
               else if routeKind route = Metadata \<and> upStatus resp = 200
               then (r, g1\<lparr>gsIndex := indexPackumentIntegrities env (routePackage route) sent (gsIndex g1)\<rparr>)
               else (r, g1))"

definition json_response :: "Request \<Rightarrow> string \<Rightarrow> client_response" where
  "json_response req body =
     \<lparr>crStatus = 200, crHeader = [(''Content-Type'', [''application/json; charset=utf-8''])],
      crBody = (if rqMethod req = ''HEAD'' then [] else body @ nl), crAborted = False\<rparr>"

definition ServeHTTP ::
  "gateway_env \<Rightarrow> ('e, 'd, 'q) Handler \<Rightarrow> Request \<Rightarrow> ('e, 'd, 'q) gw_state \<Rightarrow> client_response \<times> ('e, 'd, 'q) gw_state" where
  "ServeHTTP env h req g =
     (if header_get ''Authorization'' (rqHeader req) \<noteq> [] \<or> header_get ''Proxy-Authorization'' (rqHeader req) \<noteq> []
      then (http_error ''unsupported request: authenticated and private registry flows are not supported'' 400, g)
      else
        let route = Classify (rqMethod req) (rqPath req) in
        case routeKind route of
          Health \<Rightarrow> (json_response req (gwHealthJSON env), g)
        | Ready \<Rightarrow> (json_response req (json_object [(''ready'', ''true''), (''status'', json_string ''ok'')]), g)
        | Unsupported \<Rightarrow>
            if rqMethod req \<noteq> ''GET'' \<and> rqMethod req \<noteq> ''HEAD''
            then (let r = http_error (''unsupported method '' @ Quote (rqMethod req) @ '': only GET and HEAD read requests are supported'') 405
                  in (r\<lparr>crHeader := header_set ''Allow'' ''GET, HEAD'' (crHeader r)\<rparr>, g))
            else (http_error (''unsupported route '' @ Quote (rqPath req) @ '': only public package metadata and tarball routes are supported'') 400, g)
        | _ \<Rightarrow>
            (case (if routeKind route = Tarball \<and> rqMethod req = ''GET'' then hQuarantine h else None) of
               Some (ops, mg) \<Rightarrow> handleQuarantinedTarball env h ops mg req route g
             | None \<Rightarrow>
                 (case (if routePackage route \<noteq> [] \<and> routeVersion route \<noteq> []
                        then policy_gate h (\<lambda>d. d) (routePackage route) (routeVersion route) g else (None, g)) of
                    (Some r, g1) \<Rightarrow> (r, g1)
                  | (None, g1) \<Rightarrow> pass_through env h req route g1)))"

section \<open>Evaluations\<close>

text \<open>An evaluation that lets a request continue.\<close>

definition cleared :: "engine_error + DecisionDocument option \<Rightarrow> bool" where
  "cleared r = (case r of Inl _ \<Rightarrow> False | Inr None \<Rightarrow> True | Inr (Some d) \<Rightarrow> \<not> held_doc d)"

text \<open>Whether the handler's evaluation of a release clears it, and the evaluator's state after it.\<close>

definition clears :: "('e, 'd, 'q) Handler \<Rightarrow> string \<Rightarrow> string \<Rightarrow> 'e \<Rightarrow> bool" where
  "clears h pkg v e = (case hEvaluator h of None \<Rightarrow> True | Some ev \<Rightarrow> cleared (fst (ev pkg v e)))"

definition evaluated :: "('e, 'd, 'q) Handler \<Rightarrow> string \<Rightarrow> string \<Rightarrow> 'e \<Rightarrow> 'e" where
  "evaluated h pkg v e = (case hEvaluator h of None \<Rightarrow> e | Some ev \<Rightarrow> snd (ev pkg v e))"

lemma block_with_status: "block_with h doc g = (r, g') \<Longrightarrow> crStatus r \<noteq> 200"
  by (auto simp: block_with_def aborted_response_def WriteBlockedResponse_def Let_def split: option.splits)

lemma save_decision_fields [simp]:
  "gsEval (save_decision h doc g) = gsEval g" "gsBlobs (save_decision h doc g) = gsBlobs g"
  "gsIndex (save_decision h doc g) = gsIndex g" "gsLog (save_decision h doc g) = gsLog g"
  by (simp_all add: save_decision_def split: option.split)

lemma block_with_fields:
  "block_with h doc g = (r, g') \<Longrightarrow> gsEval g' = gsEval g \<and> gsBlobs g' = gsBlobs g \<and> gsLog g' = gsLog g \<and> gsIndex g' = gsIndex g"
  by (auto simp: block_with_def)

lemma policy_gate_None:
  assumes "policy_gate h mark pkg v g = (None, g')" "\<And>d. docVerdict (mark d) = docVerdict d"
  shows "clears h pkg v (gsEval g) \<and> g' = g\<lparr>gsEval := evaluated h pkg v (gsEval g)\<rparr>"
  using assms
  by (auto simp: policy_gate_def clears_def evaluated_def cleared_def held_doc_def Let_def
      split: option.splits sum.splits prod.splits if_splits)

lemma policy_gate_Some:
  assumes "policy_gate h mark pkg v g = (Some r, g')"
  shows "crStatus r \<noteq> 200 \<and> gsBlobs g' = gsBlobs g \<and> gsLog g' = gsLog g \<and> gsIndex g' = gsIndex g"
  using assms block_with_status block_with_fields
  by (fastforce simp: policy_gate_def Let_def http_error_def split: option.splits sum.splits prod.splits if_splits)

lemma policy_gate_log:
  assumes "policy_gate h mark pkg v g = (r, g')"
  shows "gsLog g' = gsLog g"
proof (cases r)
  case (Some a)
  then show ?thesis using policy_gate_Some [of h mark pkg v g a g'] assms by simp
next
  case None
  then show ?thesis
    using assms by (auto simp: policy_gate_def Let_def split: option.splits sum.splits prod.splits if_splits)
qed

lemma block_with_blobs [simp]: "gsBlobs (snd (block_with h doc g)) = gsBlobs g"
  by (simp add: block_with_def)

lemma policy_gate_blobs: "gsBlobs (snd (policy_gate h mark pkg v g)) = gsBlobs g"
  by (simp add: policy_gate_def Let_def case_prod_beta split: option.split sum.split prod.split)

lemma handleRoundTripError_status: "crStatus (handleRoundTripError e) \<noteq> 200"
  by (cases e) (simp_all add: http_error_def)

lemma resolve_fields:
  assumes "resolveExpectedIntegrity env h pkg v hdr g = (r, g')"
  shows "gsEval g' = gsEval g \<and> gsBlobs g' = gsBlobs g"
  using assms by (auto simp: resolveExpectedIntegrity_def Let_def split: if_splits option.splits list.splits sum.splits prod.splits)

text \<open>The digest a tarball is held to: the client's header, else what the index knows.\<close>

definition known_integrity :: "Request \<Rightarrow> Route \<Rightarrow> ('e, 'd, 'q) gw_state \<Rightarrow> string \<Rightarrow> bool" where
  "known_integrity req route g expected =
     (let hdr = header_get ''X-Package-Integrity'' (rqHeader req) in
      if hdr \<noteq> [] then expected = hdr
      else case IntegrityIndex_Get (routePackage route) (routeVersion route) (gsIndex g) of None \<Rightarrow> True | Some e \<Rightarrow> expected = e)"

lemma resolve_known:
  assumes "resolveExpectedIntegrity env h (routePackage route) (routeVersion route) (header_get ''X-Package-Integrity'' (rqHeader req)) g = (Some e, g')"
  shows "known_integrity req route g e"
  using assms by (auto simp: resolveExpectedIntegrity_def known_integrity_def Let_def split: option.splits)

section \<open>The way of a quarantined tarball\<close>

context blob_store
begin

lemma tarball_release_200:
  assumes "tarball_release env h ops route resp expected entry g = (r, g')" "crStatus r = 200" "gwHash env = hash"
  shows "\<exists>d. ParseDigest expected = Inr d \<and> hash (Algorithm d) (crBody r) = Bytes d \<and>
     blob (gsBlobs g) (qeKey entry) = Some (crBody r)"
proof -
  obtain st s' where v: "VerifyAndRelease ops hash (gwNow env) (qeKey entry) expected (gsBlobs g) = (Inr st, s')" "crBody r = rsBytes st"
    using assms block_with_status by (fastforce simp: tarball_release_def http_error_def split: prod.splits sum.splits manager_error.splits)
  then show ?thesis using release_digest [OF v(1)] by auto
qed

lemma inspect_Inr:
  assumes "Inspect ops untar j m mg clock e s = (Inr insp, e', s')"
  shows "\<exists>data. blob s (qeKey e) = Some data \<and> qeKey e' = qeKey e \<and>
     InspectArchiveWithLimits j m clock (untar data) (mgLimits mg) (mgInspectLimits mg) [] = Inr insp"
  using assms get_blob by (fastforce simp: Inspect_def Let_def split: sum.splits if_splits prod.splits)

lemma tarball_inspect_200:
  assumes run: "tarball_inspect env h ops mg route resp expected entry g = (r, g')" and ok: "crStatus r = 200" "gwHash env = hash"
    and lease: "qeLease entry = Some (qeKey entry)" "pins (gsBlobs g) (qeKey entry) > 0"
  shows "\<exists>d insp. ParseDigest expected = Inr d \<and> hash (Algorithm d) (crBody r) = Bytes d \<and>
     InspectArchiveWithLimits (gwPackageJSON env) (gwMatches env) (gwNow env) (gwUntar env (crBody r)) (mgLimits mg) (mgInspectLimits mg) [] = Inr insp \<and>
     DangerousScripts insp = [] \<and> clears h (routePackage route) (routeVersion route) (gsEval g)"
proof -
  obtain ires entry' s where i: "Inspect ops (gwUntar env) (gwPackageJSON env) (gwMatches env) mg (gwNow env) entry (gsBlobs g) = (ires, entry', s)"
    by (cases "Inspect ops (gwUntar env) (gwPackageJSON env) (gwMatches env) mg (gwNow env) entry (gsBlobs g)") auto
  obtain insp where insp: "ires = Inr insp" "DangerousScripts insp = []"
    using run ok block_with_status by (cases ires) (fastforce simp: tarball_inspect_def i Let_def split: if_splits)+
  define g2 where "g2 = (if Truncated insp
      then save_decision h (makeTruncatedInspectionDecisionDoc env (routePackage route) (routeVersion route) insp) (g\<lparr>gsBlobs := s\<rparr>)
      else g\<lparr>gsBlobs := s\<rparr>)"
  define mark :: "DecisionDocument \<Rightarrow> DecisionDocument" where "mark = (if Truncated insp then (\<lambda>d. d\<lparr>docDegraded := True\<rparr>) else (\<lambda>d. d))"
  obtain pr g3 where pg: "policy_gate h mark (routePackage route) (routeVersion route) g2 = (pr, g3)"
    by (cases "policy_gate h mark (routePackage route) (routeVersion route) g2")
  have run': "(case pr of Some r \<Rightarrow> (r, g3) | None \<Rightarrow> tarball_release env h ops route resp expected entry' g3) = (r, g')"
    using run pg insp by (simp add: tarball_inspect_def i Let_def g2_def mark_def split: option.split)
  have n: "pr = None" using run' ok(1) policy_gate_Some [of h mark _ _ g2 _ g3] pg by (cases pr) auto
  have mv: "docVerdict (mark d) = docVerdict d" for d by (simp add: mark_def)
  have c: "clears h (routePackage route) (routeVersion route) (gsEval g)" "gsBlobs g3 = s"
    using policy_gate_None [OF pg [unfolded n] mv] by (simp_all add: g2_def split: if_splits)
  have rel: "tarball_release env h ops route resp expected entry' g3 = (r, g')" using run' n by simp
  obtain d where d: "ParseDigest expected = Inr d" "hash (Algorithm d) (crBody r) = Bytes d" "blob s (qeKey entry') = Some (crBody r)"
    using tarball_release_200 [OF rel ok] c(2) by auto
  have "blob s = blob (gsBlobs g)" by (rule inspect_pins(2) [OF i lease])
  then show ?thesis using inspect_Inr [OF i [unfolded insp(1)]] d c(1) insp(2) by auto
qed

lemma tarball_ingest_200:
  assumes run: "tarball_ingest env h ops mg req route resp g = (r, g')" and ok: "crStatus r = 200" "gwHash env = hash"
    and inv: "inv (gsBlobs g)"
  shows "\<exists>expected d insp. ParseDigest expected = Inr d \<and> hash (Algorithm d) (crBody r) = Bytes d \<and>
     known_integrity req route g expected \<and>
     InspectArchiveWithLimits (gwPackageJSON env) (gwMatches env) (gwNow env) (gwUntar env (crBody r)) (mgLimits mg) (mgInspectLimits mg) [] = Inr insp \<and>
     DangerousScripts insp = [] \<and> clears h (routePackage route) (routeVersion route) (gsEval g)"
proof -
  let ?re = "resolveExpectedIntegrity env h (routePackage route) (routeVersion route) (header_get ''X-Package-Integrity'' (rqHeader req)) g"
  obtain ro g1 where ro: "?re = (ro, g1)" by (cases ?re)
  have fields: "gsEval g1 = gsEval g" "gsBlobs g1 = gsBlobs g" using resolve_fields [OF ro] by auto
  have "ro \<noteq> None \<and> ro \<noteq> Some []"
    using run ok(1) block_with_status by (cases "(ro, g1)" rule: prod.exhaust) (fastforce simp: tarball_ingest_def ro split: option.splits)
  then obtain c cs where e: "ro = Some (c # cs)" by (cases ro) (auto simp: neq_Nil_conv)
  obtain ir s where i: "Ingest ops (gwNow env) (routePackage route) (routeVersion route) (c # cs) (upBody resp) (gsBlobs g) = (ir, s)"
    by (cases "Ingest ops (gwNow env) (routePackage route) (routeVersion route) (c # cs) (upBody resp) (gsBlobs g)")
  obtain entry where en: "ir = Inr entry"
    using run ok(1) block_with_status
    by (cases ir) (fastforce simp: tarball_ingest_def ro e i fields http_error_def split: manager_error.splits)+
  have run': "tarball_inspect env h ops mg route resp (c # cs) entry (g1\<lparr>gsBlobs := s\<rparr>) = (r, g')"
    using run by (simp add: tarball_ingest_def ro e i fields en)
  have p: "pins s = (pins (gsBlobs g))(qeKey entry := pins (gsBlobs g) (qeKey entry) + 1)" "qeLease entry = Some (qeKey entry)"
    using ingest_pins [OF i inv] en by auto
  have "pins s (qeKey entry) > 0" using p(1) pins_nonneg [OF inv, of "qeKey entry"] by simp
  then show ?thesis using tarball_inspect_200 [OF run' ok p(2)] fields(1) resolve_known [OF ro [unfolded e]] by auto
qed

text \<open>No path of the handler keeps a lease.\<close>

lemma inspect_inv: "inv s \<Longrightarrow> Inspect ops untar j m mg clock e s = (res, e', s') \<Longrightarrow> inv s'"
  using inv_meta inv_unpin by (fastforce simp: Inspect_def Let_def release_lease_def split: sum.splits if_splits prod.splits option.splits)

lemma release_inv: "inv s \<Longrightarrow> VerifyAndRelease ops hash now key expected s = (res, s') \<Longrightarrow> inv s'"
  using inv_meta inv_unpin inv_pin by (fastforce simp: VerifyAndRelease_def Let_def split: sum.splits if_splits prod.splits)

lemma ingest_new_inv:
  assumes "inv s" "ingest_new ops now pkg v expected d r s = (res, s')"
  shows "inv s'"
proof -
  obtain pr s1 where put: "qPutVerified ops s (Key d) r d = (pr, s1)" by (cases "qPutVerified ops s (Key d) r d")
  have i1: "inv s1" by (rule inv_put [OF assms(1) put])
  have mp: "inv s4" if "inv s3" "qMetaPut ops s3 t m = (e, s4)" for s3 t m e s4 using inv_meta [OF that(1), of t m] that(2) by simp
  have mp2: "inv s3" if "qPin ops s1 (Key d) = Inr s2" "qMetaPut ops s2 t m = (e, s3)" for s2 t m e s3
    by (rule mp [OF inv_pin [OF i1 that(1)] that(2)])
  show ?thesis
    using assms(2) i1 inv_meta [OF i1]
    by (cases pr) (auto simp: ingest_new_def Let_def put intro: mp2 inv_unpin split: sum.splits if_splits prod.splits option.splits)
qed

lemma ingest_inv:
  assumes "inv s" "Ingest ops now pkg v expected r s = (res, s')"
  shows "inv s'"
proof -
  have "inv s2" if "ingest_existing ops now pkg v expected k s = (res, s2)" for k s2
    using that inv_pin [OF assms(1)] inv_meta assms(1) by (fastforce simp: ingest_existing_def Let_def split: sum.splits)
  then show ?thesis
    using assms ingest_new_inv [OF assms(1)] by (auto simp: Ingest_def split: sum.splits if_splits)
qed

lemma tarball_release_pins:
  assumes "inv (gsBlobs g)" "gwHash env = hash"
  shows "inv (gsBlobs (snd (tarball_release env h ops route resp expected entry g))) \<and>
     pins (gsBlobs (snd (tarball_release env h ops route resp expected entry g))) = pins (gsBlobs g)"
proof -
  obtain vr s where v: "VerifyAndRelease ops hash (gwNow env) (qeKey entry) expected (gsBlobs g) = (vr, s)"
    by (cases "VerifyAndRelease ops hash (gwNow env) (qeKey entry) expected (gsBlobs g)")
  note w = release_views(1) [OF v assms(1)] and i = release_inv [OF assms(1) v]
  have b: "gsBlobs (snd (block_with h doc g')) = gsBlobs g'" for doc g' by (simp add: block_with_def)
  show ?thesis
  proof (cases vr)
    case (Inl e)
    then show ?thesis using w i v assms(2) by (cases e) (simp_all add: tarball_release_def b)
  next
    case (Inr st)
    then show ?thesis using w i v assms inv_unpin unpin_after_pin [OF assms(1), of s "qeKey entry"]
      by (simp add: tarball_release_def releaseStream_Close_def)
  qed
qed

lemma tarball_inspect_pins:
  assumes "inv (gsBlobs g)" "gwHash env = hash" "qeLease entry = Some (qeKey entry)" "pins (gsBlobs g) (qeKey entry) > 0"
  shows "inv (gsBlobs (snd (tarball_inspect env h ops mg route resp expected entry g))) \<and>
     pins (gsBlobs (snd (tarball_inspect env h ops mg route resp expected entry g)))
       = (pins (gsBlobs g))(qeKey entry := pins (gsBlobs g) (qeKey entry) - 1)"
proof -
  obtain ires entry' s where i: "Inspect ops (gwUntar env) (gwPackageJSON env) (gwMatches env) mg (gwNow env) entry (gsBlobs g) = (ires, entry', s)"
    by (cases "Inspect ops (gwUntar env) (gwPackageJSON env) (gwMatches env) mg (gwNow env) entry (gsBlobs g)") auto
  note p = inspect_pins(1) [OF i assms(3,4)] and v = inspect_inv [OF assms(1) i]
  have "inv (gsBlobs (snd (case policy_gate h mark pkg ver g2 of (Some r, g3) \<Rightarrow> (r, g3)
       | (None, g3) \<Rightarrow> tarball_release env h ops route resp expected entry' g3))) \<and>
     pins (gsBlobs (snd (case policy_gate h mark pkg ver g2 of (Some r, g3) \<Rightarrow> (r, g3)
       | (None, g3) \<Rightarrow> tarball_release env h ops route resp expected entry' g3))) = pins s"
    if "gsBlobs g2 = s" for mark pkg ver g2
    using policy_gate_blobs [of h mark pkg ver g2] that v
      tarball_release_pins [OF _ assms(2), of _ h route resp expected entry']
    by (cases "policy_gate h mark pkg ver g2") (auto split: option.split)
  then show ?thesis using p v by (cases ires) (auto simp: tarball_inspect_def i Let_def)
qed

lemma tarball_ingest_pins:
  assumes "inv (gsBlobs g)" "gwHash env = hash"
  shows "inv (gsBlobs (snd (tarball_ingest env h ops mg req route resp g))) \<and>
     pins (gsBlobs (snd (tarball_ingest env h ops mg req route resp g))) = pins (gsBlobs g)"
proof -
  let ?re = "resolveExpectedIntegrity env h (routePackage route) (routeVersion route) (header_get ''X-Package-Integrity'' (rqHeader req)) g"
  obtain ro g1 where ro: "?re = (ro, g1)" by (cases ?re)
  have f: "gsBlobs g1 = gsBlobs g" using resolve_fields [OF ro] by simp
  have "inv (gsBlobs (snd (case Ingest ops (gwNow env) (routePackage route) (routeVersion route) e (upBody resp) (gsBlobs g1) of
        (Inl ErrMismatchFirst, s) \<Rightarrow> block_with h d1 (g1\<lparr>gsBlobs := s\<rparr>)
      | (Inl err, s) \<Rightarrow> (d2, g1\<lparr>gsBlobs := s\<rparr>)
      | (Inr entry, s) \<Rightarrow> tarball_inspect env h ops mg route resp e entry (g1\<lparr>gsBlobs := s\<rparr>)))) \<and>
     pins (gsBlobs (snd (case Ingest ops (gwNow env) (routePackage route) (routeVersion route) e (upBody resp) (gsBlobs g1) of
        (Inl ErrMismatchFirst, s) \<Rightarrow> block_with h d1 (g1\<lparr>gsBlobs := s\<rparr>)
      | (Inl err, s) \<Rightarrow> (d2, g1\<lparr>gsBlobs := s\<rparr>)
      | (Inr entry, s) \<Rightarrow> tarball_inspect env h ops mg route resp e entry (g1\<lparr>gsBlobs := s\<rparr>)))) = pins (gsBlobs g)" for e d1 d2
  proof -
    obtain ir s where i: "Ingest ops (gwNow env) (routePackage route) (routeVersion route) e (upBody resp) (gsBlobs g1) = (ir, s)"
      by (cases "Ingest ops (gwNow env) (routePackage route) (routeVersion route) e (upBody resp) (gsBlobs g1)")
    have v: "inv s" using ingest_inv [OF _ i] assms(1) f by simp
    have p: "case ir of Inl _ \<Rightarrow> pins s = pins (gsBlobs g)
      | Inr en \<Rightarrow> pins s = (pins (gsBlobs g))(qeKey en := pins (gsBlobs g) (qeKey en) + 1) \<and> qeLease en = Some (qeKey en)"
      using ingest_pins [OF i] assms(1) unfolding f by simp
    show ?thesis
    proof (cases ir)
      case (Inl err)
      then show ?thesis using i p v by (cases err) simp_all
    next
      case (Inr en)
      then show ?thesis
        using i p v pins_nonneg [OF assms(1), of "qeKey en"]
          tarball_inspect_pins [of "g1\<lparr>gsBlobs := s\<rparr>" env en h mg route resp e] assms(2) by simp
    qed
  qed
  then show ?thesis using f assms(1) by (simp add: tarball_ingest_def ro split: option.split list.split)
qed

lemma handleQuarantinedTarball_pins:
  assumes "inv (gsBlobs g)" "gwHash env = hash"
  shows "inv (gsBlobs (snd (handleQuarantinedTarball env h ops mg req route g))) \<and>
     pins (gsBlobs (snd (handleQuarantinedTarball env h ops mg req route g))) = pins (gsBlobs g)"
proof -
  obtain pr g1 where pg: "(if routePackage route \<noteq> [] then policy_gate h (\<lambda>d. d) (routePackage route) (routeVersion route) g else (None, g)) = (pr, g1)"
    by fastforce
  have f: "gsBlobs g1 = gsBlobs g"
    using pg policy_gate_blobs [of h "\<lambda>d. d" "routePackage route" "routeVersion route" g] by (auto split: if_splits)
  obtain rr log where rt: "RoundTrip (gwNetwork env) (hTransport h) route req (gsLog g1) = (rr, log)"
    by (cases "RoundTrip (gwNetwork env) (hTransport h) route req (gsLog g1)")
  show ?thesis
    using f assms(1) tarball_ingest_pins [of "g1\<lparr>gsLog := log\<rparr>", OF _ assms(2), of h mg req route]
    unfolding handleQuarantinedTarball_def pg by (cases pr; cases rr) (simp_all add: rt Let_def)
qed

lemma handleQuarantinedTarball_200:
  assumes run: "handleQuarantinedTarball env h ops mg req route g = (r, g')" and ok: "crStatus r = 200" "gwHash env = hash"
    and inv: "inv (gsBlobs g)" and pkg: "routePackage route \<noteq> []"
  shows "clears h (routePackage route) (routeVersion route) (gsEval g) \<and>
     clears h (routePackage route) (routeVersion route) (evaluated h (routePackage route) (routeVersion route) (gsEval g)) \<and>
     (\<exists>expected d insp. ParseDigest expected = Inr d \<and> hash (Algorithm d) (crBody r) = Bytes d \<and>
       known_integrity req route g expected \<and>
       InspectArchiveWithLimits (gwPackageJSON env) (gwMatches env) (gwNow env) (gwUntar env (crBody r)) (mgLimits mg) (mgInspectLimits mg) [] = Inr insp \<and>
       DangerousScripts insp = [])"
proof -
  obtain pr g1 where pg: "policy_gate h (\<lambda>d. d) (routePackage route) (routeVersion route) g = (pr, g1)"
    by (cases "policy_gate h (\<lambda>d. d) (routePackage route) (routeVersion route) g")
  have n: "pr = None" using run ok(1) pkg policy_gate_Some [of h "\<lambda>d. d" _ _ g _ g1] pg
    by (cases pr) (auto simp: handleQuarantinedTarball_def)
  note c = policy_gate_None [OF pg [unfolded n] refl]
  obtain rr log where rt: "RoundTrip (gwNetwork env) (hTransport h) route req (gsLog g1) = (rr, log)"
    by (cases "RoundTrip (gwNetwork env) (hTransport h) route req (gsLog g1)")
  obtain resp where resp: "rr = Inr resp" "upStatus resp = 200"
    using run ok(1) pkg handleRoundTripError_status
    by (cases rr) (auto simp: handleQuarantinedTarball_def pg n rt Let_def http_error_def split: if_splits)
  have run': "tarball_ingest env h ops mg req route resp (g1\<lparr>gsLog := log\<rparr>) = (r, g')"
    using run pkg resp by (simp add: handleQuarantinedTarball_def pg n rt Let_def)
  have "\<exists>expected d insp. ParseDigest expected = Inr d \<and> hash (Algorithm d) (crBody r) = Bytes d \<and>
     known_integrity req route (g1\<lparr>gsLog := log\<rparr>) expected \<and>
     InspectArchiveWithLimits (gwPackageJSON env) (gwMatches env) (gwNow env) (gwUntar env (crBody r)) (mgLimits mg) (mgInspectLimits mg) [] = Inr insp \<and>
     DangerousScripts insp = [] \<and> clears h (routePackage route) (routeVersion route) (gsEval (g1\<lparr>gsLog := log\<rparr>))"
    using tarball_ingest_200 [OF run' ok] inv c by simp
  moreover have "known_integrity req route (g1\<lparr>gsLog := log\<rparr>) = known_integrity req route g"
    using c by (simp add: known_integrity_def fun_eq_iff)
  ultimately show ?thesis using c by auto
qed

end

lemma packageAndRest_nonempty: "packageAndRest parts = Some (n, rest) \<Longrightarrow> n \<noteq> []"
  unfolding packageAndRest_def by (fastforce split: list.splits if_splits)

lemma Classify_kind_package:
  assumes "routeKind (Classify m raw) = Tarball"
  shows "routePackage (Classify m raw) \<noteq> []"
proof -
  obtain decoded where d: "PathUnescape raw = Some decoded" "m = ''GET'' \<or> m = ''HEAD''"
    using assms by (auto simp: Classify_def unsupported_route_def split: if_splits option.splits)
  define path where "path = TrimByte CHR ''/'' decoded"
  obtain n rest where n: "packageAndRest (Split CHR ''/'' path) = Some (n, rest)" "routePackage (Classify m raw) = n"
    using assms d unfolding Classify_def Let_def path_def
    by (simp add: unsupported_route_def split: if_splits option.splits prod.splits)
  then show ?thesis using packageAndRest_nonempty by simp
qed

section \<open>What reaches the upstream\<close>

definition log_extends :: "UpstreamTransport \<Rightarrow> upstream_request list \<Rightarrow> upstream_request list \<Rightarrow> bool" where
  "log_extends t log log' = (\<exists>ups. log' = log @ ups \<and> list_all (clean_request t) ups)"

lemma log_extends_refl [simp]: "log_extends t log log"
  by (simp add: log_extends_def)

lemma log_extends_trans: "log_extends t a b \<Longrightarrow> log_extends t b c \<Longrightarrow> log_extends t a c"
  unfolding log_extends_def by (metis append_assoc list_all_append)

lemma RoundTrip_extends:
  assumes "RoundTrip rt t route req log = (r, log')" "rqMethod req = ''GET'' \<or> rqMethod req = ''HEAD''"
  shows "log_extends t log log'"
  using RoundTrip_log [OF assms] by (auto simp: log_extends_def)

lemma resolve_extends:
  assumes "resolveExpectedIntegrity env h pkg v hdr g = (r, g')"
  shows "log_extends (hTransport h) (gsLog g) (gsLog g')"
  using assms RoundTrip_extends
  by (auto simp: resolveExpectedIntegrity_def Let_def split: if_splits option.splits list.splits sum.splits prod.splits)

lemma block_with_log [simp]: "gsLog (snd (block_with h doc g)) = gsLog g"
  by (simp add: block_with_def)

lemma policy_gate_log_snd [simp]: "gsLog (snd (policy_gate h mark pkg v g)) = gsLog g"
  using policy_gate_log by (cases "policy_gate h mark pkg v g") auto

lemma tarball_release_log [simp]: "gsLog (snd (tarball_release env h ops route resp expected entry g)) = gsLog g"
  by (simp add: tarball_release_def split: prod.split sum.split manager_error.split)

lemma tarball_inspect_log [simp]: "gsLog (snd (tarball_inspect env h ops mg route resp expected entry g)) = gsLog g"
proof -
  obtain ires entry' s where i: "Inspect ops (gwUntar env) (gwPackageJSON env) (gwMatches env) mg (gwNow env) entry (gsBlobs g) = (ires, entry', s)"
    by (cases "Inspect ops (gwUntar env) (gwPackageJSON env) (gwMatches env) mg (gwNow env) entry (gsBlobs g)") auto
  have "gsLog (snd (case policy_gate h mark pkg v g2 of (Some r, g3) \<Rightarrow> (r, g3)
     | (None, g3) \<Rightarrow> tarball_release env h ops route resp expected entry' g3)) = gsLog g2" for mark pkg v g2
    using policy_gate_log_snd [of h mark pkg v g2] by (cases "policy_gate h mark pkg v g2") (auto split: option.split)
  then show ?thesis by (cases ires) (auto simp: tarball_inspect_def i Let_def)
qed

lemma tarball_ingest_extends:
  assumes "tarball_ingest env h ops mg req route resp g = (r, g')"
  shows "log_extends (hTransport h) (gsLog g) (gsLog g')"
proof -
  let ?re = "resolveExpectedIntegrity env h (routePackage route) (routeVersion route) (header_get ''X-Package-Integrity'' (rqHeader req)) g"
  obtain ro g1 where ro: "?re = (ro, g1)" by (cases ?re)
  have "gsLog (snd (tarball_ingest env h ops mg req route resp g)) = gsLog g1"
    by (simp add: tarball_ingest_def ro split: option.split list.split prod.split sum.split manager_error.split)
  then have "gsLog g' = gsLog g1" using assms by simp
  then show ?thesis using resolve_extends [OF ro] by simp
qed

lemma handleQuarantinedTarball_extends:
  assumes "handleQuarantinedTarball env h ops mg req route g = (r, g')" "rqMethod req = ''GET'' \<or> rqMethod req = ''HEAD''"
  shows "log_extends (hTransport h) (gsLog g) (gsLog g')"
proof -
  obtain pr g1 where pg: "(if routePackage route \<noteq> [] then policy_gate h (\<lambda>d. d) (routePackage route) (routeVersion route) g else (None, g)) = (pr, g1)"
    by fastforce
  have l: "gsLog g1 = gsLog g" using pg policy_gate_log by (auto split: if_splits)
  obtain rr log where rt: "RoundTrip (gwNetwork env) (hTransport h) route req (gsLog g1) = (rr, log)"
    by (cases "RoundTrip (gwNetwork env) (hTransport h) route req (gsLog g1)")
  note e = RoundTrip_extends [OF rt assms(2)]
  show ?thesis
    using assms(1) e l log_extends_trans [OF e tarball_ingest_extends [of env h ops mg req route _ "g1\<lparr>gsLog := log\<rparr>" r g', simplified]]
    unfolding handleQuarantinedTarball_def pg
    by (auto simp: rt [unfolded l] Let_def split: option.splits sum.splits if_splits)
qed

lemma pass_through_extends:
  assumes "pass_through env h req route g = (r, g')" "rqMethod req = ''GET'' \<or> rqMethod req = ''HEAD''"
  shows "log_extends (hTransport h) (gsLog g) (gsLog g')"
  using assms(1) RoundTrip_extends [OF _ assms(2)]
  by (fastforce simp: pass_through_def Let_def split: sum.splits prod.splits if_splits)

lemma ServeHTTP_extends:
  assumes "ServeHTTP env h req g = (r, g')"
  shows "log_extends (hTransport h) (gsLog g) (gsLog g')"
proof -
  define route where "route = Classify (rqMethod req) (rqPath req)"
  obtain pr g1 where pg: "(if routePackage route \<noteq> [] \<and> routeVersion route \<noteq> []
      then policy_gate h (\<lambda>d. d) (routePackage route) (routeVersion route) g else (None, g)) = (pr, g1)"
    by fastforce
  have l: "gsLog g1 = gsLog g" using pg policy_gate_log by (auto split: if_splits)
  have m: "rqMethod req = ''GET'' \<or> rqMethod req = ''HEAD'' \<or> routeKind route = Unsupported"
    by (auto simp: route_def Classify_def unsupported_route_def)
  show ?thesis
    using assms l m handleQuarantinedTarball_extends [of env h _ _ req route g r g'] pass_through_extends [of env h req route g1]
    unfolding ServeHTTP_def Let_def route_def [symmetric] pg
    by (auto split: if_splits RequestKind.splits option.splits)
qed

section \<open>Properties\<close>

text \<open>
  C1. No tarball is delivered unchecked. When a GET for a tarball is answered with status 200 by a
  gateway with a quarantine, the bytes sent have the digest the client or the integrity index
  names, the archive inspection accepted exactly these bytes and found no dangerous install
  script, and both evaluations of the release, before the fetch and after the inspection, cleared it.
\<close>

theorem delivered_tarball_was_cleared:
  assumes "ServeHTTP env h req g = (r, g')" "crStatus r = 200" "rqMethod req = ''GET''"
    and "route = Classify (rqMethod req) (rqPath req)" "routeKind route = Tarball"
    and "hQuarantine h = Some (disk_ops (gwHash env) io, mg)" "pins_ok (gsBlobs g)"
  shows "clears h (routePackage route) (routeVersion route) (gsEval g) \<and>
     clears h (routePackage route) (routeVersion route) (evaluated h (routePackage route) (routeVersion route) (gsEval g)) \<and>
     (\<exists>expected d insp. ParseDigest expected = Inr d \<and> gwHash env (Algorithm d) (crBody r) = Bytes d \<and>
       known_integrity req route g expected \<and>
       InspectArchiveWithLimits (gwPackageJSON env) (gwMatches env) (gwNow env) (gwUntar env (crBody r)) (mgLimits mg) (mgInspectLimits mg) [] = Inr insp \<and>
       DangerousScripts insp = [])"
proof -
  have "handleQuarantinedTarball env h (disk_ops (gwHash env) io) mg req route g = (r, g')"
    using assms(1-6) by (auto simp: ServeHTTP_def Let_def http_error_def split: if_splits)
  from disk.handleQuarantinedTarball_200 [OF this assms(2) refl assms(7)] show ?thesis
    using Classify_kind_package assms(4,5) by blast
qed

text \<open>
  C29. No request leaks a lease: whatever the outcome of a request, error, block or delivery, every
  blob has as many pins after it as before, so a finished request never keeps a blob from eviction.
\<close>

theorem request_leaves_no_lease:
  assumes "pins_ok (gsBlobs g)" "\<And>ops mg. hQuarantine h = Some (ops, mg) \<Longrightarrow> ops = disk_ops (gwHash env) io"
    and "ServeHTTP env h req g = (r, g')"
  shows "pins_ok (gsBlobs g') \<and> pin_count (gsBlobs g') = pin_count (gsBlobs g)"
proof -
  define route where "route = Classify (rqMethod req) (rqPath req)"
  have pt: "gsBlobs (snd (pass_through env h req route g1)) = gsBlobs g1" for g1
    by (simp add: pass_through_def Let_def case_prod_beta split: sum.split prod.split)
  have q: "pins_ok (gsBlobs (snd (handleQuarantinedTarball env h (disk_ops (gwHash env) io) mg req route g))) \<and>
     pin_count (gsBlobs (snd (handleQuarantinedTarball env h (disk_ops (gwHash env) io) mg req route g))) = pin_count (gsBlobs g)" for mg
    by (rule disk.handleQuarantinedTarball_pins [OF assms(1) refl])
  obtain pr g1 where pg: "(if routePackage route \<noteq> [] \<and> routeVersion route \<noteq> []
      then policy_gate h (\<lambda>d. d) (routePackage route) (routeVersion route) g else (None, g)) = (pr, g1)"
    by fastforce
  have f: "gsBlobs g1 = gsBlobs g"
    using pg policy_gate_blobs [of h "\<lambda>d. d" "routePackage route" "routeVersion route" g] by (auto split: if_splits)
  have "pins_ok (gsBlobs (snd (ServeHTTP env h req g))) \<and> pin_count (gsBlobs (snd (ServeHTTP env h req g))) = pin_count (gsBlobs g)"
    unfolding ServeHTTP_def Let_def route_def [symmetric] pg
    using assms(1) q assms(2) f pt by (auto split: RequestKind.split option.split)
  then show ?thesis using assms(3) by simp
qed

text \<open>
  C8. A held release is never fetched. When the evaluation of a tarball request gives a document
  that blocks or waits for approval, the response is the 403 naming the decision, the decision is
  saved, and nothing else happens: no upstream request, no blob. When the evaluation fails, the
  request fails closed with 502.
\<close>

theorem held_package_never_fetched:
  assumes "route = Classify (rqMethod req) (rqPath req)" "routeKind route = Tarball" "routeVersion route \<noteq> []"
    and "header_get ''Authorization'' (rqHeader req) = []" "header_get ''Proxy-Authorization'' (rqHeader req) = []"
    and "hEvaluator h = Some ev" "ev (routePackage route) (routeVersion route) (gsEval g) = (res, st)"
  shows "(\<forall>doc. res = Inr (Some doc) \<and> held_doc doc \<longrightarrow>
      ServeHTTP env h req g = (WriteBlockedResponse doc, save_decision h (Some doc) (g\<lparr>gsEval := st\<rparr>))) \<and>
    (\<forall>e. res = Inl e \<longrightarrow>
      ServeHTTP env h req g = (http_error ''bad gateway: policy evaluation error'' 502, g\<lparr>gsEval := st\<rparr>))"
proof -
  have pkg: "routePackage route \<noteq> []" using Classify_kind_package assms(1,2) by simp
  have gate: "ServeHTTP env h req g = out"
    if "policy_gate h (\<lambda>d. d) (routePackage route) (routeVersion route) g = (Some (fst out), snd out)" for out
    using that pkg assms(2-5) unfolding ServeHTTP_def Let_def assms(1) [symmetric]
    by (auto simp: handleQuarantinedTarball_def split: option.split)
  show ?thesis
    using assms(6,7) by (intro conjI allI impI gate) (auto simp: policy_gate_def block_with_def Let_def)
qed

text \<open>
  C26. Nothing of the client's credentials reaches the upstream. Every upstream request sent while a
  request is handled is a GET or HEAD to the scheme and host of the configured upstream and carries
  no Authorization, Proxy-Authorization, Cookie or hop-by-hop header in any spelling; a request that
  carries authorization is refused with 400 and sends nothing.
\<close>

theorem no_credentials_upstream:
  assumes "ServeHTTP env h req g = (r, g')"
  shows "\<exists>ups. gsLog g' = gsLog g @ ups \<and> list_all (clean_request (hTransport h)) ups \<and>
    (header_get ''Authorization'' (rqHeader req) \<noteq> [] \<longrightarrow> ups = [] \<and> crStatus r = 400)"
  using ServeHTTP_extends [OF assms] assms
  by (auto simp: log_extends_def ServeHTTP_def http_error_def split: if_splits)

section \<open>Witnesses\<close>

definition sample_env :: gateway_env where
  "sample_env = \<lparr>gwRegex = (\<lambda>_ t. t), gwSha = (\<lambda>t. t), gwNow = 5,
     gwNetwork = (\<lambda>_. Inr \<lparr>upStatus = 200, upHeader = [], upContentLength = 7, upBody = \<lparr>rdBytes = ''tarball'', rdFails = False\<rparr>\<rparr>),
     gwHash = const_hash, gwUntar = (\<lambda>_. \<lparr>tsGzip = None, tsEvents = [], tsCompressedRead = 0\<rparr>),
     gwPackageJSON = (\<lambda>_. None), gwMatches = (\<lambda>_ _. False), gwGunzip = (\<lambda>_. None), gwPackument = (\<lambda>_. None),
     gwParseURL = (\<lambda>_. None), gwHealthJSON = [], gwForwarded = length, gwErrorText = (\<lambda>_. [])\<rparr>"

definition sample_handler :: "DecisionDocument option \<Rightarrow> (nat, DecisionDocument list, DiskBlobStore) Handler" where
  "sample_handler answer = \<lparr>hTransport = \<lparr>utURL = \<lparr>urlScheme = ''https'', urlHost = ''r'', urlPath = ''/'', urlRawPath = [], urlRawQuery = []\<rparr>,
       utTimeout = 1, utMaxBodyBytes = 100\<rparr>,
     hEvaluator = Some (\<lambda>_ _ n. (Inr answer, n + 1)), hDecisionStore = Some (\<lambda>d ds. ds @ [d]),
     hQuarantine = Some (disk_ops const_hash (\<lambda>_. True), \<lparr>mgLimits = DefaultArchiveLimits, mgInspectLimits = DefaultInspectLimits\<rparr>),
     hResolver = None\<rparr>"

definition sample_request :: Request where
  "sample_request = \<lparr>rqMethod = ''GET'', rqPath = ''/ms/-/ms-1.0.0.tgz'', rqQuery = [],
     rqHeader = [(''X-Package-Integrity'', [Key sample_digest]), (''Cookie'', [''s''])]\<rparr>"

definition sample_gateway :: "(nat, DecisionDocument list, DiskBlobStore) gw_state" where
  "sample_gateway = \<lparr>gsEval = 0, gsDecisions = [], gsBlobs = quarantined_store, gsIndex = [], gsLog = []\<rparr>"

lemma sample_route: "Classify ''GET'' ''/ms/-/ms-1.0.0.tgz'' = \<lparr>routeKind = Tarball, routePackage = ''ms'', routeVersion = ''1.0.0''\<rparr>"
  by code_simp

lemmas sample_gateway_defs = sample_env_def sample_handler_def sample_request_def sample_gateway_def

definition kept_entry :: QuarantinedEntry where
  "kept_entry = sample_entry\<lparr>qeVersion := ''1.0.0''\<rparr>"

lemma kept_ingest:
  "Ingest (disk_ops const_hash (\<lambda>_. True)) 5 ''ms'' ''1.0.0'' (Key sample_digest) body quarantined_store
     = (Inr kept_entry, quarantined_store\<lparr>bsPins := [(Key sample_digest, 1)]\<rparr>)"
  by (simp add: Ingest_def ingest_existing_def ParseDigest_Key [OF sample_digest_wf] disk_ops_def Pin_def Has_def kept_entry_def
      quarantined_store_def sample_entry_def pin_count_def Metadata_Touch_def Metadata_Get_def record_of_def Let_def)

lemma empty_archive:
  "\<exists>insp. InspectArchiveWithLimits (\<lambda>_. None) (\<lambda>_ _. False) 5 \<lparr>tsGzip = None, tsEvents = [], tsCompressedRead = 0\<rparr>
     DefaultArchiveLimits DefaultInspectLimits [] = Inr insp \<and> DangerousScripts insp = [] \<and> \<not> Truncated insp"
proof -
  have "isl (InspectArchiveWithLimits (\<lambda>_. None) (\<lambda>_ _. False) 5 \<lparr>tsGzip = None, tsEvents = [], tsCompressedRead = 0\<rparr>
     DefaultArchiveLimits DefaultInspectLimits []) = False \<and> DangerousScripts (projr (InspectArchiveWithLimits (\<lambda>_. None) (\<lambda>_ _. False) 5 \<lparr>tsGzip = None, tsEvents = [], tsCompressedRead = 0\<rparr>
     DefaultArchiveLimits DefaultInspectLimits [])) = [] \<and> \<not> Truncated (projr (InspectArchiveWithLimits (\<lambda>_. None) (\<lambda>_ _. False) 5 \<lparr>tsGzip = None, tsEvents = [], tsCompressedRead = 0\<rparr>
     DefaultArchiveLimits DefaultInspectLimits []))" by code_simp
  then show ?thesis by (metis isl_def sum.collapse(2))
qed

lemma kept_inspect:
  "\<exists>insp. Inspect (disk_ops const_hash (\<lambda>_. True)) (\<lambda>_. \<lparr>tsGzip = None, tsEvents = [], tsCompressedRead = 0\<rparr>)
     (\<lambda>_. None) (\<lambda>_ _. False) \<lparr>mgLimits = DefaultArchiveLimits, mgInspectLimits = DefaultInspectLimits\<rparr> 5 kept_entry
     (quarantined_store\<lparr>bsPins := [(Key sample_digest, 1)]\<rparr>)
     = (Inr insp, kept_entry\<lparr>qeLease := None\<rparr>, quarantined_store) \<and> DangerousScripts insp = [] \<and> \<not> Truncated insp"
  using empty_archive
  by (fastforce simp: Inspect_def disk_ops_def Get_def quarantined_store_def kept_entry_def sample_entry_def release_lease_def Unpin_def
      pin_count_def Metadata_UpdateStatus_def record_of_def Let_def)

lemma sample_gate: "policy_gate (sample_handler None) mark pkg v g = (None, g\<lparr>gsEval := gsEval g + 1\<rparr>)"
  by (simp add: policy_gate_def sample_handler_def)

lemma kept_delivery:
  assumes "gsBlobs g = quarantined_store\<lparr>bsPins := [(Key sample_digest, 1)]\<rparr>"
  shows "crStatus (fst (tarball_inspect sample_env (sample_handler None) (disk_ops const_hash (\<lambda>_. True))
      \<lparr>mgLimits = DefaultArchiveLimits, mgInspectLimits = DefaultInspectLimits\<rparr> route resp (Key sample_digest) kept_entry g)) = 200"
proof -
  have k: "qeKey kept_entry = Key sample_digest" by (simp add: kept_entry_def sample_entry_def)
  have "crStatus (fst (tarball_release sample_env (sample_handler None) (disk_ops const_hash (\<lambda>_. True)) route resp
      (Key sample_digest) (kept_entry\<lparr>qeLease := None\<rparr>) g)) = 200" if "gsBlobs g = quarantined_store" for g
    using that sample_release k by (simp add: tarball_release_def sample_env_def)
  then show ?thesis using kept_inspect sample_gate assms by (auto simp: tarball_inspect_def sample_env_def Let_def)
qed

lemma kept_ingested:
  assumes "gsBlobs g = quarantined_store" "routePackage route = ''ms''" "routeVersion route = ''1.0.0''"
  shows "crStatus (fst (tarball_ingest sample_env (sample_handler None) (disk_ops const_hash (\<lambda>_. True))
      \<lparr>mgLimits = DefaultArchiveLimits, mgInspectLimits = DefaultInspectLimits\<rparr> sample_request route resp g)) = 200"
proof -
  obtain c cs where kc: "Key sample_digest = c # cs" by (cases "Key sample_digest") (auto simp: Key_def)
  have "header_get ''X-Package-Integrity'' (rqHeader sample_request) = Key sample_digest"
    by (simp add: sample_request_def header_get_def)
  then show ?thesis
    using kept_delivery [of "g\<lparr>gsBlobs := quarantined_store\<lparr>bsPins := [(Key sample_digest, 1)]\<rparr>\<rparr>"] kept_ingest assms
    by (simp add: tarball_ingest_def resolveExpectedIntegrity_def kc) (simp add: sample_env_def)
qed

lemma sample_target:
  "isl (buildUpstreamURL \<lparr>urlScheme = ''https'', urlHost = ''r'', urlPath = ''/'', urlRawPath = [], urlRawQuery = []\<rparr>
     \<lparr>routeKind = Tarball, routePackage = ''ms'', routeVersion = ''1.0.0''\<rparr> ''/ms/-/ms-1.0.0.tgz'') = False"
  by code_simp

lemma sample_delivery:
  "crStatus (fst (ServeHTTP sample_env (sample_handler None) sample_request sample_gateway)) = 200"
proof -
  let ?route = "\<lparr>routeKind = Tarball, routePackage = ''ms'', routeVersion = ''1.0.0''\<rparr>"
  obtain u where u: "buildUpstreamURL \<lparr>urlScheme = ''https'', urlHost = ''r'', urlPath = ''/'', urlRawPath = [], urlRawQuery = []\<rparr>
      ?route ''/ms/-/ms-1.0.0.tgz'' = Inr u"
    using sum.collapse(2) [symmetric] sample_target by blast
  then have "fst (RoundTrip (gwNetwork sample_env) (hTransport (sample_handler None)) ?route sample_request [])
      = Inr \<lparr>upStatus = 200, upHeader = [], upContentLength = 7, upBody = \<lparr>rdBytes = ''tarball'', rdFails = False\<rparr>\<rparr>"
    by (simp add: RoundTrip_def sample_gateway_defs Let_def)
  then obtain log where rt: "RoundTrip (gwNetwork sample_env) (hTransport (sample_handler None)) ?route sample_request []
      = (Inr \<lparr>upStatus = 200, upHeader = [], upContentLength = 7, upBody = \<lparr>rdBytes = ''tarball'', rdFails = False\<rparr>\<rparr>, log)"
    by (metis prod.collapse)
  have q: "crStatus (fst (handleQuarantinedTarball sample_env (sample_handler None) (disk_ops const_hash (\<lambda>_. True))
      \<lparr>mgLimits = DefaultArchiveLimits, mgInspectLimits = DefaultInspectLimits\<rparr> sample_request ?route sample_gateway)) = 200"
    using kept_ingested by (simp add: handleQuarantinedTarball_def sample_gate rt sample_gateway_def Let_def)
  have h: "hQuarantine (sample_handler None) = Some (disk_ops const_hash (\<lambda>_. True), \<lparr>mgLimits = DefaultArchiveLimits, mgInspectLimits = DefaultInspectLimits\<rparr>)"
    by (simp add: sample_handler_def)
  show ?thesis using q h sample_route by (simp add: ServeHTTP_def Let_def) (simp add: sample_request_def header_get_def)
qed

theorem delivered_tarball_was_cleared_witness:
  "\<exists>d. ParseDigest (Key sample_digest) = Inr d \<and>
     const_hash (Algorithm d) (crBody (fst (ServeHTTP sample_env (sample_handler None) sample_request sample_gateway))) = Bytes d"
proof -
  have route: "\<lparr>routeKind = Tarball, routePackage = ''ms'', routeVersion = ''1.0.0''\<rparr> = Classify (rqMethod sample_request) (rqPath sample_request)"
    using sample_route by (simp add: sample_request_def)
  have q: "hQuarantine (sample_handler None) = Some (disk_ops (gwHash sample_env) (\<lambda>_. True), \<lparr>mgLimits = DefaultArchiveLimits, mgInspectLimits = DefaultInspectLimits\<rparr>)"
    by (simp add: sample_gateway_defs)
  have p: "pins_ok (gsBlobs sample_gateway)" by (simp add: sample_gateway_defs pins_ok_def quarantined_store_def)
  have k: "header_get ''X-Package-Integrity'' (rqHeader sample_request) = Key sample_digest" "Key sample_digest \<noteq> []"
    by (simp_all add: sample_request_def header_get_def Key_def)
  obtain expected d where e: "ParseDigest expected = Inr d"
      "gwHash sample_env (Algorithm d) (crBody (fst (ServeHTTP sample_env (sample_handler None) sample_request sample_gateway))) = Bytes d"
      "known_integrity sample_request \<lparr>routeKind = Tarball, routePackage = ''ms'', routeVersion = ''1.0.0''\<rparr> sample_gateway expected"
    using delivered_tarball_was_cleared [OF prod.collapse [symmetric] sample_delivery _ route _ q p]
    by (auto simp: sample_request_def)
  then show ?thesis using k by (auto simp: known_integrity_def sample_env_def)
qed

theorem request_leaves_no_lease_witness:
  "pin_count (gsBlobs (snd (ServeHTTP sample_env (sample_handler None) sample_request sample_gateway))) = pin_count quarantined_store"
  using request_leaves_no_lease [of sample_gateway "sample_handler None" sample_env "\<lambda>_. True" sample_request, OF _ _ prod.collapse [symmetric]]
  by (simp add: sample_gateway_defs pins_ok_def) (simp add: quarantined_store_def)

definition held_sample :: DecisionDocument where
  "held_sample = \<lparr>docSchemaVersion = CurrentSchemaVersion, docDecisionID = ''igd-1'', docPackage = ''ms'', docVersion = ''1.0.0'',
     docVerdict = ''block'', docDegraded = False, docSnapshotID = ''s'', docReasons = [], docChanges = [], docMissingEvidence = [],
     docNextCommand = []\<rparr>"

theorem held_package_never_fetched_witness:
  "ServeHTTP sample_env (sample_handler (Some held_sample)) sample_request sample_gateway
     = (WriteBlockedResponse held_sample, sample_gateway\<lparr>gsEval := 1, gsDecisions := [held_sample]\<rparr>)"
proof -
  have route: "\<lparr>routeKind = Tarball, routePackage = ''ms'', routeVersion = ''1.0.0''\<rparr> = Classify (rqMethod sample_request) (rqPath sample_request)"
    using sample_route by (simp add: sample_request_def)
  have hd: "header_get ''Authorization'' (rqHeader sample_request) = []" "header_get ''Proxy-Authorization'' (rqHeader sample_request) = []"
    by (simp_all add: sample_request_def header_get_def)
  have ev: "hEvaluator (sample_handler (Some held_sample)) = Some (\<lambda>_ _ n. (Inr (Some held_sample), n + 1))"
    by (simp add: sample_handler_def)
  have "held_doc held_sample" by (simp add: held_doc_def held_sample_def)
  then show ?thesis
    using held_package_never_fetched [OF route _ _ hd ev, where g = sample_gateway and env = sample_env]
    by (simp add: save_decision_def) (simp add: sample_handler_def sample_gateway_def)
qed

theorem no_credentials_upstream_witness:
  "\<exists>ups. gsLog (snd (ServeHTTP sample_env (sample_handler None) sample_request sample_gateway)) = ups \<and>
     list_all (clean_request (hTransport (sample_handler None))) ups"
  using no_credentials_upstream [of sample_env "sample_handler None" sample_request sample_gateway, OF prod.collapse [symmetric]]
  by (auto simp: sample_gateway_def)

end
