(* ===== verification/Advisory.thy ===== *)
theory Advisory
  imports Registry_Call
begin

text \<open>
  The advisory provider: \<^verbatim>\<open>src/internal/evidence/advisory.go\<close>, single queries and batches against
  OSV. The JSON coding is the record \<open>osv_codec\<close>: the queries encoded, the vulnerabilities
  decoded, the keys of the outermost object (\<open>None\<close> when it is not an object), and the raw results of
  a batch.
\<close>

section \<open>The provider\<close>

definition DefaultOSVBaseURL :: string where "DefaultOSVBaseURL = ''https://api.osv.dev''"

definition errEmptyBody :: string where
  "errEmptyBody = ''upstream returned empty body: expected OSV JSON advisory payload''"

definition errNoVulnsKey :: string where
  "errNoVulnsKey = ''upstream response omitted the '' @ [CHR 0x22] @ ''vulns'' @ [CHR 0x22] @ '' key: cannot tell an answer from a stub''"

definition errProviderTimeout :: string where
  "errProviderTimeout = ''advisory provider request timed out''"

record AdvisoryProvider =
  apName :: string
  apBaseURL :: string
  apTimeout :: duration
  apFreshTTL :: duration
  apMaxConns :: int

datatype AdvisoryOption =
  WithAdvisoryBaseURL string | WithAdvisoryTimeout duration | WithAdvisoryConcurrency int | WithAdvisoryFreshTTL duration

fun apply_advisory_option :: "AdvisoryOption \<Rightarrow> AdvisoryProvider \<Rightarrow> AdvisoryProvider" where
  "apply_advisory_option (WithAdvisoryBaseURL u) p = (if u \<noteq> [] then p\<lparr>apBaseURL := TrimSuffix u ''/''\<rparr> else p)"
| "apply_advisory_option (WithAdvisoryTimeout d) p = (if d > 0 then p\<lparr>apTimeout := d\<rparr> else p)"
| "apply_advisory_option (WithAdvisoryConcurrency n) p = (if n > 0 then p\<lparr>apMaxConns := n\<rparr> else p)"
| "apply_advisory_option (WithAdvisoryFreshTTL d) p = (if d > 0 then p\<lparr>apFreshTTL := d\<rparr> else p)"

definition NewAdvisoryProvider :: "AdvisoryOption list \<Rightarrow> AdvisoryProvider" where
  "NewAdvisoryProvider opts = fold apply_advisory_option opts
     \<lparr>apName = ''osv'', apBaseURL = DefaultOSVBaseURL, apTimeout = DefaultProviderTimeout, apFreshTTL = 1 * Hour, apMaxConns = 10\<rparr>"

record osvPackageRef =
  oprName :: string
  oprEcosystem :: string

record osvSingleQuery =
  osqPackage :: osvPackageRef
  osqVersion :: string

record osvEvent =
  oeIntroduced :: string
  oeFixed :: string
  oeLastAffected :: string
  oeLimit :: string

record osvRange =
  orType :: string
  orEvents :: "osvEvent list"

record osvAffected =
  oaPackage :: osvPackageRef
  oaRanges :: "osvRange list"
  oaVersions :: "string list"

record osvVulnerability =
  ovID :: string
  ovSummary :: string
  ovDetails :: string
  ovAliases :: "string list"
  ovDatabaseSpecific :: "(string \<times> json_value) list"
  ovAffected :: "osvAffected list"

record osv_codec =
  ocQuery :: "osvSingleQuery \<Rightarrow> string + string"
  ocBatch :: "osvSingleQuery list \<Rightarrow> string + string"
  ocDecode :: "string \<Rightarrow> string + osvVulnerability list"
  ocDecodeBatch :: "string \<Rightarrow> string + osvVulnerability list list"
  ocKeys :: "string \<Rightarrow> string list option"
  ocResults :: "string \<Rightarrow> string list option"

definition hasVulnsKey :: "osv_codec \<Rightarrow> string \<Rightarrow> bool" where
  "hasVulnsKey k body = (case ocKeys k body of None \<Rightarrow> False | Some keys \<Rightarrow> ''vulns'' \<in> set keys)"

section \<open>Records\<close>

definition upper_rune :: "nat \<Rightarrow> nat" where
  "upper_rune r =
     (if 97 \<le> r \<and> r \<le> 122 then r - 32
      else if 224 \<le> r \<and> r \<le> 254 \<and> r \<noteq> 247 then r - 32
      else if r = 305 then 73
      else if r = 383 then 83
      else if 945 \<le> r \<and> r \<le> 971 \<and> r \<noteq> 962 then r - 32
      else if 1072 \<le> r \<and> r \<le> 1103 then r - 32
      else if 1104 \<le> r \<and> r \<le> 1119 then r - 80
      else r)"

definition ToUpper :: "string \<Rightarrow> string" where
  "ToUpper s = (if is_ascii s then map upper_byte s else concat (map (encode_rune \<circ> upper_rune) (runes s)))"

definition isMaliciousRecord :: "osvVulnerability \<Rightarrow> bool" where
  "isMaliciousRecord v =
     (HasPrefix (ToUpper (ovID v)) ''MAL-'' \<or>
      list_ex (\<lambda>a. HasPrefix (ToUpper a) ''MAL-'') (ovAliases v) \<or>
      (case map_of (ovDatabaseSpecific v) ''malicious'' of
         Some (JBool b) \<Rightarrow> b | Some (JString s) \<Rightarrow> EqualFold s ''true'' | _ \<Rightarrow> False) \<or>
      Contains (ToLower (ovSummary v)) ''malicious package'' \<or> Contains (ToLower (ovSummary v)) ''malware'' \<or>
      Contains (ToLower (ovDetails v)) ''malicious package'' \<or> Contains (ToLower (ovDetails v)) ''malware'')"

definition extractFixedVersion :: "osvVulnerability \<Rightarrow> string" where
  "extractFixedVersion v =
     (case find (\<lambda>ev. oeFixed ev \<noteq> []) (concat (map orEvents (concat (map oaRanges (ovAffected v))))) of
        None \<Rightarrow> [] | Some ev \<Rightarrow> oeFixed ev)"

definition advisory_signal :: "AdvisoryProvider \<Rightarrow> gotime \<Rightarrow> gotime \<Rightarrow> string \<Rightarrow> string \<Rightarrow> string \<Rightarrow> Signal" where
  "advisory_signal p now freshUntil kind confidence observation =
     \<lparr>sigKind = kind, sigSource = apName p, sigObservation = observation, sigConfidence = confidence,
      sigRetrievedAt = now, sigFreshUntil = freshUntil\<rparr>"

definition advisory_record_signals :: "AdvisoryProvider \<Rightarrow> gotime \<Rightarrow> gotime \<Rightarrow> osvVulnerability \<Rightarrow> Signal list" where
  "advisory_record_signals p now freshUntil v =
     (if isMaliciousRecord v
      then [advisory_signal p now freshUntil KindMalicious ConfidenceHigh ''malicious'',
            advisory_signal p now freshUntil KindVulnerability ConfidenceHigh ''malicious'']
      else [advisory_signal p now freshUntil KindVulnerability ConfidenceHigh ''above_threshold''])"

text \<open>The variables of the loop: the signals, whether a record was malicious, and the first fixed version.\<close>

definition vulnerability_step ::
  "AdvisoryProvider \<Rightarrow> gotime \<Rightarrow> gotime \<Rightarrow> osvVulnerability \<Rightarrow> Signal list \<times> bool \<times> string \<Rightarrow> Signal list \<times> bool \<times> string" where
  "vulnerability_step p now freshUntil v st =
     (case st of (signals, hasMalicious, safeVersion) \<Rightarrow>
        let fixed = extractFixedVersion v in
        (signals @ advisory_record_signals p now freshUntil v, hasMalicious \<or> isMaliciousRecord v,
         if fixed \<noteq> [] \<and> safeVersion = [] then fixed else safeVersion))"

definition processVulnerabilities :: "AdvisoryProvider \<Rightarrow> osvVulnerability list \<Rightarrow> gotime \<Rightarrow> gotime \<Rightarrow> Signal list" where
  "processVulnerabilities p vulns now freshUntil =
     (if vulns = [] then [advisory_signal p now freshUntil KindVulnerability ConfidenceMedium ''no_record_found'']
      else case fold (vulnerability_step p now freshUntil) vulns ([], False, []) of
        (signals, hasMalicious, safeVersion) \<Rightarrow>
          if safeVersion \<noteq> [] \<and> \<not> hasMalicious
          then signals @ [advisory_signal p now freshUntil KindVulnerability ConfidenceHigh (''safe_version_suggested:'' @ safeVersion)]
          else signals)"

definition advisory_outcome :: "AdvisoryProvider \<Rightarrow> gotime \<Rightarrow> bool \<Rightarrow> osvVulnerability list \<Rightarrow> Outcome" where
  "advisory_outcome p now stale vulns =
     (let freshUntil = now + apFreshTTL p; signals = processVulnerabilities p vulns now freshUntil in
      if stale then NewStaleOutcome KindVulnerability (apName p) signals now now ''upstream returned stale advisory cache''
      else NewAvailableOutcome KindVulnerability (apName p) signals now freshUntil)"

definition osv_query :: "Query \<Rightarrow> osvSingleQuery" where
  "osv_query q = \<lparr>osqPackage = \<lparr>oprName = qPackage q, oprEcosystem = ''npm''\<rparr>, osqVersion = qVersion q\<rparr>"

text \<open>The answer to one query: an error text, or the body's vulnerabilities with the answer.\<close>

definition advisory_answer :: "osv_codec \<Rightarrow> provider_call \<Rightarrow> AdvisoryProvider \<Rightarrow> Query \<Rightarrow> string + (http_answer \<times> osvVulnerability list)" where
  "advisory_answer k call p q =
     (case callSlot call of
        Some err \<Rightarrow> Inl err
      | None \<Rightarrow>
          (case ocQuery k (osv_query q) of
             Inl err \<Rightarrow> Inl (''failed to marshal osv query: '' @ err)
           | Inr json \<Rightarrow>
               (case send_query errProviderTimeout call (apBaseURL p @ ''/v1/query'') json of
                  Inl err \<Rightarrow> Inl err
                | Inr ans \<Rightarrow>
                    (case read_answer errEmptyBody (\<lambda>body. map_sum id (Pair body) (ocDecode k body)) ans of
                       Inl err \<Rightarrow> Inl err
                     | Inr (body, vulns) \<Rightarrow> if \<not> hasVulnsKey k body then Inl errNoVulnsKey else Inr (ans, vulns)))))"

definition Advisory_Provide :: "osv_codec \<Rightarrow> provider_call \<Rightarrow> AdvisoryProvider \<Rightarrow> Query \<Rightarrow> Outcome" where
  "Advisory_Provide k call p q =
     (let now = normalizeTime (callNow call) in
      case advisory_answer k call p q of
        Inl err \<Rightarrow> NewUnavailableOutcome KindVulnerability (apName p) (Some err) now
      | Inr (ans, vulns) \<Rightarrow> advisory_outcome p now (is_stale_answer ans) vulns)"

section \<open>Batches\<close>

definition rawBatchResults :: "osv_codec \<Rightarrow> string \<Rightarrow> string list" where
  "rawBatchResults k body = (case ocResults k body of None \<Rightarrow> [] | Some rs \<Rightarrow> rs)"

text \<open>A failure of the batch: the same error for every query. There is no text of its own for a timeout.\<close>

definition batch_failed :: "AdvisoryProvider \<Rightarrow> gotime \<Rightarrow> Query list \<Rightarrow> string \<Rightarrow> Outcome list" where
  "batch_failed p now queries err = map (\<lambda>_. NewUnavailableOutcome KindVulnerability (apName p) (Some err) now) queries"

definition batch_answer :: "osv_codec \<Rightarrow> provider_call \<Rightarrow> AdvisoryProvider \<Rightarrow> Query list \<Rightarrow> string + (http_answer \<times> string \<times> osvVulnerability list list)" where
  "batch_answer k call p queries =
     (case callSlot call of
        Some err \<Rightarrow> Inl err
      | None \<Rightarrow>
          (case ocBatch k (map osv_query queries) of
             Inl err \<Rightarrow> Inl err
           | Inr json \<Rightarrow>
               (case callRequest call (apBaseURL p @ ''/v1/querybatch'') of
                  Some err \<Rightarrow> Inl err
                | None \<Rightarrow>
                    (case callSend call (apBaseURL p @ ''/v1/querybatch'') json of
                       SendFailed _ err \<Rightarrow> Inl err
                     | Answered ans \<Rightarrow>
                         (case read_answer errEmptyBody (\<lambda>body. map_sum id (Pair body) (ocDecodeBatch k body)) ans of
                            Inl err \<Rightarrow> Inl err
                          | Inr (body, results) \<Rightarrow>
                              if length results \<noteq> length queries
                              then Inl (''batch results count mismatch: expected '' @ show_nat (length queries) @ '', got '' @ show_nat (length results))
                              else Inr (ans, body, results))))))"

definition batch_result :: "osv_codec \<Rightarrow> AdvisoryProvider \<Rightarrow> gotime \<Rightarrow> bool \<Rightarrow> string list \<Rightarrow> nat \<Rightarrow> osvVulnerability list \<Rightarrow> Outcome" where
  "batch_result k p now stale rawResults i vulns =
     (if i \<ge> length rawResults \<or> \<not> hasVulnsKey k (rawResults ! i)
      then NewUnavailableOutcome KindVulnerability (apName p) (Some errNoVulnsKey) now
      else advisory_outcome p now stale vulns)"

definition ProvideBatch :: "osv_codec \<Rightarrow> provider_call \<Rightarrow> AdvisoryProvider \<Rightarrow> Query list \<Rightarrow> Outcome list" where
  "ProvideBatch k call p queries =
     (let now = normalizeTime (callNow call) in
      if queries = [] then []
      else (case batch_answer k call p queries of
              Inl err \<Rightarrow> batch_failed p now queries err
            | Inr (ans, body, results) \<Rightarrow>
                map (\<lambda>(i, vulns). batch_result k p now (is_stale_answer ans) (rawBatchResults k body) i vulns) (enumerate 0 results)))"

section \<open>The loop over the records\<close>

lemmas advisory_defs = advisory_outcome_def advisory_signal_def new_outcome_defs

lemma fold_vulnerability_step:
  "\<exists>safe'. fold (vulnerability_step p now fresh) vulns (signals, mal, safe) =
     (signals @ concat (map (advisory_record_signals p now fresh) vulns), mal \<or> list_ex isMaliciousRecord vulns, safe')"
proof (induction vulns arbitrary: signals mal safe)
  case (Cons v vulns)
  let ?safe = "if extractFixedVersion v \<noteq> [] \<and> safe = [] then extractFixedVersion v else safe"
  show ?case
    using Cons.IH [of "signals @ advisory_record_signals p now fresh v" "mal \<or> isMaliciousRecord v" ?safe]
    by (simp add: vulnerability_step_def Let_def disj_assoc)
qed simp

lemma process_records: "\<exists>tail. vulns \<noteq> [] \<longrightarrow> processVulnerabilities p vulns now fresh = concat (map (advisory_record_signals p now fresh) vulns) @ tail \<and>
    (\<forall>s \<in> set tail. sigSource s = apName p \<and> HasPrefix (sigObservation s) ''safe_version_suggested:'')"
proof -
  obtain safe where f: "fold (vulnerability_step p now fresh) vulns ([], False, []) =
      (concat (map (advisory_record_signals p now fresh) vulns), list_ex isMaliciousRecord vulns, safe)"
    using fold_vulnerability_step [of p now fresh vulns "[]" False "[]"] by auto
  let ?s = "advisory_signal p now fresh KindVulnerability ConfidenceHigh (''safe_version_suggested:'' @ safe)"
  have "HasPrefix (sigObservation ?s) ''safe_version_suggested:''" by (simp add: advisory_signal_def)
  moreover have "sigSource ?s = apName p" by (simp add: advisory_signal_def)
  ultimately show ?thesis
    by (intro exI [of _ "if safe \<noteq> [] \<and> \<not> list_ex isMaliciousRecord vulns then [?s] else []"]) (simp add: processVulnerabilities_def f)
qed

lemma processVulnerabilities_wf:
  "processVulnerabilities p vulns now fresh \<noteq> []" "s \<in> set (processVulnerabilities p vulns now fresh) \<Longrightarrow> sigSource s = apName p"
proof -
  have r: "advisory_record_signals p now fresh v \<noteq> []" "x \<in> set (advisory_record_signals p now fresh v) \<Longrightarrow> sigSource x = apName p" for v x
    by (auto simp: advisory_record_signals_def advisory_signal_def split: if_splits)
  have n: "processVulnerabilities p [] now fresh = [advisory_signal p now fresh KindVulnerability ConfidenceMedium ''no_record_found'']"
    by (simp add: processVulnerabilities_def)
  obtain tail where t: "vulns \<noteq> [] \<Longrightarrow> processVulnerabilities p vulns now fresh = concat (map (advisory_record_signals p now fresh) vulns) @ tail"
    "vulns \<noteq> [] \<Longrightarrow> \<forall>s \<in> set tail. sigSource s = apName p"
    using process_records [of vulns p now fresh] by blast
  show "processVulnerabilities p vulns now fresh \<noteq> []"
    using t(1) r(1) n by (cases vulns) auto
  show "s \<in> set (processVulnerabilities p vulns now fresh) \<Longrightarrow> sigSource s = apName p"
    using t r(2) n by (cases "vulns = []") (auto simp: advisory_signal_def)
qed

lemma advisory_outcome_wf:
  "outKind (advisory_outcome p now stale vulns) = KindVulnerability" "outSource (advisory_outcome p now stale vulns) = apName p"
  "outSignals (advisory_outcome p now stale vulns) = processVulnerabilities p vulns now (now + apFreshTTL p)"
  "outState (advisory_outcome p now stale vulns) \<in> {StateAvailable, StateStale}" "outErr (advisory_outcome p now stale vulns) = None"
  by (simp_all add: advisory_outcome_def new_outcome_defs Let_def)

interpretation advisory: evidence_provider KindVulnerability "apName p" "Advisory_Provide k call p"
proof
  fix q
  show "outKind (Advisory_Provide k call p q) = KindVulnerability" "outSource (Advisory_Provide k call p q) = apName p"
    "outState (Advisory_Provide k call p q) = StateUnavailable \<and> outSignals (Advisory_Provide k call p q) = [] \<and> outErr (Advisory_Provide k call p q) \<noteq> None \<or>
      outState (Advisory_Provide k call p q) \<in> {StateAvailable, StateStale, StateDegraded} \<and> outSignals (Advisory_Provide k call p q) \<noteq> [] \<and> outErr (Advisory_Provide k call p q) = None"
    using advisory_outcome_wf(4) by (auto simp: Advisory_Provide_def Let_def NewUnavailableOutcome_def advisory_outcome_wf processVulnerabilities_wf split: sum.split)
  show "sigSource s = apName p" if "s \<in> set (outSignals (Advisory_Provide k call p q))" for s
    using that by (auto simp: Advisory_Provide_def Let_def NewUnavailableOutcome_def advisory_outcome_wf dest: processVulnerabilities_wf(2) split: sum.splits)
qed

section \<open>Property\<close>

text \<open>OSV answered the query of a package with a body that is not empty.\<close>

definition osv_answered :: "osv_codec \<Rightarrow> provider_call \<Rightarrow> AdvisoryProvider \<Rightarrow> Query \<Rightarrow> http_answer \<Rightarrow> string \<Rightarrow> bool" where
  "osv_answered k call p q ans body =
     (callSlot call = None \<and> callRequest call (apBaseURL p @ ''/v1/query'') = None \<and>
      (\<exists>json. ocQuery k (osv_query q) = Inr json \<and> callSend call (apBaseURL p @ ''/v1/query'') json = Answered ans) \<and>
      haStatus ans = 200 \<and> haBody ans = Inr body \<and> body \<noteq> [])"

lemma read_answer_Inr: "read_answer e decode ans = Inr d \<longleftrightarrow> haStatus ans = 200 \<and> (\<exists>body. haBody ans = Inr body \<and> body \<noteq> [] \<and> decode body = Inr d)"
  by (auto simp: read_answer_def split: sum.splits if_splits)

lemma send_query_Inr: "send_query t call url body = Inr ans \<longleftrightarrow> callRequest call url = None \<and> callSend call url body = Answered ans"
  by (auto simp: send_query_def split: option.splits send_result.splits)

lemma map_sum_Pair: "map_sum id (Pair b) x = Inr (c, v) \<longleftrightarrow> c = b \<and> x = Inr v"
  by (cases x) auto

lemma advisory_answer_Inr:
  "advisory_answer k call p q = Inr (ans, vulns) \<longleftrightarrow>
     (\<exists>body. osv_answered k call p q ans body \<and> ocDecode k body = Inr vulns \<and> hasVulnsKey k body)" (is "?L = ?R")
proof
  assume ?L
  then show ?R
    unfolding advisory_answer_def osv_answered_def
    by (auto simp: read_answer_Inr send_query_Inr map_sum_Pair split: option.splits sum.splits if_splits)
next
  assume ?R
  then obtain body json where a: "callSlot call = None" "ocQuery k (osv_query q) = Inr json"
      "send_query errProviderTimeout call (apBaseURL p @ ''/v1/query'') json = Inr ans" "hasVulnsKey k body"
    and "haStatus ans = 200 \<and> haBody ans = Inr body \<and> body \<noteq> [] \<and> ocDecode k body = Inr vulns"
    unfolding osv_answered_def send_query_Inr by blast
  then have "read_answer errEmptyBody (\<lambda>body. map_sum id (Pair body) (ocDecode k body)) ans = Inr (body, vulns)"
    by (simp add: read_answer_Inr)
  then show ?L using a by (simp add: advisory_answer_def)
qed

lemma no_record_signal:
  "(\<exists>s \<in> set (processVulnerabilities p vulns now fresh). sigObservation s = ''no_record_found'') \<longleftrightarrow> vulns = []"
proof (cases "vulns = []")
  case False
  have p: "\<not> HasPrefix ''no_record_found'' ''safe_version_suggested:''" by simp
  have r: "sigObservation s \<noteq> ''no_record_found''" if "s \<in> set (advisory_record_signals p now fresh v)" for s v
    using that by (cases "isMaliciousRecord v") (auto simp: advisory_record_signals_def advisory_signal_def)
  obtain tail where "processVulnerabilities p vulns now fresh = concat (map (advisory_record_signals p now fresh) vulns) @ tail"
    "\<forall>s \<in> set tail. HasPrefix (sigObservation s) ''safe_version_suggested:''"
    using process_records [of vulns p now fresh] False by blast
  then show ?thesis using False r p by fastforce
qed (simp add: processVulnerabilities_def advisory_signal_def)

text \<open>
  Nothing found is only said when OSV said so. The provider reports that no record was found
  exactly when OSV answered the query with status 200 and a body that is not empty, decodes to no
  vulnerabilities and carries the vulnerabilities field; a failure, a stub or an empty answer is
  never read as clean.
\<close>

lemma no_record_only_on_answer:
  "(\<exists>s \<in> set (Outcome_Signals (Advisory_Provide k call p q)). sigObservation s = ''no_record_found'') =
   (\<exists>ans body. osv_answered k call p q ans body \<and> ocDecode k body = Inr [] \<and> hasVulnsKey k body)"
proof -
  have u: "''unavailable'' \<noteq> ''no_record_found''" by simp
  have sig: "(\<exists>s \<in> set (Outcome_Signals (Advisory_Provide k call p q)). sigObservation s = ''no_record_found'') \<longleftrightarrow>
      (\<exists>ans. advisory_answer k call p q = Inr (ans, []))"
  proof (cases "advisory_answer k call p q")
    case (Inl err)
    then show ?thesis using u
      by (simp add: Advisory_Provide_def Let_def NewUnavailableOutcome_def Outcome_Signals_def Outcome_State_def)
  next
    case (Inr x)
    obtain ans vulns where x: "x = (ans, vulns)" by (cases x)
    have "Outcome_Signals (advisory_outcome p now stale vulns) = processVulnerabilities p vulns now (now + apFreshTTL p)" for now stale
      using advisory_outcome_wf(3,4) [of p now stale vulns] by (auto simp: Outcome_Signals_def processVulnerabilities_wf)
    then show ?thesis using Inr x no_record_signal [of p vulns] by (simp add: Advisory_Provide_def Let_def)
  qed
  show ?thesis unfolding sig advisory_answer_Inr ..
qed

end
