(* ===== verification/Publish_History.thy ===== *)
theory Publish_History
  imports Registry_Call
begin

text \<open>
  The publish-history provider: \<^verbatim>\<open>src/internal/evidence/history.go\<close>. The decoded packument is a
  parameter, its maps association lists in the order they are read. The HTTP client and the semaphore
  are part of the call. The theorem relates the loop over the sorted timeline to the latest
  earlier publication.
\<close>

section \<open>The provider\<close>

definition DefaultNewbornThreshold :: duration where "DefaultNewbornThreshold = 7 * 24 * Hour"
definition DefaultFreshThreshold :: duration where "DefaultFreshThreshold = 24 * Hour"
definition DefaultDormantThreshold :: duration where "DefaultDormantThreshold = 180 * 24 * Hour"

definition errEmptyHistoryBody :: string where
  "errEmptyHistoryBody = ''upstream returned empty body: expected npm packument JSON''"

definition errHistoryTimeout :: string where
  "errHistoryTimeout = ''history provider request timed out''"

record HistoryProvider =
  hpName :: string
  hpRegistryURL :: string
  hpTimeout :: duration
  hpFreshTTL :: duration
  hpNewbornThreshold :: duration
  hpFreshThreshold :: duration
  hpDormantThreshold :: duration
  hpMaxConns :: int

datatype HistoryOption =
    WithHistoryRegistryURL string | WithHistoryTimeout duration | WithHistoryConcurrency int
  | WithNewbornThreshold duration | WithFreshThreshold duration | WithDormantThreshold duration

fun apply_history_option :: "HistoryOption \<Rightarrow> HistoryProvider \<Rightarrow> HistoryProvider" where
  "apply_history_option (WithHistoryRegistryURL u) p = (if u \<noteq> [] then p\<lparr>hpRegistryURL := TrimSuffix u ''/''\<rparr> else p)"
| "apply_history_option (WithHistoryTimeout d) p = (if d > 0 then p\<lparr>hpTimeout := d\<rparr> else p)"
| "apply_history_option (WithHistoryConcurrency n) p = (if n > 0 then p\<lparr>hpMaxConns := n\<rparr> else p)"
| "apply_history_option (WithNewbornThreshold d) p = (if d > 0 then p\<lparr>hpNewbornThreshold := d\<rparr> else p)"
| "apply_history_option (WithFreshThreshold d) p = (if d > 0 then p\<lparr>hpFreshThreshold := d\<rparr> else p)"
| "apply_history_option (WithDormantThreshold d) p = (if d > 0 then p\<lparr>hpDormantThreshold := d\<rparr> else p)"

definition NewHistoryProvider :: "HistoryOption list \<Rightarrow> HistoryProvider" where
  "NewHistoryProvider opts = fold apply_history_option opts
     \<lparr>hpName = ''npm_history'', hpRegistryURL = DefaultRegistryURL, hpTimeout = DefaultProviderTimeout, hpFreshTTL = 15 * Minute,
      hpNewbornThreshold = DefaultNewbornThreshold, hpFreshThreshold = DefaultFreshThreshold,
      hpDormantThreshold = DefaultDormantThreshold, hpMaxConns = 10\<rparr>"

text \<open>A missing or null map is \<open>None\<close>; only the keys of \<^verbatim>\<open>versions\<close> matter.\<close>

record packumentTimeDoc =
  ptName :: string
  ptTime :: "(string \<times> string) list option"
  ptVersions :: "string list option"

definition history_signal :: "HistoryProvider \<Rightarrow> gotime \<Rightarrow> string \<Rightarrow> string \<Rightarrow> string \<Rightarrow> Signal" where
  "history_signal p now kind confidence observation =
     \<lparr>sigKind = kind, sigSource = hpName p, sigObservation = observation, sigConfidence = confidence,
      sigRetrievedAt = now, sigFreshUntil = now + hpFreshTTL p\<rparr>"

definition absent_signals :: "HistoryProvider \<Rightarrow> gotime \<Rightarrow> string \<Rightarrow> Signal list" where
  "absent_signals p now observation =
     [history_signal p now KindPublishHistory ConfidenceHigh observation, history_signal p now KindPackageAge ConfidenceHigh observation]"

definition degraded_history :: "HistoryProvider \<Rightarrow> gotime \<Rightarrow> string \<Rightarrow> string \<Rightarrow> Outcome" where
  "degraded_history p now observation why =
     NewDegradedOutcome KindPublishHistory (hpName p) [history_signal p now KindPublishHistory ConfidenceLow observation]
       now (now + hpFreshTTL p) why"

definition history_outcome :: "HistoryProvider \<Rightarrow> gotime \<Rightarrow> bool \<Rightarrow> Signal list \<Rightarrow> Outcome" where
  "history_outcome p now stale sigs =
     (if stale then NewStaleOutcome KindPublishHistory (hpName p) sigs now now ''upstream returned stale history cache''
      else NewAvailableOutcome KindPublishHistory (hpName p) sigs now (now + hpFreshTTL p))"

definition age_observation :: "HistoryProvider \<Rightarrow> duration \<Rightarrow> duration \<Rightarrow> string" where
  "age_observation p pkgAge versionAge =
     (if pkgAge < hpNewbornThreshold p then ''newborn'' else if versionAge < hpFreshThreshold p then ''fresh'' else ''mature'')"

definition release_observation :: "HistoryProvider \<Rightarrow> (string \<times> string) list \<Rightarrow> string \<Rightarrow> gotime \<Rightarrow> string" where
  "release_observation p stamps version verTime =
     (case previous_entry version None (timeline stamps) of
        None \<Rightarrow> ''initial_release''
      | Some prev \<Rightarrow> if time_Sub verTime (snd prev) > hpDormantThreshold p then ''dormant_revival'' else ''active_history'')"

definition judge_timeline :: "HistoryProvider \<Rightarrow> gotime \<Rightarrow> bool \<Rightarrow> (string \<times> string) list \<Rightarrow> string \<Rightarrow> Outcome" where
  "judge_timeline p now stale stamps version =
     (case (map_of stamps version, map_of stamps ''created'') of
        (Some verTimeStr, Some createdTimeStr) \<Rightarrow>
          (case (Parse_RFC3339Nano verTimeStr, Parse_RFC3339Nano createdTimeStr) of
             (Some verTime, Some createdTime) \<Rightarrow>
               if verTime > now + 10 * Minute
               then degraded_history p now ''conflicting_future_timestamp'' ''version publish timestamp is in the future''
               else history_outcome p now stale
                 [history_signal p now KindPackageAge ConfidenceHigh (age_observation p (time_Sub now createdTime) (time_Sub now verTime)),
                  history_signal p now KindPublishHistory ConfidenceHigh (release_observation p stamps version verTime)]
           | _ \<Rightarrow> degraded_history p now ''invalid_timestamp'' ''invalid timestamp format in time metadata'')
      | _ \<Rightarrow> degraded_history p now ''missing_version_time'' ''packument time metadata missing version timestamp'')"

definition judge_document :: "HistoryProvider \<Rightarrow> gotime \<Rightarrow> bool \<Rightarrow> packumentTimeDoc \<Rightarrow> string \<Rightarrow> Outcome" where
  "judge_document p now stale doc version =
     (if (case ptVersions doc of None \<Rightarrow> False | Some vs \<Rightarrow> version \<notin> set vs)
      then history_outcome p now stale (absent_signals p now ''version_not_found'')
      else (case ptTime doc of
              None \<Rightarrow> degraded_history p now ''missing_timeline'' ''packument is missing time metadata''
            | Some stamps \<Rightarrow> judge_timeline p now stale stamps version))"

definition History_Provide :: "(string \<Rightarrow> string + packumentTimeDoc) \<Rightarrow> provider_call \<Rightarrow> HistoryProvider \<Rightarrow> Query \<Rightarrow> Outcome" where
  "History_Provide decode call p q =
     (let now = normalizeTime (callNow call);
          unavailable = (\<lambda>err. NewUnavailableOutcome KindPublishHistory (hpName p) (Some err) now) in
      case callSlot call of
        Some err \<Rightarrow> unavailable err
      | None \<Rightarrow>
          (case send_query errHistoryTimeout call (packument_url (hpRegistryURL p) (qPackage q)) [] of
             Inl err \<Rightarrow> unavailable err
           | Inr ans \<Rightarrow>
               if haStatus ans = 404 then history_outcome p now False (absent_signals p now ''not_found'')
               else (case read_answer errEmptyHistoryBody decode ans of
                       Inl err \<Rightarrow> unavailable err
                     | Inr doc \<Rightarrow> judge_document p now (is_stale_answer ans) doc (qVersion q))))"

lemmas history_defs = history_outcome_def degraded_history_def absent_signals_def history_signal_def

interpretation history: evidence_provider KindPublishHistory "hpName p" "History_Provide decode call p"
proof
  fix q
  have doc: "outKind (judge_document p now stale doc v) = KindPublishHistory \<and> outSource (judge_document p now stale doc v) = hpName p \<and>
      (\<forall>s \<in> set (outSignals (judge_document p now stale doc v)). sigSource s = hpName p) \<and>
      outState (judge_document p now stale doc v) \<in> {StateAvailable, StateStale, StateDegraded} \<and> outSignals (judge_document p now stale doc v) \<noteq> [] \<and> outErr (judge_document p now stale doc v) = None"
    for now stale doc v
    by (auto simp: judge_document_def judge_timeline_def history_defs new_outcome_defs split: option.split)
  show "outKind (History_Provide decode call p q) = KindPublishHistory" "outSource (History_Provide decode call p q) = hpName p"
    "outState (History_Provide decode call p q) = StateUnavailable \<and> outSignals (History_Provide decode call p q) = [] \<and> outErr (History_Provide decode call p q) \<noteq> None \<or>
      outState (History_Provide decode call p q) \<in> {StateAvailable, StateStale, StateDegraded} \<and> outSignals (History_Provide decode call p q) \<noteq> [] \<and> outErr (History_Provide decode call p q) = None"
    using doc by (auto simp: History_Provide_def Let_def history_defs new_outcome_defs split: option.split sum.split)
  show "sigSource s = hpName p" if "s \<in> set (outSignals (History_Provide decode call p q))" for s
    using that doc by (auto simp: History_Provide_def Let_def history_defs new_outcome_defs split: option.splits sum.splits if_splits)
qed

section \<open>Property\<close>

definition history_bounds :: "HistoryProvider \<Rightarrow> bool" where
  "history_bounds p = (0 \<le> hpDormantThreshold p \<and> hpDormantThreshold p < 2 ^ 63 - 1)"

lemma time_Sub_greater: "0 \<le> d \<Longrightarrow> d < 2 ^ 63 - 1 \<Longrightarrow> time_Sub t u > d \<longleftrightarrow> t - u > d"
  by (auto simp: time_Sub_def)

lemma published_unique:
  assumes "wf_map stamps" "published stamps v t" "published stamps v s"
  shows "s = t"
proof -
  obtain x y where "(v, x) \<in> set stamps" "Parse_RFC3339Nano x = Some t" "(v, y) \<in> set stamps" "Parse_RFC3339Nano y = Some s"
    using assms(2,3) unfolding published_def by blast
  then show ?thesis using assms(1) eq_key_imp_eq_value [of stamps v x y] by (simp add: wf_map_def)
qed

lemma release_observation_latest:
  assumes "wf_map stamps" "published stamps v t" "\<And>u. published stamps u t \<Longrightarrow> u = v" "history_bounds p"
  shows "release_observation p stamps v t =
     (if earlier stamps t = {} then ''initial_release''
      else if t - Max (earlier stamps t) > hpDormantThreshold p then ''dormant_revival'' else ''active_history'')"
proof -
  have "u = v \<and> s = t" if "published stamps u s" "s = t \<or> u = v" for u s
    using that assms(1-3) published_unique by blast
  note latest = previous_entry_latest [OF assms(2) this]
  show ?thesis
  proof (cases "previous_entry v None (timeline stamps)")
    case None
    then show ?thesis using latest by (auto simp: release_observation_def split: if_splits)
  next
    case (Some e)
    then have "earlier stamps t \<noteq> {}" "snd e = Max (earlier stamps t)" using latest by (auto split: if_splits)
    then show ?thesis using Some time_Sub_greater assms(4) by (simp add: release_observation_def history_bounds_def)
  qed
qed

text \<open>
  C23. Revived packages are recognised. When the registry answers with a document that lists the
  version, a valid publication time that no other version shares and a valid creation time, and
  the version is not from the future, the provider reports an initial release exactly when nothing was
  published before it, a dormant revival exactly when the latest earlier publication is further back
  than the threshold, and an active history otherwise, whatever the order of the JSON object.
\<close>

theorem revival_recognised:
  assumes "callSlot call = None" "send_query errHistoryTimeout call (packument_url (hpRegistryURL p) (qPackage q)) [] = Inr ans"
    and "haStatus ans \<noteq> 404" "read_answer errEmptyHistoryBody decode ans = Inr doc"
    and "ptTime doc = Some stamps" "wf_map stamps" "\<And>vs. ptVersions doc = Some vs \<Longrightarrow> qVersion q \<in> set vs"
    and "published stamps (qVersion q) t" "\<And>u. published stamps u t \<Longrightarrow> u = qVersion q"
    and "map_of stamps ''created'' = Some text" "Parse_RFC3339Nano text \<noteq> None"
    and "t \<le> normalizeTime (callNow call) + 10 * Minute" "history_bounds p"
  shows "(IsAvailable (History_Provide decode call p q) \<or> IsStale (History_Provide decode call p q)) \<and>
     map sigObservation (filter (\<lambda>s. sigKind s = KindPublishHistory) (Outcome_Signals (History_Provide decode call p q))) =
      [if earlier stamps t = {} then ''initial_release''
       else if t - Max (earlier stamps t) > hpDormantThreshold p then ''dormant_revival'' else ''active_history'']"
proof -
  obtain vt where vt: "(qVersion q, vt) \<in> set stamps" "Parse_RFC3339Nano vt = Some t" using assms(8) unfolding published_def by blast
  have v: "map_of stamps (qVersion q) = Some vt" using vt(1) assms(6) by (simp add: wf_map_def)
  have k: "KindPackageAge \<noteq> KindPublishHistory" by (simp add: KindPackageAge_def KindPublishHistory_def)
  obtain ct where ct: "Parse_RFC3339Nano text = Some ct" using assms(11) by blast
  have listed: "\<not> (case ptVersions doc of None \<Rightarrow> False | Some vs \<Rightarrow> qVersion q \<notin> set vs)"
    using assms(7) by (auto split: option.split)
  let ?now = "normalizeTime (callNow call)"
  have out: "History_Provide decode call p q = history_outcome p ?now (is_stale_answer ans)
     [history_signal p ?now KindPackageAge ConfidenceHigh (age_observation p (time_Sub ?now ct) (time_Sub ?now t)),
      history_signal p ?now KindPublishHistory ConfidenceHigh (release_observation p stamps (qVersion q) t)]"
    using assms(1-5,10,12) v vt(2) ct listed by (simp add: History_Provide_def judge_document_def judge_timeline_def Let_def)
  have rel: "release_observation p stamps (qVersion q) t =
      (if earlier stamps t = {} then ''initial_release''
       else if t - Max (earlier stamps t) > hpDormantThreshold p then ''dormant_revival'' else ''active_history'')"
    using assms(6,8,9,13) by (rule release_observation_latest)
  show ?thesis
    unfolding out rel [symmetric] by (simp add: history_defs new_outcome_defs outcome_state_defs Outcome_Signals_def k)
qed

theorem revival_recognised_witness:
  "map sigObservation (filter (\<lambda>s. sigKind s = KindPublishHistory) (Outcome_Signals (History_Provide
     (\<lambda>_. Inr \<lparr>ptName = ''left-pad'', ptTime = Some sample_stamps, ptVersions = Some [''1.0.0'', ''2.0.0'']\<rparr>)
     sample_call (NewHistoryProvider []) \<lparr>qPackage = ''left-pad'', qVersion = ''2.0.0''\<rparr>))) = [''dormant_revival'']"
proof -
  let ?doc = "\<lparr>ptName = ''left-pad'', ptTime = Some sample_stamps, ptVersions = Some [''1.0.0'', ''2.0.0'']\<rparr>"
  let ?q = "\<lparr>qPackage = ''left-pad'', qVersion = ''2.0.0''\<rparr>"
  let ?ans = "\<lparr>haStatus = 200, haWarning = [], haBody = Inr ''{}''\<rparr>"
  have p: "hpDormantThreshold (NewHistoryProvider []) = 15552000000000000" "hpName (NewHistoryProvider []) = ''npm_history''"
    by (simp_all add: NewHistoryProvider_def DefaultDormantThreshold_def duration_defs)
  have call: "callSlot sample_call = None"
    "send_query errHistoryTimeout sample_call (packument_url (hpRegistryURL (NewHistoryProvider [])) (qPackage ?q)) [] = Inr ?ans"
    "read_answer errEmptyHistoryBody (\<lambda>_. Inr ?doc) ?ans = Inr ?doc"
    by (simp_all add: sample_call_def send_query_def read_answer_def)
  have stamps: "wf_map sample_stamps" "map_of sample_stamps ''created'' = Some ''2020-01-01T00:00:00Z''"
    "Parse_RFC3339Nano ''2020-01-01T00:00:00Z'' \<noteq> None" by (simp_all add: sample_stamps_def wf_map_def sample_instants)
  have pub: "published sample_stamps (qVersion ?q) 63745056000500000000" "published sample_stamps u 63745056000500000000 \<Longrightarrow> u = qVersion ?q" for u
    by (auto simp: sample_published)
  have now: "63745056000500000000 \<le> normalizeTime (callNow sample_call) + 10 * Minute" "history_bounds (NewHistoryProvider [])"
    by (simp_all add: sample_call_def normalizeTime_def Truncate_def duration_defs history_bounds_def p)
  show ?thesis
    using conjunct2 [OF revival_recognised [OF call(1,2) _ call(3) _ stamps(1) _ pub stamps(2,3) now]]
    by (simp add: sample_earlier p)
qed

end
