(* ===== verification/Provenance.thy ===== *)
theory Provenance
  imports Registry_Call
begin

text \<open>
  The provenance provider: \<^verbatim>\<open>src/internal/evidence/provenance.go\<close>. The decoded packument is a parameter. A version is compared with
  the version published just before it.
\<close>

section \<open>The provider\<close>

definition errEmptyProvenanceBody :: string where
  "errEmptyProvenanceBody = ''upstream returned empty body: expected npm packument JSON''"

definition errProvenanceTimeout :: string where
  "errProvenanceTimeout = ''provenance provider request timed out''"

record ProvenanceProvider =
  pvName :: string
  pvRegistryURL :: string
  pvTimeout :: duration
  pvFreshTTL :: duration
  pvMaxConns :: int

datatype ProvenanceOption = WithProvenanceRegistryURL string | WithProvenanceTimeout duration | WithProvenanceConcurrency int

fun apply_provenance_option :: "ProvenanceOption \<Rightarrow> ProvenanceProvider \<Rightarrow> ProvenanceProvider" where
  "apply_provenance_option (WithProvenanceRegistryURL u) p = (if u \<noteq> [] then p\<lparr>pvRegistryURL := TrimSuffix u ''/''\<rparr> else p)"
| "apply_provenance_option (WithProvenanceTimeout d) p = (if d > 0 then p\<lparr>pvTimeout := d\<rparr> else p)"
| "apply_provenance_option (WithProvenanceConcurrency n) p = (if n > 0 then p\<lparr>pvMaxConns := n\<rparr> else p)"

definition NewProvenanceProvider :: "ProvenanceOption list \<Rightarrow> ProvenanceProvider" where
  "NewProvenanceProvider opts = fold apply_provenance_option opts
     \<lparr>pvName = ''npm_provenance'', pvRegistryURL = DefaultRegistryURL, pvTimeout = DefaultProviderTimeout, pvFreshTTL = 6 * Hour, pvMaxConns = 10\<rparr>"

record npmUserMeta =
  nuName :: string
  nuEmail :: string

record npmDistMeta =
  ndIntegrity :: string
  ndTarball :: string
  ndAttestations :: json_value
  ndSignatures :: json_value

record npmVersionProvenanceMeta =
  nvVersion :: string
  nvMaintainers :: "npmUserMeta list"
  nvNpmUser :: npmUserMeta
  nvRepository :: json_value
  nvDist :: npmDistMeta

record packumentProvenanceDoc =
  ppName :: string
  ppTime :: "(string \<times> string) list option"
  ppMaintainers :: "npmUserMeta list"
  ppVersions :: "(string \<times> npmVersionProvenanceMeta) list"

section \<open>What is compared\<close>

definition findPreviousVersion :: "(string \<times> string) list option \<Rightarrow> string \<Rightarrow> string" where
  "findPreviousVersion timeMap currentVersion =
     (case timeMap of
        None \<Rightarrow> []
      | Some stamps \<Rightarrow> (case previous_entry currentVersion None (timeline stamps) of None \<Rightarrow> [] | Some e \<Rightarrow> fst e))"

definition hasAttestation :: "npmDistMeta \<Rightarrow> bool" where
  "hasAttestation d =
     ((case ndAttestations d of JObject m \<Rightarrow> m \<noteq> [] | JString s \<Rightarrow> s \<noteq> [] | _ \<Rightarrow> False) \<or>
      (case ndSignatures d of JArray arr \<Rightarrow> arr \<noteq> [] | _ \<Rightarrow> False))"

definition extractMaintainerNames :: "npmUserMeta list \<Rightarrow> npmUserMeta list \<Rightarrow> string list" where
  "extractMaintainerNames versionMaintainers docMaintainers =
     (let users = (if versionMaintainers \<noteq> [] then versionMaintainers else docMaintainers)
      in SortStrings (map (ToLower \<circ> nuName) (filter (\<lambda>u. nuName u \<noteq> []) users)))"

definition normalizeRepoURL :: "string \<Rightarrow> string" where
  "normalizeRepoURL u =
     ToLower (TrimSuffix (TrimPrefix (TrimPrefix (TrimPrefix (TrimSpace u) ''git+'') ''git://'') ''ssh://git@'') ''.git'')"

definition extractRepoURL :: "json_value \<Rightarrow> string" where
  "extractRepoURL repo =
     (case repo of
        JString s \<Rightarrow> normalizeRepoURL s
      | JObject m \<Rightarrow> (case map_of m ''url'' of Some (JString u) \<Rightarrow> normalizeRepoURL u | _ \<Rightarrow> [])
      | _ \<Rightarrow> [])"

definition equalStringSet :: "string list \<Rightarrow> string list \<Rightarrow> bool" where
  "equalStringSet a b = (if length a \<noteq> length b then False else list_all (\<lambda>i. a ! i = b ! i) [0..<length a])"

definition containsString :: "string list \<Rightarrow> string \<Rightarrow> bool" where
  "containsString slice val = list_ex (\<lambda>s. s = ToLower val) slice"

definition publisher_change :: "npmVersionProvenanceMeta \<Rightarrow> npmVersionProvenanceMeta \<Rightarrow> string list \<Rightarrow> string list" where
  "publisher_change cur prev prevMaintainers =
     (let new = nuName (nvNpmUser cur); old = nuName (nvNpmUser prev) in
      if new \<noteq> [] \<and> old \<noteq> [] \<and> new \<noteq> old
      then [if \<not> containsString prevMaintainers new then ''new_unrecognized_publisher'' else ''publisher_changed'']
      else [])"

definition detect_changes :: "packumentProvenanceDoc \<Rightarrow> npmVersionProvenanceMeta \<Rightarrow> npmVersionProvenanceMeta \<Rightarrow> string list" where
  "detect_changes doc cur prev =
     (let currMaintainers = extractMaintainerNames (nvMaintainers cur) (ppMaintainers doc);
          prevMaintainers = extractMaintainerNames (nvMaintainers prev) (ppMaintainers doc);
          currRepo = extractRepoURL (nvRepository cur); prevRepo = extractRepoURL (nvRepository prev) in
      (if \<not> equalStringSet currMaintainers prevMaintainers then [''maintainer_set_changed''] else []) @
      publisher_change cur prev prevMaintainers @
      (if prevRepo \<noteq> [] \<and> currRepo \<noteq> prevRepo then [''repository_changed''] else []) @
      (if hasAttestation (nvDist prev) \<and> \<not> hasAttestation (nvDist cur) then [''attestation_removed''] else []))"

text \<open>The observations about a version, or none when the version before it is not described.\<close>

definition provenance_observations :: "packumentProvenanceDoc \<Rightarrow> npmVersionProvenanceMeta \<Rightarrow> string \<Rightarrow> string list option" where
  "provenance_observations doc cur prevVersion =
     (let present = (if hasAttestation (nvDist cur) then [''attestation_present''] else []) in
      if prevVersion = [] then Some (present @ [''initial_release''])
      else (case map_of (ppVersions doc) prevVersion of
              None \<Rightarrow> None
            | Some prev \<Rightarrow>
                let changes = detect_changes doc cur prev;
                    removed = (if hasAttestation (nvDist prev) \<and> \<not> hasAttestation (nvDist cur) then [''attestation_removed''] else [])
                in Some (present @ removed @ (if changes \<noteq> [] then ''changed'' # changes else [''unchanged'']))))"

definition provenance_signal :: "ProvenanceProvider \<Rightarrow> gotime \<Rightarrow> string \<Rightarrow> string \<Rightarrow> Signal" where
  "provenance_signal p now confidence observation =
     \<lparr>sigKind = KindProvenance, sigSource = pvName p, sigObservation = observation, sigConfidence = confidence,
      sigRetrievedAt = now, sigFreshUntil = now + pvFreshTTL p\<rparr>"

definition provenance_outcome :: "ProvenanceProvider \<Rightarrow> gotime \<Rightarrow> bool \<Rightarrow> string list \<Rightarrow> Outcome" where
  "provenance_outcome p now stale obs =
     (let sigs = map (provenance_signal p now ConfidenceHigh) obs in
      if stale then NewStaleOutcome KindProvenance (pvName p) sigs now now ''upstream returned stale provenance cache''
      else NewAvailableOutcome KindProvenance (pvName p) sigs now (now + pvFreshTTL p))"

definition judge_provenance :: "ProvenanceProvider \<Rightarrow> gotime \<Rightarrow> bool \<Rightarrow> packumentProvenanceDoc \<Rightarrow> string \<Rightarrow> Outcome" where
  "judge_provenance p now stale doc version =
     (case map_of (ppVersions doc) version of
        None \<Rightarrow> provenance_outcome p now stale [''version_not_found'']
      | Some cur \<Rightarrow>
          (case provenance_observations doc cur (findPreviousVersion (ppTime doc) version) of
             None \<Rightarrow> NewDegradedOutcome KindProvenance (pvName p) [provenance_signal p now ConfidenceLow ''conflicting_metadata'']
                       now (now + pvFreshTTL p) ''previous version in timeline missing from versions map''
           | Some obs \<Rightarrow> provenance_outcome p now stale obs))"

definition Provenance_Provide :: "(string \<Rightarrow> string + packumentProvenanceDoc) \<Rightarrow> provider_call \<Rightarrow> ProvenanceProvider \<Rightarrow> Query \<Rightarrow> Outcome" where
  "Provenance_Provide decode call p q =
     (let now = normalizeTime (callNow call);
          unavailable = (\<lambda>err. NewUnavailableOutcome KindProvenance (pvName p) (Some err) now) in
      case callSlot call of
        Some err \<Rightarrow> unavailable err
      | None \<Rightarrow>
          (case send_query errProvenanceTimeout call (packument_url (pvRegistryURL p) (qPackage q)) [] of
             Inl err \<Rightarrow> unavailable err
           | Inr ans \<Rightarrow>
               if haStatus ans = 404 then provenance_outcome p now False [''not_found'']
               else (case read_answer errEmptyProvenanceBody decode ans of
                       Inl err \<Rightarrow> unavailable err
                     | Inr doc \<Rightarrow> judge_provenance p now (is_stale_answer ans) doc (qVersion q))))"

lemmas provenance_defs = provenance_outcome_def provenance_signal_def

lemma provenance_observations_not_Nil: "provenance_observations doc cur prev = Some obs \<Longrightarrow> obs \<noteq> []"
  by (auto simp: provenance_observations_def Let_def split: if_splits option.splits)

interpretation provenance: evidence_provider KindProvenance "pvName p" "Provenance_Provide decode call p"
proof
  fix q
  have doc: "outKind (judge_provenance p now stale doc v) = KindProvenance \<and> outSource (judge_provenance p now stale doc v) = pvName p \<and>
      (\<forall>s \<in> set (outSignals (judge_provenance p now stale doc v)). sigSource s = pvName p) \<and>
      outState (judge_provenance p now stale doc v) \<in> {StateAvailable, StateStale, StateDegraded} \<and> outSignals (judge_provenance p now stale doc v) \<noteq> [] \<and> outErr (judge_provenance p now stale doc v) = None"
    for now stale doc v
    by (auto simp: judge_provenance_def provenance_defs new_outcome_defs Let_def split: option.split dest: provenance_observations_not_Nil)
  show "outKind (Provenance_Provide decode call p q) = KindProvenance" "outSource (Provenance_Provide decode call p q) = pvName p"
    "outState (Provenance_Provide decode call p q) = StateUnavailable \<and> outSignals (Provenance_Provide decode call p q) = [] \<and> outErr (Provenance_Provide decode call p q) \<noteq> None \<or>
      outState (Provenance_Provide decode call p q) \<in> {StateAvailable, StateStale, StateDegraded} \<and> outSignals (Provenance_Provide decode call p q) \<noteq> [] \<and> outErr (Provenance_Provide decode call p q) = None"
    using doc by (auto simp: Provenance_Provide_def Let_def provenance_defs new_outcome_defs split: option.split sum.split)
  show "sigSource s = pvName p" if "s \<in> set (outSignals (Provenance_Provide decode call p q))" for s
    using that doc by (auto simp: Provenance_Provide_def Let_def provenance_defs new_outcome_defs split: option.splits sum.splits if_splits)
qed

section \<open>Property\<close>

lemma equalStringSet_eq: "equalStringSet a b \<longleftrightarrow> a = b"
  unfolding equalStringSet_def list_eq_iff_nth_eq [of a b] list_all_iff set_upt atLeastLessThan_iff by auto

text \<open>The maintainers of a version, as a bag of names without case.\<close>

definition maintainers :: "packumentProvenanceDoc \<Rightarrow> npmVersionProvenanceMeta \<Rightarrow> string multiset" where
  "maintainers doc v =
     mset (map ToLower (filter (\<lambda>n. n \<noteq> []) (map nuName (if nvMaintainers v \<noteq> [] then nvMaintainers v else ppMaintainers doc))))"

lemma names_of_maintainers:
  "extractMaintainerNames (nvMaintainers u) (ppMaintainers doc) = extractMaintainerNames (nvMaintainers v) (ppMaintainers doc)
     \<longleftrightarrow> maintainers doc u = maintainers doc v"
proof -
  have sort: "SortStrings xs = SortStrings ys \<longleftrightarrow> mset xs = mset ys" for xs ys
  proof
    assume "SortStrings xs = SortStrings ys"
    then have "mset (sort xs) = mset (sort ys)" by (simp only: SortStrings_sort)
    then show "mset xs = mset ys" by (simp only: mset_sort)
  next
    assume "mset xs = mset ys"
    then have "sort xs = sort ys" by (intro properties_for_sort) (simp_all only: mset_sort sorted_sort)
    then show "SortStrings xs = SortStrings ys" by (simp only: SortStrings_sort)
  qed
  have names: "map ToLower (filter (\<lambda>n. n \<noteq> []) (map nuName us)) = map (ToLower \<circ> nuName) (filter (\<lambda>u. nuName u \<noteq> []) us)" for us
    by (simp add: filter_map comp_def)
  show ?thesis unfolding extractMaintainerNames_def Let_def sort maintainers_def names by (rule refl)
qed

text \<open>What makes a release differ from the one before it.\<close>

definition ownership_changed :: "packumentProvenanceDoc \<Rightarrow> npmVersionProvenanceMeta \<Rightarrow> npmVersionProvenanceMeta \<Rightarrow> bool" where
  "ownership_changed doc cur prev =
     (maintainers doc cur \<noteq> maintainers doc prev \<or>
      nuName (nvNpmUser cur) \<noteq> [] \<and> nuName (nvNpmUser prev) \<noteq> [] \<and> nuName (nvNpmUser cur) \<noteq> nuName (nvNpmUser prev) \<or>
      extractRepoURL (nvRepository prev) \<noteq> [] \<and> extractRepoURL (nvRepository cur) \<noteq> extractRepoURL (nvRepository prev) \<or>
      hasAttestation (nvDist prev) \<and> \<not> hasAttestation (nvDist cur))"

lemma detect_changes_iff: "detect_changes doc cur prev \<noteq> [] \<longleftrightarrow> ownership_changed doc cur prev"
  unfolding detect_changes_def Let_def equalStringSet_eq names_of_maintainers publisher_change_def ownership_changed_def by simp

definition change_names :: "string set" where
  "change_names = {''maintainer_set_changed'', ''new_unrecognized_publisher'', ''publisher_changed'', ''repository_changed'', ''attestation_removed''}"

lemma detect_changes_names: "list_all (\<lambda>n. n \<in> change_names) (detect_changes doc cur prev)"
proof -
  have "''maintainer_set_changed'' \<in> change_names" "''new_unrecognized_publisher'' \<in> change_names" "''publisher_changed'' \<in> change_names"
    "''repository_changed'' \<in> change_names" "''attestation_removed'' \<in> change_names"
    by (simp_all add: change_names_def)
  then show ?thesis unfolding detect_changes_def Let_def publisher_change_def list_all_append by simp
qed

lemma observed_changed:
  assumes "provenance_observations doc cur pv = Some obs" "pv \<noteq> []" "map_of (ppVersions doc) pv = Some prev"
  shows "''changed'' \<in> set obs \<longleftrightarrow> ownership_changed doc cur prev" "''unchanged'' \<in> set obs \<longleftrightarrow> \<not> ownership_changed doc cur prev"
proof -
  have n: "''changed'' \<notin> change_names" "''unchanged'' \<notin> change_names" by (simp_all add: change_names_def)
  have obs: "obs = (if hasAttestation (nvDist cur) then [''attestation_present''] else []) @
      (if hasAttestation (nvDist prev) \<and> \<not> hasAttestation (nvDist cur) then [''attestation_removed''] else []) @
      (if detect_changes doc cur prev \<noteq> [] then ''changed'' # detect_changes doc cur prev else [''unchanged''])"
    using assms by (simp add: provenance_observations_def Let_def)
  have m: "n \<notin> change_names \<Longrightarrow> n \<notin> set (detect_changes doc cur prev)" for n
    using detect_changes_names [of doc cur prev] by (auto simp: list_all_iff)
  show "''changed'' \<in> set obs \<longleftrightarrow> ownership_changed doc cur prev" "''unchanged'' \<in> set obs \<longleftrightarrow> \<not> ownership_changed doc cur prev"
    using m [OF n(1)] m [OF n(2)] unfolding obs detect_changes_iff [symmetric] by simp_all
qed


definition sample_provenance :: "string \<Rightarrow> npmVersionProvenanceMeta" where
  "sample_provenance user =
     \<lparr>nvVersion = [], nvMaintainers = [\<lparr>nuName = ''ann'', nuEmail = []\<rparr>], nvNpmUser = \<lparr>nuName = user, nuEmail = []\<rparr>, nvRepository = JNull,
      nvDist = \<lparr>ndIntegrity = [], ndTarball = [], ndAttestations = JNull, ndSignatures = JNull\<rparr>\<rparr>"

definition sample_packument :: packumentProvenanceDoc where
  "sample_packument = \<lparr>ppName = ''left-pad'', ppTime = Some sample_stamps, ppMaintainers = [],
     ppVersions = [(''1.0.0'', sample_provenance ''ann''), (''2.0.0'', sample_provenance ''eve'')]\<rparr>"


text \<open>
  A registry signature counts as an attestation, so a release that drops its attestations but is
  signed by the registry is not reported.
\<close>

lemma signature_hides_removed_attestation:
  assumes "ndSignatures (nvDist cur) = JArray (sig # sigs)"
  shows "''attestation_removed'' \<notin> set (detect_changes doc cur prev)"
proof -
  have "hasAttestation (nvDist cur)" using assms by (simp add: hasAttestation_def)
  then show ?thesis by (simp add: detect_changes_def publisher_change_def Let_def)
qed

end
