(* ===== verification/Confusion.thy ===== *)
theory Confusion
  imports Assembler
begin

text \<open>
  The name-confusion provider of \<^verbatim>\<open>src/internal/evidence/confusion.go\<close>. A name is compared with a
  corpus of popular packages: homoglyphs, scopes, separators, keyboard neighbours, transpositions
  and edit distance. The semaphore and the context show as two parameters: whether a slot was
  obtained and before which comparisons the context was done. A similarity \<open>1 - dist / maxLen\<close>
  is kept as the fraction it denotes; \<open>sim2\<close> renders it with two decimals. The provider's edit
  distance, two rows of a table, is shown to be the least number of single-character edits.
\<close>

section \<open>Corpus\<close>

type_synonym SliceCorpus = "string list"

definition Corpus_Contains :: "SliceCorpus \<Rightarrow> string \<Rightarrow> bool" where
  "Corpus_Contains s name = list_ex (\<lambda>p. ToLower p = ToLower name) s"

record ConfusionMatch =
  cmTarget :: string
  cmReason :: string
  cmScore :: "int \<times> int"

section \<open>Comparisons\<close>

text \<open>The lookalike table, by code point.\<close>

definition confusableMap :: "(nat \<times> char) list" where
  "confusableMap =
    [(1072, CHR ''a''), (1089, CHR ''c''), (1077, CHR ''e''), (1110, CHR ''i''), (1112, CHR ''j''), (1086, CHR ''o''),
     (1088, CHR ''p''), (1109, CHR ''s''), (1091, CHR ''y''), (1093, CHR ''x''), (1307, CHR ''q''), (1309, CHR ''w''),
     (1040, CHR ''a''), (1042, CHR ''b''), (1057, CHR ''c''), (1045, CHR ''e''), (1053, CHR ''h''), (1030, CHR ''i''),
     (1032, CHR ''j''), (1050, CHR ''k''), (1052, CHR ''m''), (1054, CHR ''o''), (1056, CHR ''p''), (1029, CHR ''s''),
     (1058, CHR ''t''), (1061, CHR ''x''),
     (945, CHR ''a''), (946, CHR ''b''), (949, CHR ''e''), (953, CHR ''i''), (954, CHR ''k''), (959, CHR ''o''),
     (961, CHR ''p''), (965, CHR ''u''), (957, CHR ''v''), (967, CHR ''x'')]"

definition skeleton :: "string \<Rightarrow> string" where
  "skeleton candidate =
     concat (map (\<lambda>r. case map_of confusableMap r of Some m \<Rightarrow> [m] | None \<Rightarrow> encode_rune (lower_rune r)) (runes candidate))"

definition checkUnicodeConfusable :: "string \<Rightarrow> string list \<Rightarrow> ConfusionMatch option" where
  "checkUnicodeConfusable candidate targets =
     (if \<not> list_ex (\<lambda>r. r > 127) (runes candidate) then None
      else map_option (\<lambda>target. \<lparr>cmTarget = target,
             cmReason = ''unicode_confusable: contains lookalike Unicode characters that skeleton-map to popular package '' @ Quote target,
             cmScore = (99, 100)\<rparr>)
           (find (\<lambda>target. skeleton candidate = ToLower target) targets))"

definition qwertyAdjacent :: "(char \<times> string) list" where
  "qwertyAdjacent =
    [(CHR ''q'', ''was''), (CHR ''w'', ''qeasd''), (CHR ''e'', ''wrsdf''), (CHR ''r'', ''etdfg''), (CHR ''t'', ''ryfgh''),
     (CHR ''y'', ''tughj''), (CHR ''u'', ''yihjk''), (CHR ''i'', ''uojkl''), (CHR ''o'', ''ipkl''), (CHR ''p'', ''ol''),
     (CHR ''a'', ''qwsz''), (CHR ''s'', ''awedxz''), (CHR ''d'', ''serfcx''), (CHR ''f'', ''drtgvc''), (CHR ''g'', ''ftyhbv''),
     (CHR ''h'', ''gyujnb''), (CHR ''j'', ''huikmn''), (CHR ''k'', ''jiolm''), (CHR ''l'', ''kop''), (CHR ''z'', ''asx''),
     (CHR ''x'', ''zsdc''), (CHR ''c'', ''xdfv''), (CHR ''v'', ''cfgb''), (CHR ''b'', ''vghn''), (CHR ''n'', ''bhjm''),
     (CHR ''m'', ''njk'')]"

text \<open>The indices at which two strings of the same length differ.\<close>

definition diff_indices :: "string \<Rightarrow> string \<Rightarrow> nat list" where
  "diff_indices candidate target = filter (\<lambda>i. candidate ! i \<noteq> target ! i) [0..<length candidate]"

definition checkKeyboardAdjacency :: "string \<Rightarrow> string \<Rightarrow> (char \<times> char \<times> nat) option" where
  "checkKeyboardAdjacency candidate target =
     (if length candidate \<noteq> length target \<or> length candidate = 0 then None
      else case diff_indices candidate target of
        [diffIdx] \<Rightarrow>
          let c1 = candidate ! diffIdx; c2 = target ! diffIdx in
          (case map_of qwertyAdjacent c1 of
             None \<Rightarrow> None
           | Some adj \<Rightarrow> if IndexByte c2 adj \<noteq> None then Some (c1, c2, diffIdx) else None)
      | _ \<Rightarrow> None)"

definition isTransposition :: "string \<Rightarrow> string \<Rightarrow> bool" where
  "isTransposition candidate target =
     (if length candidate \<noteq> length target \<or> length candidate < 3 then False
      else case diff_indices candidate target of
        [i, j] \<Rightarrow> j = i + 1 \<and> candidate ! i = target ! j \<and> candidate ! j = target ! i
      | _ \<Rightarrow> False)"

definition normalizeSeparators :: "string \<Rightarrow> string" where
  "normalizeSeparators s = filter (\<lambda>b. b \<noteq> CHR ''-'' \<and> b \<noteq> CHR ''_'' \<and> b \<noteq> CHR ''.'') s"

text \<open>
  The distance keeps two rows of the table. \<open>lev_row\<close> is the inner loop from column 1 on, with
  \<open>left\<close> the entry written last; \<open>lev_rows\<close> is the outer loop.
\<close>

fun lev_row :: "nat \<Rightarrow> nat list \<Rightarrow> nat list \<Rightarrow> nat \<Rightarrow> nat list" where
  "lev_row x (y # ys) (p0 # p1 # ps) left =
     (let cost = (if x = y then 0 else 1);
          v = min (min (p1 + 1) (left + 1)) (p0 + cost)
      in v # lev_row x ys (p1 # ps) v)"
| "lev_row x _ _ left = []"

fun lev_rows :: "nat \<Rightarrow> nat list \<Rightarrow> nat list \<Rightarrow> nat list \<Rightarrow> nat list" where
  "lev_rows i [] r2 prev = prev"
| "lev_rows i (x # xs) r2 prev = lev_rows (i + 1) xs r2 (i # lev_row x r2 prev i)"

definition levenshteinDistance :: "string \<Rightarrow> string \<Rightarrow> nat" where
  "levenshteinDistance s1 s2 =
     (let r1 = runes s1; r2 = runes s2; n1 = length r1; n2 = length r2 in
      if n1 = 0 then n2
      else if n2 = 0 then n1
      else last (lev_rows 1 r1 r2 [0..<n2 + 1]))"

section \<open>The provider\<close>

definition scope_confusion :: "string \<Rightarrow> string list \<Rightarrow> ConfusionMatch option" where
  "scope_confusion candidateLower popularPackages =
     (if \<not> HasPrefix candidateLower ''@'' then None
      else case SplitN2 CHR ''/'' candidateLower of
        [scope, unscoped] \<Rightarrow>
          if unscoped = [] then None
          else map_option (\<lambda>target. \<lparr>cmTarget = target,
                 cmReason = ''scope_confusion: unscoped package name '' @ Quote unscoped @ '' matches popular package '' @ Quote target @
                   '' under untrusted scope '' @ Quote scope, cmScore = (1, 1)\<rparr>)
               (find (\<lambda>target. unscoped = ToLower target) popularPackages)
      | _ \<Rightarrow> None)"

text \<open>Three outcomes of comparing with one target: a match, or going on. The fraction
  \<open>(maxLen - dist) / maxLen\<close> is at least 0.80 when \<open>5 * dist\<close> is at most \<open>maxLen\<close>.\<close>

definition compare_target :: "(nat \<Rightarrow> nat \<Rightarrow> string) \<Rightarrow> string \<Rightarrow> string \<Rightarrow> ConfusionMatch option" where
  "compare_target sim2 candidateLower target =
     (let targetLower = ToLower target in
      if candidateLower = targetLower then None
      else
        let normCand = normalizeSeparators candidateLower; normTarg = normalizeSeparators targetLower in
        if normCand = normTarg \<and> normCand \<noteq> []
        then Some \<lparr>cmTarget = target, cmReason = ''normalized_separators: differs only by hyphens or punctuation from popular package '' @
               Quote target, cmScore = (98, 100)\<rparr>
        else case checkKeyboardAdjacency candidateLower targetLower of
          Some (diffChar, adjChar, idx) \<Rightarrow>
            Some \<lparr>cmTarget = target, cmReason = ''keyboard_adjacency: character '' @ [CHR 0x27, diffChar, CHR 0x27] @ '' at index '' @
                show_nat idx @ '' is adjacent on QWERTY keyboard to '' @ [CHR 0x27, adjChar, CHR 0x27] @ '' in popular package '' @ Quote target,
              cmScore = (95, 100)\<rparr>
        | None \<Rightarrow>
            if isTransposition candidateLower targetLower
            then Some \<lparr>cmTarget = target, cmReason = ''transposition: adjacent characters transposed compared to popular package '' @
                   Quote target, cmScore = (95, 100)\<rparr>
            else
              let dist = levenshteinDistance candidateLower targetLower;
                  maxLen = max (length candidateLower) (length targetLower);
                  sim = (int maxLen - int dist, int maxLen)
              in if dist = 1 \<and> length targetLower \<ge> 4
                 then Some \<lparr>cmTarget = target, cmReason = ''edit_distance: 1 edit away from popular package '' @ Quote target @
                        '' (similarity: '' @ sim2 dist maxLen @ '')'', cmScore = sim\<rparr>
                 else if dist = 2 \<and> length targetLower \<ge> 8 \<and> 5 * dist \<le> maxLen
                 then Some \<lparr>cmTarget = target, cmReason = ''edit_distance: 2 edits away from popular package '' @ Quote target @
                        '' (similarity: '' @ sim2 dist maxLen @ '')'', cmScore = sim\<rparr>
                 else None)"

definition errConfusionTimeout :: string where
  "errConfusionTimeout = ''name confusion provider: evaluation timed out''"

definition errEmptyCorpus :: string where
  "errEmptyCorpus = ''name confusion provider: popular package corpus is empty or unavailable''"

text \<open>The loop over the corpus; \<open>done\<close> says before which comparisons the context had ended.\<close>

fun compare_all :: "(nat \<Rightarrow> nat \<Rightarrow> string) \<Rightarrow> (nat \<Rightarrow> bool) \<Rightarrow> nat \<Rightarrow> string \<Rightarrow> string list \<Rightarrow> string + ConfusionMatch option" where
  "compare_all sim2 ended n candidateLower [] = Inr None"
| "compare_all sim2 ended n candidateLower (target # targets) =
     (if ended n then Inl errConfusionTimeout
      else case compare_target sim2 candidateLower target of
        Some m \<Rightarrow> Inr (Some m)
      | None \<Rightarrow> compare_all sim2 ended (n + 1) candidateLower targets)"

definition evaluateCandidate :: "(nat \<Rightarrow> nat \<Rightarrow> string) \<Rightarrow> (nat \<Rightarrow> bool) \<Rightarrow> string list \<Rightarrow> string \<Rightarrow> string + ConfusionMatch option" where
  "evaluateCandidate sim2 ended popularPackages candidate =
     (let candidateLower = ToLower candidate in
      case checkUnicodeConfusable candidate popularPackages of
        Some m \<Rightarrow> Inr (Some m)
      | None \<Rightarrow>
          (case scope_confusion candidateLower popularPackages of
             Some m \<Rightarrow> Inr (Some m)
           | None \<Rightarrow> compare_all sim2 ended 0 candidateLower popularPackages))"

record ConfusionProvider =
  cpName :: string
  cpCorpus :: "SliceCorpus option"
  cpTimeout :: duration
  cpFreshTTL :: duration
  cpMaxConns :: int

datatype ConfusionOption = WithConfusionCorpus SliceCorpus | WithConfusionTimeout duration | WithConfusionConcurrency int

fun apply_confusion_option :: "ConfusionOption \<Rightarrow> ConfusionProvider \<Rightarrow> ConfusionProvider" where
  "apply_confusion_option (WithConfusionCorpus corpus) p = p\<lparr>cpCorpus := Some corpus\<rparr>"
| "apply_confusion_option (WithConfusionTimeout timeout) p = (if timeout > 0 then p\<lparr>cpTimeout := timeout\<rparr> else p)"
| "apply_confusion_option (WithConfusionConcurrency maxConns) p = (if maxConns > 0 then p\<lparr>cpMaxConns := maxConns\<rparr> else p)"

definition DefaultMaxConns :: int where "DefaultMaxConns = 10"

definition NewConfusionProvider :: "ConfusionOption list \<Rightarrow> ConfusionProvider" where
  "NewConfusionProvider opts =
     fold apply_confusion_option opts \<lparr>cpName = ''name_confusion'', cpCorpus = None, cpTimeout = 5 * Second,
       cpFreshTTL = 12 * Hour, cpMaxConns = DefaultMaxConns\<rparr>"

text \<open>What a call sees of the outside: the clock, whether the semaphore gave a slot before the
  context was done (else the context's error), and the ends of the deadline.\<close>

record confusion_call =
  ccNow :: gotime
  ccSlot :: "string option"
  ccEnded :: "nat \<Rightarrow> bool"

definition confusion_signal :: "ConfusionProvider \<Rightarrow> gotime \<Rightarrow> string \<Rightarrow> Signal" where
  "confusion_signal p now observation =
     \<lparr>sigKind = KindNameConfusion, sigSource = cpName p, sigObservation = observation, sigConfidence = ConfidenceHigh,
      sigRetrievedAt = now, sigFreshUntil = now + cpFreshTTL p\<rparr>"

definition Confusion_Provide :: "(nat \<Rightarrow> nat \<Rightarrow> string) \<Rightarrow> confusion_call \<Rightarrow> ConfusionProvider \<Rightarrow> Query \<Rightarrow> Outcome" where
  "Confusion_Provide sim2 cc p q =
     (let now = normalizeTime (ccNow cc); unavailable = (\<lambda>err. NewUnavailableOutcome KindNameConfusion (cpName p) (Some err) now);
          available = (\<lambda>obs. NewAvailableOutcome KindNameConfusion (cpName p) (map (confusion_signal p now) obs) now (now + cpFreshTTL p))
      in case cpCorpus p of
        None \<Rightarrow> unavailable errEmptyCorpus
      | Some corpus \<Rightarrow>
          if corpus = [] then unavailable errEmptyCorpus
          else (case ccSlot cc of
            Some err \<Rightarrow> unavailable err
          | None \<Rightarrow>
              (case evaluateCandidate sim2 (ccEnded cc) corpus (qPackage q) of
                 Inl err \<Rightarrow> unavailable err
               | Inr match \<Rightarrow>
                   if Corpus_Contains corpus (qPackage q) then available [''exact_popular_match'']
                   else (case match of
                      None \<Rightarrow> available [''no_confusion_detected'']
                    | Some m \<Rightarrow>
                        (available [''confusion_detected:'' @ cmTarget m, ''target:'' @ cmTarget m, ''reason:'' @ cmReason m])
                          \<lparr>outReason := ''confusable with '' @ Quote (cmTarget m) @ '': '' @ cmReason m\<rparr>))))"

section \<open>Edit distance\<close>

text \<open>One edit inserts, deletes or replaces one element. The reference is the least number of
  edits that turn one list into the other.\<close>

inductive edit :: "'a list \<Rightarrow> 'a list \<Rightarrow> bool" where
  insertion: "edit (p @ s) (p @ x # s)"
| deletion: "edit (p @ x # s) (p @ s)"
| substitution: "edit (p @ x # s) (p @ y # s)"

definition edit_distance :: "'a list \<Rightarrow> 'a list \<Rightarrow> nat" where
  "edit_distance xs ys = (LEAST n. (edit ^^ n) xs ys)"

lemma edit_Cons: "edit xs ys \<Longrightarrow> edit (z # xs) (z # ys)"
proof (induction rule: edit.induct)
  case (insertion p s x)
  then show ?case using edit.insertion [of "z # p" s x] by simp
next
  case (deletion p x s)
  then show ?case using edit.deletion [of "z # p" x s] by simp
next
  case (substitution p x s y)
  then show ?case using edit.substitution [of "z # p" x s y] by simp
qed

lemma edits_Cons: "(edit ^^ n) xs ys \<Longrightarrow> (edit ^^ n) (z # xs) (z # ys)"
proof (induction n arbitrary: ys)
  case (Suc n)
  then obtain m where "(edit ^^ n) xs m" "edit m ys" by (auto elim: relpowp_Suc_E)
  then show ?case using Suc.IH edit_Cons relpowp_Suc_I by metis
qed simp

text \<open>The recurrence, on the first elements.\<close>

fun ed :: "'a list \<Rightarrow> 'a list \<Rightarrow> nat" where
  "ed [] ys = length ys"
| "ed (x # xs) [] = Suc (length xs)"
| "ed (x # xs) (y # ys) = min (min (ed xs (y # ys) + 1) (ed (x # xs) ys + 1)) (ed xs ys + (if x = y then 0 else 1))"

lemma ed_Nil2 [simp]: "ed xs [] = length xs"
  by (cases xs) simp_all

lemma edits_insert: "(edit ^^ length ys) [] ys"
proof (induction ys)
  case (Cons y ys)
  have "(edit ^^ length ys) [y] (y # ys)" using edits_Cons [OF Cons.IH] by simp
  moreover have "edit [] [y]" using edit.insertion [of "[]" "[]" y] by simp
  ultimately have "(edit ^^ Suc (length ys)) [] (y # ys)" by (rule relpowp_Suc_I2 [rotated])
  then show ?case by (simp only: list.size(4) add_0_right add_Suc_right)
qed simp

lemma edits_ed: "(edit ^^ ed xs ys) xs ys"
proof (induction xs ys rule: ed.induct)
  case (1 ys)
  then show ?case using edits_insert by simp
next
  case (2 x xs)
  have "(edit ^^ length zs) zs []" for zs :: "'a list"
  proof (induction zs)
    case (Cons z zs)
    have "edit (z # zs) zs" using edit.deletion [of "[]" z zs] by simp
    then have "(edit ^^ Suc (length zs)) (z # zs) []" by (rule relpowp_Suc_I2 [OF _ Cons.IH])
    then show ?case by (simp only: list.size(4) add_0_right add_Suc_right)
  qed simp
  from this [of "x # xs"] show ?case by (simp only: ed.simps list.size(4) add_0_right add_Suc_right)
next
  case (3 x xs y ys)
  have d: "edit (x # xs) xs" "edit ys (y # ys)" "edit (x # ys) (y # ys)"
    using edit.deletion [of "[]" x xs] edit.insertion [of "[]" ys y] edit.substitution [of "[]" x ys y] by simp_all
  have "(edit ^^ Suc (ed xs (y # ys))) (x # xs) (y # ys)" by (rule relpowp_Suc_I2 [OF d(1) 3(1)])
  moreover have "(edit ^^ Suc (ed (x # xs) ys)) (x # xs) (y # ys)" by (rule relpowp_Suc_I [OF 3(2) d(2)])
  moreover have "(edit ^^ (ed xs ys + (if x = y then 0 else 1))) (x # xs) (y # ys)"
    using edits_Cons [OF 3(3), of x] relpowp_Suc_I [OF edits_Cons [OF 3(3), of x] d(3)]
    by (cases "x = y") (simp_all del: relpowp.simps)
  ultimately show ?case unfolding ed.simps min_def Suc_eq_plus1 [symmetric] by (simp only: split: if_split) simp
qed

lemma ed_second: "ed s (c # z) \<le> ed s z + 1"
  by (cases s) simp_all

lemma ed_first: "ed (x # s) z \<le> ed s z + 1"
  by (cases z) simp_all

lemma ed_drop_first: "ed s z \<le> ed (x # s) z + 1"
proof (induction z)
  case (Cons c z)
  then show ?case using ed_second [of s c z] by simp
qed simp

lemma ed_replace_first: "ed (x # s) z \<le> ed (y # s) z + 1"
proof (induction z)
  case (Cons c z)
  then show ?case by (auto simp: min_def)
qed simp

lemma min3_step:
  fixes a b c :: nat
  assumes "a \<le> a' + 1" "b \<le> b' + 1" "c \<le> c' + 1"
  shows "min (min (a + 1) (b + 1)) (c + k) \<le> min (min (a' + 1) (b' + 1)) (c' + k) + 1"
proof -
  define m where "m = min (min (a + 1) (b + 1)) (c + k)"
  have "m \<le> a + 1" "m \<le> b + 1" "m \<le> c + k" by (simp_all add: m_def)
  then have "m \<le> a' + 1 + 1" "m \<le> b' + 1 + 1" "m \<le> c' + k + 1" using assms by linarith+
  then show ?thesis unfolding m_def [symmetric] by (simp add: min_def)
qed

lemma ed_under: "(\<And>z. ed u z \<le> ed v z + 1) \<Longrightarrow> ed (a # u) z \<le> ed (a # v) z + 1"
proof (induction z)
  case Nil
  then show ?case using Nil [of "[]"] by simp
next
  case (Cons c z)
  then show ?case unfolding ed.simps by (intro min3_step) auto
qed

lemma ed_context:
  assumes "\<And>z. ed u z \<le> ed v z + 1"
  shows "ed (p @ u) z \<le> ed (p @ v) z + 1"
proof (induction p arbitrary: z)
  case Nil
  show ?case using assms by simp
next
  case (Cons a p)
  show ?case unfolding append_Cons by (rule ed_under [OF Cons.IH])
qed

lemma edit_ed: "edit u v \<Longrightarrow> ed u z \<le> ed v z + 1"
proof (induction rule: edit.induct)
  case (insertion p s x)
  show ?case by (rule ed_context [OF ed_drop_first])
next
  case (deletion p x s)
  show ?case by (rule ed_context [OF ed_first])
next
  case (substitution p x s y)
  show ?case by (rule ed_context [OF ed_replace_first])
qed

lemma edits_bound: "(edit ^^ n) u v \<Longrightarrow> ed u z \<le> ed v z + n"
proof (induction n arbitrary: v)
  case (Suc n)
  then obtain m where "(edit ^^ n) u m" "edit m v" by (auto elim: relpowp_Suc_E)
  then show ?case using Suc.IH [of m] edit_ed [of m v z] by simp
qed simp

lemma ed_self [simp]: "ed xs xs = 0"
  by (induction xs) simp_all

lemma edit_distance_ed: "edit_distance xs ys = ed xs ys"
  unfolding edit_distance_def
proof (rule Least_equality)
  show "(edit ^^ ed xs ys) xs ys" by (rule edits_ed)
  show "ed xs ys \<le> n" if "(edit ^^ n) xs ys" for n using edits_bound [OF that, of ys] by simp
qed

text \<open>Distances do not change when both lists are reversed.\<close>

lemma edit_rev: "edit xs ys \<Longrightarrow> edit (rev xs) (rev ys)"
proof (induction rule: edit.induct)
  case (insertion p s x)
  then show ?case using edit.insertion [of "rev s" "rev p" x] by simp
next
  case (deletion p x s)
  then show ?case using edit.deletion [of "rev s" x "rev p"] by simp
next
  case (substitution p x s y)
  then show ?case using edit.substitution [of "rev s" x "rev p" y] by simp
qed

lemma edits_rev: "(edit ^^ n) xs ys \<Longrightarrow> (edit ^^ n) (rev xs) (rev ys)"
proof (induction n arbitrary: ys)
  case (Suc n)
  then obtain m where "(edit ^^ n) xs m" "edit m ys" by (auto elim: relpowp_Suc_E)
  then show ?case using Suc.IH edit_rev relpowp_Suc_I by metis
qed simp

lemma ed_rev: "ed (rev xs) (rev ys) = ed xs ys"
proof (rule antisym)
  show "ed (rev xs) (rev ys) \<le> ed xs ys" using edits_bound [OF edits_rev [OF edits_ed [of xs ys]], of "rev ys"] by simp
  have "(edit ^^ ed (rev xs) (rev ys)) xs ys" using edits_rev [OF edits_ed [of "rev xs" "rev ys"]] by simp
  then show "ed xs ys \<le> ed (rev xs) (rev ys)" using edits_bound [of _ xs ys ys] by simp
qed

text \<open>The rows of the table hold the distances between prefixes.\<close>

definition row_of :: "nat list \<Rightarrow> nat list \<Rightarrow> nat \<Rightarrow> nat list" where
  "row_of pre r2 j = map (\<lambda>k. ed (rev pre) (rev (take k r2))) [j..<length r2 + 1]"

lemma row_of_Cons: "j \<le> length r2 \<Longrightarrow> row_of pre r2 j = ed (rev pre) (rev (take j r2)) # row_of pre r2 (Suc j)"
  by (simp add: row_of_def upt_conv_Cons)

lemma ed_snoc:
  assumes "j < length r2"
  shows "ed (rev (pre @ [x])) (rev (take (Suc j) r2)) =
    min (min (ed (rev pre) (rev (take (Suc j) r2)) + 1) (ed (rev (pre @ [x])) (rev (take j r2)) + 1))
        (ed (rev pre) (rev (take j r2)) + (if x = r2 ! j then 0 else 1))"
  using assms by (simp add: take_Suc_conv_app_nth)

lemma lev_row_row:
  assumes "j \<le> length r2"
  shows "lev_row x (drop j r2) (row_of pre r2 j) (ed (rev (pre @ [x])) (rev (take j r2))) = row_of (pre @ [x]) r2 (Suc j)"
  using assms
proof (induction "length r2 - j" arbitrary: j)
  case 0
  then show ?case by (simp add: row_of_def)
next
  case (Suc n)
  then have j: "j < length r2" by simp
  have d: "drop j r2 = r2 ! j # drop (Suc j) r2" using j by (simp add: Cons_nth_drop_Suc)
  have r: "row_of pre r2 j = ed (rev pre) (rev (take j r2)) # ed (rev pre) (rev (take (Suc j) r2)) # row_of pre r2 (Suc (Suc j))"
    using j row_of_Cons [of j r2 pre] row_of_Cons [of "Suc j" r2 pre] by simp
  have "lev_row x (drop (Suc j) r2) (row_of pre r2 (Suc j)) (ed (rev (pre @ [x])) (rev (take (Suc j) r2))) = row_of (pre @ [x]) r2 (Suc (Suc j))"
    using Suc j by simp
  then show ?case
    unfolding d r using j row_of_Cons [of "Suc j" r2 pre] row_of_Cons [of "Suc j" r2 "pre @ [x]"] ed_snoc [OF j, of pre x]
    by (simp add: Let_def)
qed

lemma lev_rows_row:
  "i = length pre + 1 \<Longrightarrow> lev_rows i xs r2 (row_of pre r2 0) = row_of (pre @ xs) r2 0"
proof (induction xs arbitrary: i pre)
  case (Cons x xs)
  have "i # lev_row x r2 (row_of pre r2 0) i = row_of (pre @ [x]) r2 0"
    using lev_row_row [of 0 r2 x pre] Cons.prems row_of_Cons [of 0 r2 "pre @ [x]"] by simp
  then show ?case using Cons.IH [of "i + 1" "pre @ [x]"] Cons.prems by simp
qed simp

lemma last_row_of: "last (row_of pre r2 0) = ed (rev pre) (rev r2)"
  by (simp add: row_of_def)

lemma row_of_Nil: "row_of [] r2 0 = [0..<length r2 + 1]"
proof -
  have "map (\<lambda>k. ed (rev []) (rev (take k r2))) [0..<length r2 + 1] = map (\<lambda>k. k) [0..<length r2 + 1]"
    by (rule map_cong) auto
  then show ?thesis unfolding row_of_def by simp
qed

section \<open>What a comparison reports\<close>

lemma find_target: "find P xs = Some t \<Longrightarrow> t \<in> set xs"
  by (auto simp: find_Some_iff)

lemma compare_target_Some: "compare_target sim2 c t = Some m \<Longrightarrow> cmTarget m = t"
  by (auto simp: compare_target_def Let_def split: if_splits option.splits)

lemma compare_all_Inr: "compare_all sim2 ended n c targets = Inr (Some m) \<Longrightarrow> cmTarget m \<in> set targets"
  by (induction targets arbitrary: n) (auto dest: compare_target_Some split: if_splits option.splits)

lemma compare_all_finds:
  assumes "\<And>k. \<not> ended k" "t \<in> set targets" "compare_target sim2 c t \<noteq> None"
  shows "\<exists>m. compare_all sim2 ended n c targets = Inr (Some m)"
  using assms(2) by (induction targets arbitrary: n) (use assms in \<open>auto split: option.splits\<close>)

lemma evaluateCandidate_target:
  "evaluateCandidate sim2 ended corpus candidate = Inr (Some m) \<Longrightarrow> cmTarget m \<in> set corpus"
  by (auto simp: evaluateCandidate_def checkUnicodeConfusable_def scope_confusion_def Let_def
      dest: compare_all_Inr find_target split: option.splits if_splits list.splits)

text \<open>Names so close that a comparison always reports them: a different name one edit away from a
  name of four bytes or more, or two edits away from one of eight or more when the longer of the
  two has ten.\<close>

definition near_miss :: "string \<Rightarrow> string \<Rightarrow> bool" where
  "near_miss c t =
     (let d = edit_distance (runes c) (runes t) in
      (d = 1 \<and> length t \<ge> 4) \<or> (d = 2 \<and> length t \<ge> 8 \<and> max (length c) (length t) \<ge> 10))"


lemma levenshtein_edit_distance: "levenshteinDistance s1 s2 = edit_distance (runes s1) (runes s2)"
  using lev_rows_row [of 1 "[]" "runes s1" "runes s2"] last_row_of [of "runes s1" "runes s2"] ed_rev [of "runes s1" "runes s2"]
    edit_distance_ed [of "runes s1" "runes s2"]
  by (simp add: levenshteinDistance_def Let_def row_of_Nil)

lemma near_miss_reported:
  assumes "near_miss c (ToLower t)" "c \<noteq> ToLower t"
  shows "compare_target sim2 c t \<noteq> None"
  using assms
  by (auto simp: compare_target_def near_miss_def levenshtein_edit_distance Let_def split: if_splits option.splits)

section \<open>Properties\<close>

text \<open>
  C17. The two-row distance loop computes the edit distance: its result is the least number of
  insertions, deletions and replacements of single characters that turn the first name into the
  second, for all names, the empty ones and those that are not valid UTF-8 included.
\<close>

theorem levenshtein_is_edit_distance:
  "levenshteinDistance s1 s2 = (LEAST n. (edit ^^ n) (runes s1) (runes s2))"
  unfolding levenshtein_edit_distance edit_distance_def ..

text \<open>
  Near misses are detected. When the corpus has a popular name that the queried name misses by
  one edit (or by two, for long names) and the queried name is not itself popular, an evaluation
  that is not cut short answers with an available outcome whose first observation names a package
  of the corpus as the one confused.
\<close>

lemma near_miss_detected:
  assumes "cpCorpus p = Some corpus" "t \<in> set corpus" "near_miss (ToLower (qPackage q)) (ToLower t)"
    and "\<not> Corpus_Contains corpus (qPackage q)" "ccSlot cc = None" "\<And>k. \<not> ccEnded cc k"
  shows "\<exists>target \<in> set corpus. Outcome_State (Confusion_Provide sim2 cc p q) = StateAvailable \<and>
     map sigObservation (take 1 (Outcome_Signals (Confusion_Provide sim2 cc p q))) = [''confusion_detected:'' @ target]"
proof -
  have "ToLower (qPackage q) \<noteq> ToLower t" using assms(2,4) by (auto simp: Corpus_Contains_def list_ex_iff)
  then have "compare_target sim2 (ToLower (qPackage q)) t \<noteq> None" using near_miss_reported [OF assms(3)] by blast
  from compare_all_finds [where n = 0 and ended = "ccEnded cc", OF assms(6) assms(2) this]
  have "\<exists>m. evaluateCandidate sim2 (ccEnded cc) corpus (qPackage q) = Inr (Some m)"
    by (auto simp: evaluateCandidate_def Let_def split: option.split)
  then obtain m where m: "evaluateCandidate sim2 (ccEnded cc) corpus (qPackage q) = Inr (Some m)" ..
  have "corpus \<noteq> []" using assms(2) by auto
  then show ?thesis
    using evaluateCandidate_target [OF m] m assms(1,4,5)
    by (auto simp: Confusion_Provide_def Let_def NewAvailableOutcome_def Outcome_State_def Outcome_Signals_def confusion_signal_def)
qed

definition sample_confusion :: ConfusionProvider where
  "sample_confusion = NewConfusionProvider [WithConfusionCorpus [''react'', ''express'']]"

definition quiet_call :: confusion_call where
  "quiet_call = \<lparr>ccNow = 5000000, ccSlot = None, ccEnded = (\<lambda>_. False)\<rparr>"

lemma runes_ascii: "is_ascii s \<Longrightarrow> runes s = map of_char s"
proof -
  have "list_all (\<lambda>b. b < 128) bs \<Longrightarrow> decode_runes (length bs) bs = bs" for bs
    by (induction bs) (auto simp: rune_at_def)
  from this [of "map of_char s"] show "is_ascii s \<Longrightarrow> runes s = map of_char s"
    by (simp add: runes_def is_ascii_def list_all_iff)
qed

lemma sample_names: "ToLower ''expres'' = ''expres''" "ToLower ''express'' = ''express''" "ToLower ''react'' = ''react''"
    "is_ascii ''expres''" "is_ascii ''express''"
  by (simp_all add: ToLower_def lower_byte_def)

lemma sample_near_miss: "near_miss (ToLower ''expres'') (ToLower ''express'')"
  unfolding near_miss_def levenshtein_edit_distance [symmetric] sample_names
  by (simp add: levenshteinDistance_def runes_ascii sample_names upt_conv_Cons)

end
