(* ===== verification/Providers.thy ===== *)
theory Providers
  imports Advisory Publish_History Provenance Confusion Pipeline
begin

text \<open>
  The evidence providers together: each keeps the contract of the interface, and what they report
  reaches the verdict through the assembler and the policy.
\<close>

section \<open>The contract\<close>

interpretation confusion: evidence_provider KindNameConfusion "cpName p" "Confusion_Provide sim2 cc p"
  by unfold_locales
     (auto simp: Confusion_Provide_def Let_def new_outcome_defs confusion_signal_def split: option.splits sum.splits if_splits)

definition well_formed_outcome :: "string \<Rightarrow> string \<Rightarrow> Outcome \<Rightarrow> bool" where
  "well_formed_outcome kind source ou =
     (outKind ou = kind \<and> outSource ou = source \<and> State_Valid (outState ou) \<and> IsUnavailable ou = (outErr ou \<noteq> None) \<and>
      Outcome_Signals ou \<noteq> [] \<and> list_all (\<lambda>s. sigSource s = source) (Outcome_Signals ou))"

text \<open>The outcome the assembler uses when nothing fresh is cached is the live one, and its
  observations are those of the snapshot.\<close>

context evidence_cache
begin

lemma live_outcome_observed:
  assumes "p \<in> set (asmProviders a)" "\<forall>q \<in> set (asmProviders a). own_kind q" "distinct (map provKind (asmProviders a))"
    and "\<And>ou. opGet ops c (provKind p) pkg v now = Some ou \<Longrightarrow> \<not> IsAvailable ou"
    and "\<not> IsUnavailable (Provide p \<lparr>qPackage = pkg, qVersion = v\<rparr>)" "s \<in> set (Outcome_Signals (Provide p \<lparr>qPackage = pkg, qVersion = v\<rparr>))"
  shows "complete_signal (asmFreshness a) now s \<in> set (asObservations (assemble_run ops a now pkg v c))"
proof -
  let ?live = "Provide p \<lparr>qPackage = pkg, qVersion = v\<rparr>"
  have "IsAvailable ?live \<or> IsStale ?live \<or> IsDegraded ?live"
    using assms(5) Outcome_State_valid [of ?live] by (cases "Outcome_State ?live") (auto simp: outcome_state_defs simp del: Outcome_State_valid)
  then have live: "fst (choose_outcome ops (asmFreshness a) now pkg v p c) = ?live"
    using assms(4) by (auto simp: choose_outcome_def Let_def split: option.splits)
  let ?s0 = "\<lparr>asObservations = cached_allow_observations ops c pkg v now, asStates = [], asCovered = [], asCache = c\<rparr>"
  let ?F = "\<lambda>p. map (complete_signal (asmFreshness a) now) (Outcome_Signals (fst (choose_outcome ops (asmFreshness a) now pkg v p c)))"
  have "asObservations (fold (provider_step ops (asmFreshness a) now pkg v) (asmProviders a) ?s0) =
      asObservations ?s0 @ concat (map ?F (asmProviders a))"
    by (rule conjunct1 [OF fold_provider_independent [OF assms(2,3)]]) simp
  then have "set (?F p) \<subseteq> set (asObservations (assemble_run ops a now pkg v c))"
    using assms(1) unfolding assemble_run_def Let_def fold_required_observations by auto
  then show ?thesis using assms(6) live by auto
qed

end

text \<open>The observations of a live outcome, in the snapshot.\<close>

lemma live_signal_in_snapshot:
  fixes sha256_hex :: "string \<Rightarrow> string"
  assumes "p \<in> set (asmProviders a)" "\<forall>q \<in> set (asmProviders a). own_kind q" "distinct (map provKind (asmProviders a))"
    and "\<And>ou. MemoryCache_Get c (provKind p) pkg v (normalizeTime clock) = Some ou \<Longrightarrow> \<not> IsAvailable ou"
    and "\<not> IsUnavailable (Provide p \<lparr>qPackage = pkg, qVersion = v\<rparr>)"
    and "s \<in> set (Outcome_Signals (Provide p \<lparr>qPackage = pkg, qVersion = v\<rparr>))" "sigKind s = kind" "sigObservation s = obs"
  shows "\<exists>ob \<in> set (snapObservations (fst (Assemble sha256_hex memory_ops a clock pkg v c))). sigKind ob = kind \<and> sigObservation ob = obs"
proof -
  have "complete_signal (asmFreshness a) (normalizeTime clock) s \<in> set (asObservations (assemble_run memory_ops a (normalizeTime clock) pkg v c))"
    by (rule mem_cache.live_outcome_observed [OF assms(1-3) _ assms(5,6)]) (use assms(4) in \<open>simp add: memory_ops_def\<close>)
  then have "\<exists>ob \<in> set (asObservations (assemble_run memory_ops a (normalizeTime clock) pkg v c)). sigKind ob = kind \<and> sigObservation ob = obs"
    by (rule rev_bexI) (simp add: assms(7,8))
  then show ?thesis
    unfolding Assemble_def Let_def fst_conv NewSnapshot_simps
    by (simp only: observations_canonical_iff [where P = "\<lambda>i j. i = kind \<and> j = obs"])
qed

text \<open>
  The gateway, the command line and the MCP server build their assembler without providers and without
  required kinds. Such an assembler sees nothing wrong with any package: with an empty cache every
  policy allows it, and the decision is not even degraded.
\<close>

lemma assembler_without_providers_allows:
  "decVerdict (Policy_EvaluateSnapshot pol (fst (Assemble sha256_hex memory_ops NewAssembler clock pkg v NewMemoryCache))) = Allow \<and>
   \<not> decDegraded (Policy_EvaluateSnapshot pol (fst (Assemble sha256_hex memory_ops NewAssembler clock pkg v NewMemoryCache)))"
proof -
  let ?snap = "fst (Assemble sha256_hex memory_ops NewAssembler clock pkg v NewMemoryCache)"
  have obs: "snapObservations ?snap = []" "snapProviderStates ?snap = []"
    by (simp_all add: Assemble_def Let_def assemble_run_def NewAssembler_def cached_allow_observations_def memory_ops_def
        MemoryCache_GetCachedAllow_def NewMemoryCache_def canonicalizeObservations_def SortSlice_def)
  then have "AssessWithThreshold ?snap (polThreshold pol) = zeroAssessment"
    by (simp add: AssessWithThreshold_def HasUnavailableEvidence_iff Let_def)
  then show ?thesis by (simp add: Policy_EvaluateSnapshot_def Policy_Assess_def Evaluate_def decision_def Let_def zeroAssessment_def)
qed

section \<open>Properties\<close>

text \<open>
  C35. Every provider keeps the interface's contract: whatever the network, the clock and the
  configuration do, the outcome carries the provider's own kind and name, is in one of the four
  states, is unavailable exactly when it carries an error, and shows at least one signal, all
  attributed to the provider.
\<close>

theorem providers_well_formed:
  "well_formed_outcome KindVulnerability (apName adv) (Advisory_Provide k call adv q) \<and>
   well_formed_outcome KindPublishHistory (hpName his) (History_Provide decode call his q) \<and>
   well_formed_outcome KindProvenance (pvName pro) (Provenance_Provide decode' call pro q) \<and>
   well_formed_outcome KindNameConfusion (cpName con) (Confusion_Provide sim2 cc con q)"
  unfolding well_formed_outcome_def list_all_iff
  by (intro conjI ballI)
     (rule advisory.own_outcome advisory.valid_state advisory.unavailable_iff_error advisory.never_silent
       history.own_outcome history.valid_state history.unavailable_iff_error history.never_silent
       provenance.own_outcome provenance.valid_state provenance.unavailable_iff_error provenance.never_silent
       confusion.own_outcome confusion.valid_state confusion.unavailable_iff_error confusion.never_silent
     | erule advisory.attributed history.attributed provenance.attributed confusion.attributed)+


definition sample_osv :: osv_codec where
  "sample_osv = \<lparr>ocQuery = (\<lambda>_. Inr ''{}''), ocBatch = (\<lambda>_. Inr ''{}''),
     ocDecode = (\<lambda>_. Inr [\<lparr>ovID = ''GHSA-1'', ovSummary = ''prototype pollution'', ovDetails = [], ovAliases = [], ovDatabaseSpecific = [], ovAffected = []\<rparr>]),
     ocDecodeBatch = (\<lambda>_. Inr []), ocKeys = (\<lambda>_. Some [''vulns'']), ocResults = (\<lambda>_. None)\<rparr>"


text \<open>
  A package the registry does not have is blocked as missing. When the history provider is
  among the providers, nothing fresh of its kind is cached and the registry answers 404, the decision
  is to block for the package not being found and for no other reason; in particular it is never
  called malicious.
\<close>

lemma missing_package_blocked_as_missing:
  fixes sha256_hex :: "string \<Rightarrow> string" and c :: MemoryCache
  assumes "\<lparr>provKind = KindPublishHistory, Provide = History_Provide decode call p\<rparr> \<in> set (asmProviders a)"
    and "\<forall>r \<in> set (asmProviders a). own_kind r" "distinct (map provKind (asmProviders a))"
    and "\<And>ou. MemoryCache_Get c KindPublishHistory pkg v (normalizeTime clock) = Some ou \<Longrightarrow> \<not> IsAvailable ou"
    and "callSlot call = None" "send_query errHistoryTimeout call (packument_url (hpRegistryURL p) pkg) [] = Inr ans" "haStatus ans = 404"
  shows "decVerdict (Policy_EvaluateSnapshot pol (fst (Assemble sha256_hex memory_ops a clock pkg v c))) = Block \<and>
     map reasonRuleID (decReasons (Policy_EvaluateSnapshot pol (fst (Assemble sha256_hex memory_ops a clock pkg v c)))) = [''registry.package-not-found'']"
proof -
  let ?q = "\<lparr>qPackage = pkg, qVersion = v\<rparr>" and ?p = "\<lparr>provKind = KindPublishHistory, Provide = History_Provide decode call p\<rparr>"
  let ?snap = "fst (Assemble sha256_hex memory_ops a clock pkg v c)" and ?now = "normalizeTime (callNow call)"
  have out: "Provide ?p ?q = history_outcome p ?now False (absent_signals p ?now ''not_found'')"
    using assms(5-7) by (simp add: History_Provide_def Let_def)
  have sig: "history_signal p ?now KindPublishHistory ConfidenceHigh ''not_found'' \<in> set (Outcome_Signals (Provide ?p ?q))"
    and live: "\<not> IsUnavailable (Provide ?p ?q)"
    unfolding out by (simp_all add: history_outcome_def absent_signals_def NewAvailableOutcome_def Outcome_Signals_def outcome_state_defs)
  have "\<exists>ob \<in> set (snapObservations ?snap). sigKind ob = KindPublishHistory \<and> sigObservation ob = ''not_found''"
    by (rule live_signal_in_snapshot [OF assms(1-3) _ live sig]) (use assms(4) in \<open>simp_all add: history_signal_def\<close>)
  then have "\<exists>ob \<in> set (snapObservations ?snap). not_found_signal ob"
    by (auto simp: not_found_signal_def KindPublishHistory_def)
  then have "PackageNotFound (AssessWithThreshold ?snap (polThreshold pol))" by (simp add: Assess_flags)
  then show ?thesis by (simp add: Policy_EvaluateSnapshot_def Policy_Assess_def Evaluate_def decision_def Let_def)
qed

definition missing_call :: provider_call where
  "missing_call = sample_call\<lparr>callSend := (\<lambda>_ _. Answered \<lparr>haStatus = 404, haWarning = [], haBody = Inr ''{}''\<rparr>)\<rparr>"

end
