(* ===== verification/Cli_Base.thy ===== *)
theory Cli_Base
  imports Mcp Database_File Lifecycle Gateway Providers
begin

text \<open>
  What the commands of \<^verbatim>\<open>src/cmd/installgate\<close> share: the state of the host they act on, their
  results, the reading of their arguments and the way they reach the store. A command is a function
  of the environment, its arguments and the host; it ends with an exit code and what it wrote, or
  the process is killed while it changes the npm configuration. Every command reads the clock once,
  and the schema migrations read it on their own.
\<close>

section \<open>Numbers\<close>

text \<open>\<^verbatim>\<open>strconv.Atoi\<close>: the value, on the left together with an error. Out of range it is the nearest
  value of an \<^verbatim>\<open>int\<close>.\<close>

definition digits_value :: "string \<Rightarrow> int" where
  "digits_value ds = fold (\<lambda>c v. 10 * v + (int (byte c) - 48)) ds 0"

definition is_digit :: "char \<Rightarrow> bool" where
  "is_digit c = (48 \<le> byte c \<and> byte c \<le> 57)"

definition sign_of :: "string \<Rightarrow> bool \<times> string" where
  "sign_of s =
     (case s of
        [] \<Rightarrow> (False, [])
      | c # r \<Rightarrow> if c = CHR ''-'' then (True, r) else if c = CHR ''+'' then (False, r) else (False, s))"

definition Atoi :: "string \<Rightarrow> int + int" where
  "Atoi s =
     (case sign_of s of (neg, ds) \<Rightarrow>
        if ds = [] \<or> \<not> list_all is_digit ds then Inl 0
        else let v = digits_value ds in
          if \<not> neg \<and> v \<ge> 2 ^ 63 then Inl (2 ^ 63 - 1)
          else if neg \<and> v > 2 ^ 63 then Inl (- (2 ^ 63))
          else Inr (if neg then - v else v))"

text \<open>\<^verbatim>\<open>if n, err := strconv.Atoi(s); err == nil\<close>\<close>

definition atoi_ok :: "string \<Rightarrow> int option" where
  "atoi_ok s = (case Atoi s of Inl _ \<Rightarrow> None | Inr n \<Rightarrow> Some n)"

text \<open>\<^verbatim>\<open>time.Time.UnixNano\<close>, an \<^verbatim>\<open>int64\<close>.\<close>

definition UnixNano :: "gotime \<Rightarrow> int" where
  "UnixNano t = (t - 62135596800 * Second + 2 ^ 63) mod 2 ^ 64 - 2 ^ 63"

section \<open>The host\<close>

record host =
  hFiles :: host_files
  hDecisions :: FileStore
  hConfig :: config_world
  hPidFile :: "string option"
  hSignals :: "(int \<times> string) list"
  hSpawned :: "string list list"

datatype cli_result = Exited int string string | Killed

definition exit_code :: "cli_result \<Rightarrow> int option" where
  "exit_code r = (case r of Exited c _ _ \<Rightarrow> Some c | Killed \<Rightarrow> None)"

definition success :: "string \<Rightarrow> cli_result" where
  "success out = Exited 0 out []"

definition failure :: "int \<Rightarrow> string \<Rightarrow> cli_result" where
  "failure code err = Exited code [] (err @ nl)"

definition lines :: "string list \<Rightarrow> string" where
  "lines ls = concat (map (\<lambda>l. l @ nl) ls)"

datatype cli_call =
  CliGetDecision | CliCreateApproval | CliListApprovals | CliRevoke string | CliAppendAudit | CliFindAudit | CliListAudit
| CliExport nat | CliClearCache | CliSaveAllow int

datatype cli_error =
  CliGet get_error | CliOpen open_error | CliStore store_error | CliBackup backup_error | CliEngine engine_error
| CliConfig config_fault | CliPolicy policy_error | CliDocument doc_error | CliStat | CliReadFile | CliWriteFile
| CliHandler config_error | CliMkdir | CliListen | CliServe | CliSpawn

text \<open>How \<^verbatim>\<open>os.WriteFile\<close> over a file ends: the file may be left alone, or cut short.\<close>

datatype write_fate = Written | Refused | CutShort string

datatype start_step = StartMkdir | StartPidFile | StartListen | StartServe | StartSpawn

record cli_env =
  ceUser :: string
  ceVars :: lifecycle_vars
  ceUpstreamVar :: string
  ceNow :: gotime
  ceSchemaNow :: gotime
  ceParseDuration :: "string \<Rightarrow> string + duration"
  ceMarshal :: "json_value \<Rightarrow> string"
  ceApprovalsJSON :: "Approval list \<Rightarrow> string + string"
  ceEventJSON :: "AuditEvent \<Rightarrow> string"
  ceExportJSON :: "AuditEvent \<Rightarrow> string option"
  ceStatusJSON :: "StatusReport \<Rightarrow> string + string"
  ceOpen :: "open_step \<Rightarrow> bool"
  ceMigrate :: "mig_step \<Rightarrow> bool"
  ceOK :: "cli_call \<Rightarrow> bool"
  ceEngineOK :: "engine_call \<Rightarrow> bool"
  ceBackup :: "backup_step \<Rightarrow> bool"
  ceStdout :: nat
  ceCodec :: store_codec
  ceReplace :: replace_all
  ceScan :: approval_scan
  ceText :: "cli_error \<Rightarrow> string"
  ceRegex :: regexes
  ceSha :: "string \<Rightarrow> string"
  ceConfig :: config_env
  ceStat :: "string \<Rightarrow> bool"
  ceRead :: "string \<Rightarrow> string + string"
  ceYamlMap :: "string \<Rightarrow> string + (string \<times> string) list"
  ceYamlDecode :: "string \<Rightarrow> string + Policy"
  ceDecisionDir :: bool
  ceRegular :: "string \<Rightarrow> bool"
  ceReadDoc :: "string \<Rightarrow> string option"
  ceReadBackup :: bool
  ceRestoreWrite :: write_fate
  ceMcp :: mcp_env
  ceMcpWrite :: "nat \<Rightarrow> string option"
  ceMcpText :: "engine_error \<Rightarrow> string"
  ceStdin :: "stdio_event list"
  ceGoVersion :: string
  ceGOOS :: string
  ceGOARCH :: string
  ceStart :: "start_step \<Rightarrow> bool"
  cePid :: int
  ceChildPid :: int
  ceParseURL :: "string \<Rightarrow> URL option"
  ceAlreadyRunning :: bool
  ceReady :: "bool list"
  ceFindProcess :: "int \<Rightarrow> bool"
  ceGone :: "bool list"

section \<open>Reaching the store\<close>

definition getDataDir :: "lifecycle_vars \<Rightarrow> string" where
  "getDataDir vars =
     (if lvDataDir vars \<noteq> [] then lvDataDir vars
      else case lvHome vars of
        Some home \<Rightarrow> if home \<noteq> [] then path_Join [home, ''.installgate''] else ''.installgate''
      | None \<Rightarrow> ''.installgate'')"

definition dbPath :: "cli_env \<Rightarrow> string" where
  "dbPath env = path_Join [getDataDir (ceVars env), ''installgate.db'']"

definition open_store :: "cli_env \<Rightarrow> host \<Rightarrow> (get_error + SQLiteStore) \<times> host" where
  "open_store env h =
     (case getStore (ceOpen env) (ceMigrate env) (ceSchemaNow env) (dbPath env) (hFiles h) of (r, fs) \<Rightarrow> (r, h\<lparr>hFiles := fs\<rparr>))"

text \<open>The statements of a command act on the file that was opened.\<close>

definition write_back :: "cli_env \<Rightarrow> SQLiteStore \<Rightarrow> host \<Rightarrow> host" where
  "write_back env s h = h\<lparr>hFiles := AList.update (dbPath env) (DatabaseFile s) (hFiles h)\<rparr>"

definition with_store :: "cli_env \<Rightarrow> (SQLiteStore \<Rightarrow> cli_result \<times> SQLiteStore) \<Rightarrow> host \<Rightarrow> cli_result \<times> host" where
  "with_store env body h =
     (case open_store env h of
        (Inl e, h') \<Rightarrow> (failure 1 (''installgate: failed to open database: '' @ ceText env (CliGet e)), h')
      | (Inr s, h') \<Rightarrow> (case body s of (r, s') \<Rightarrow> (r, write_back env s' h')))"

section \<open>Reading arguments\<close>

text \<open>Commands of the form \<^verbatim>\<open>[--dry-run] <target>\<close>; \<^term>\<open>None\<close> is a usage error.\<close>

fun parse_target :: "bool \<Rightarrow> string \<Rightarrow> string list \<Rightarrow> (bool \<times> string) option" where
  "parse_target dryRun target [] = Some (dryRun, target)"
| "parse_target dryRun target (arg # args) =
     (if arg = ''--dry-run'' then parse_target True target args
      else if target = [] then parse_target dryRun arg args
      else None)"

text \<open>A coordinate \<^verbatim>\<open>package@version\<close> sets the version unless an option did, \<open>unset\<close> being the default.\<close>

definition split_coordinate :: "string \<Rightarrow> string \<Rightarrow> string \<Rightarrow> string \<times> string" where
  "split_coordinate unset pkg ver =
     (case LastIndexByte CHR ''@'' pkg of
        None \<Rightarrow> (pkg, ver)
      | Some lastAt \<Rightarrow>
          if lastAt > 0 then (take lastAt pkg, if ver = unset then drop (lastAt + 1) pkg else ver) else (pkg, ver))"

text \<open>A decision identifier stands for the coordinates of the decision, when it can be read.\<close>

definition resolve_target :: "cli_env \<Rightarrow> string \<Rightarrow> string \<Rightarrow> host \<Rightarrow> (string \<times> string) \<times> host" where
  "resolve_target env pkg ver h =
     (if \<not> HasPrefix pkg ''dec_'' then ((pkg, ver), h)
      else case open_store env h of
        (Inl _, h') \<Rightarrow> ((pkg, ver), h')
      | (Inr s, h') \<Rightarrow>
          ((case GetDecision (ceCodec env) (ceOK env CliGetDecision) pkg s of
              Inl _ \<Rightarrow> (pkg, ver)
            | Inr doc \<Rightarrow> (docPackage doc, if ver = ''*'' then docVersion doc else ver)), h'))"

definition actor_of :: "cli_env \<Rightarrow> string" where
  "actor_of env = (if ceUser env = [] then ''operator'' else ceUser env)"

text \<open>Appending an event whose error is dropped.\<close>

definition append_audit :: "cli_env \<Rightarrow> AuditEvent \<Rightarrow> SQLiteStore \<Rightarrow> SQLiteStore" where
  "append_audit env ev s = snd (snd (AppendAudit (ceCodec env) (ceReplace env) (ceOK env CliAppendAudit) (ceNow env) ev s))"

definition cli_event :: "gotime \<Rightarrow> string \<Rightarrow> string \<Rightarrow> string \<Rightarrow> string \<Rightarrow> string \<Rightarrow> metadata \<Rightarrow> AuditEvent" where
  "cli_event now type pkg ver actor verdict meta =
     \<lparr>aeID = 0, aeEventTime = now, aeEventType = type, aePackage = pkg, aeVersion = ver, aeDecisionID = [], aeRuleID = [],
      aeVerdict = verdict, aeActor = actor, aeMetadata = Some meta, aeSnapshot = None\<rparr>"

definition loaded_policy :: "cli_env \<Rightarrow> policy_error + Policy" where
  "loaded_policy env = LoadDefaultPolicy (ceYamlMap env) (ceYamlDecode env) (ceStat env) (ceRead env) ''.''"

section \<open>What opening the store keeps\<close>

text \<open>Two hosts with the same data in every file and the same rest.\<close>

definition same_host :: "host \<Rightarrow> host \<Rightarrow> bool" where
  "same_host h h' =
     ((\<forall>p. file_data p (hFiles h') = file_data p (hFiles h)) \<and> h'\<lparr>hFiles := []\<rparr> = h\<lparr>hFiles := []\<rparr>)"

lemma same_host_refl [simp]: "same_host h h"
  by (simp add: same_host_def)

lemma same_host_trans: "same_host a b \<Longrightarrow> same_host b c \<Longrightarrow> same_host a c"
  by (simp add: same_host_def)

lemma same_host_files: "(\<And>p. file_data p fs = file_data p (hFiles h)) \<Longrightarrow> same_host h (h\<lparr>hFiles := fs\<rparr>)"
  by (simp add: same_host_def)

lemma open_store_same: "same_host h (snd (open_store env h))"
  by (auto simp: open_store_def getStore_data intro!: same_host_files split: prod.split)
     (metis getStore_data snd_conv)

lemma resolve_target_same: "same_host h (snd (resolve_target env pkg ver h))"
  using open_store_same [of h env] by (auto simp: resolve_target_def split: prod.split sum.split)

text \<open>The database moves by operations of the store only.\<close>

definition db_moves :: "string \<Rightarrow> host \<Rightarrow> host \<Rightarrow> bool" where
  "db_moves path h h' =
     (\<forall>s. database_content path (hFiles h) = Some s \<longrightarrow>
        (\<exists>s'. database_content path (hFiles h') = Some s' \<and> store_reaches s s'))"

lemma db_moves_refl [simp]: "db_moves path h h"
  by (simp add: db_moves_def)

lemma store_reaches_trans: "store_reaches a b \<Longrightarrow> store_reaches b c \<Longrightarrow> store_reaches a c"
  by (simp add: store_reaches_def)

lemma db_moves_trans: "db_moves path a b \<Longrightarrow> db_moves path b c \<Longrightarrow> db_moves path a c"
  unfolding db_moves_def by (meson store_reaches_trans)

lemma db_moves_other: "hFiles h' = hFiles h \<Longrightarrow> db_moves path h h'"
  by (simp add: db_moves_def)

lemma getStore_moves:
  assumes "getStore ok ex now path fs = (r, fs')" "database_content path fs = Some s"
  obtains s' where "database_content path fs' = Some s'" "store_reaches s s'" "\<And>t. r = Inr t \<Longrightarrow> t = s'"
proof (cases "OpenSQLite ok path fs")
  case (Pair q fs1)
  then have keep: "database_content path fs1 = Some s" using OpenSQLite_content [of path ok path fs] assms(2) by simp
  show thesis
  proof (cases q)
    case (Inl e)
    then have "r = Inl (GetOpen e)" "fs' = fs1" using assms(1) Pair by (simp_all add: getStore_def)
    then show thesis using keep that [of s] by simp
  next
    case (Inr t)
    obtain e s1 where m: "ApplyMigrations ex now t = (e, s1)" by (cases "ApplyMigrations ex now t")
    have "t = s" using OpenSQLite_Inr [of ok path fs t fs1] Pair Inr assms(2) by simp
    then have "store_reaches s s1" using store_step.migrate [of t ex now] m by (auto intro: store_reaches_step)
    moreover have "fs' = AList.update path (DatabaseFile s1) fs1" "\<And>u. r = Inr u \<Longrightarrow> u = s1"
      using assms(1) Pair Inr m by (auto simp: getStore_def split: option.splits)
    ultimately show thesis using that [of s1] by simp
  qed
qed

lemma open_store_moves:
  assumes "open_store env h = (r, h')"
  shows "db_moves (dbPath env) h h' \<and> (\<forall>s. r = Inr s \<longrightarrow> database_content (dbPath env) (hFiles h') = Some s)"
proof -
  obtain fs where g: "getStore (ceOpen env) (ceMigrate env) (ceSchemaNow env) (dbPath env) (hFiles h) = (r, fs)" and h': "h' = h\<lparr>hFiles := fs\<rparr>"
    using assms by (auto simp: open_store_def split: prod.splits)
  have "db_moves (dbPath env) h h'" unfolding db_moves_def
  proof (intro allI impI)
    fix s assume "database_content (dbPath env) (hFiles h) = Some s"
    then obtain s' where "database_content (dbPath env) fs = Some s'" "store_reaches s s'" using getStore_moves [OF g] by blast
    then show "\<exists>s'. database_content (dbPath env) (hFiles h') = Some s' \<and> store_reaches s s'" using h' by auto
  qed
  moreover have "database_content (dbPath env) (hFiles h') = Some s" if "r = Inr s" for s
    using getStore_Inr [of "ceOpen env" "ceMigrate env" "ceSchemaNow env" "dbPath env" "hFiles h" s fs] g h' that by simp
  ultimately show ?thesis by blast
qed

lemma write_back_moves:
  assumes "database_content (dbPath env) (hFiles h) = Some s" "store_reaches s s'"
  shows "db_moves (dbPath env) h (write_back env s' h)"
  using assms by (simp add: db_moves_def write_back_def)

lemma with_store_moves:
  assumes "\<And>s. store_reaches s (snd (body s))"
  shows "db_moves (dbPath env) h (snd (with_store env body h))"
proof (cases "open_store env h")
  case (Pair r h')
  show ?thesis
  proof (cases r)
    case (Inr s)
    then have "db_moves (dbPath env) h' (write_back env (snd (body s)) h')"
      using open_store_moves [OF Pair] write_back_moves assms by blast
    then show ?thesis using open_store_moves [OF Pair] Pair Inr by (auto simp: with_store_def intro: db_moves_trans split: prod.split)
  qed (use open_store_moves [OF Pair] Pair in \<open>simp add: with_store_def\<close>)
qed

lemma resolve_target_moves: "db_moves (dbPath env) h (snd (resolve_target env pkg ver h))"
  using open_store_moves [of env h] by (cases "open_store env h") (auto simp: resolve_target_def split: sum.split)

end
