(* ===== verification/Cli.thy ===== *)
theory Cli
  imports Cli_Base
begin

text \<open>
  The commands of \<^verbatim>\<open>src/cmd/installgate/main.go\<close> that work on the store: \<^verbatim>\<open>approve\<close>, \<^verbatim>\<open>deny\<close>,
  \<^verbatim>\<open>approvals\<close>, \<^verbatim>\<open>revoke\<close>, \<^verbatim>\<open>audit\<close>, \<^verbatim>\<open>check\<close>, \<^verbatim>\<open>backup\<close>, \<^verbatim>\<open>restore\<close>, \<^verbatim>\<open>cache\<close> and \<^verbatim>\<open>mcp\<close>, each with all
  its branches.
\<close>

section \<open>Approving and denying\<close>

record approve_options =
  aoPkg :: string
  aoVer :: string
  aoReason :: string
  aoDuration :: string
  aoJSON :: bool
  aoDryRun :: bool

definition approve_defaults :: approve_options where
  "approve_defaults = \<lparr>aoPkg = [], aoVer = ''*'', aoReason = ''manual human approval'', aoDuration = ''24h'', aoJSON = False, aoDryRun = False\<rparr>"

text \<open>An option without a value at the end of the line is ignored.\<close>

fun parse_approve :: "approve_options \<Rightarrow> string list \<Rightarrow> approve_options option" where
  "parse_approve opt [] = Some opt"
| "parse_approve opt (a # args) =
     (if a = ''--version'' \<or> a = ''-v'' then (case args of [] \<Rightarrow> Some opt | x # rest \<Rightarrow> parse_approve (opt\<lparr>aoVer := x\<rparr>) rest)
      else if a = ''--reason'' \<or> a = ''-r'' then (case args of [] \<Rightarrow> Some opt | x # rest \<Rightarrow> parse_approve (opt\<lparr>aoReason := x\<rparr>) rest)
      else if a = ''--duration'' \<or> a = ''-d'' then (case args of [] \<Rightarrow> Some opt | x # rest \<Rightarrow> parse_approve (opt\<lparr>aoDuration := x\<rparr>) rest)
      else if a = ''--json'' then parse_approve (opt\<lparr>aoJSON := True\<rparr>) args
      else if a = ''--dry-run'' then parse_approve (opt\<lparr>aoDryRun := True\<rparr>) args
      else if \<not> HasPrefix a ''-'' \<and> aoPkg opt = [] then parse_approve (opt\<lparr>aoPkg := a\<rparr>) args
      else None)"

definition approveUsage :: string where
  "approveUsage = ''usage: installgate approve <package> [--version <ver>] [--reason <reason>] [--duration <dur>] [--dry-run] [--json]''"

definition approval_id :: "cli_env \<Rightarrow> string" where
  "approval_id env = ''app_'' @ show_int (UnixNano (ceNow env))"

definition approve_dry_output :: "cli_env \<Rightarrow> approve_options \<Rightarrow> string \<Rightarrow> string \<Rightarrow> gotime \<Rightarrow> string" where
  "approve_dry_output env opt pkg ver expiresAt =
     (if aoJSON opt
      then lines [ceMarshal env (JObject
        [(''dry_run'', JBool True), (''action'', JString ''approve''), (''package'', JString pkg), (''version'', JString ver),
         (''verdict'', JString ''allow''), (''reason'', JString (aoReason opt)), (''duration'', JString (aoDuration opt)),
         (''expires_at'', JString (Format_RFC3339 expiresAt)), (''actor'', JString (actor_of env))])]
      else lines
        [''[dry-run] Would create approval: '' @ approval_id env @ '' ('' @ pkg @ ''@'' @ ver @ '', expires in '' @ aoDuration opt @ '' at '' @
           Format_RFC3339 expiresAt @ '')'',
         ''[dry-run] Would record reason: '' @ Quote (aoReason opt) @ '' by '' @ actor_of env,
         ''[dry-run] Would append audit event: approval_created''])"

definition approve_output :: "cli_env \<Rightarrow> approve_options \<Rightarrow> string \<Rightarrow> string \<Rightarrow> gotime \<Rightarrow> string" where
  "approve_output env opt pkg ver expiresAt =
     (if aoJSON opt
      then lines [ceMarshal env (JObject
        [(''approval_id'', JString (approval_id env)), (''package'', JString pkg), (''version'', JString ver), (''verdict'', JString ''allow''),
         (''reason'', JString (aoReason opt)), (''duration'', JString (aoDuration opt)),
         (''expires_at'', JString (Format_RFC3339 expiresAt)), (''actor'', JString (actor_of env))])]
      else lines
        [''Approval created: '' @ approval_id env @ '' ('' @ pkg @ ''@'' @ ver @ '', expires in '' @ aoDuration opt @ '' at '' @
           Format_RFC3339 expiresAt @ '')''])"

text \<open>The part of \<^verbatim>\<open>runApprove\<close> that changes the store.\<close>

definition record_approval :: "cli_env \<Rightarrow> approve_options \<Rightarrow> string \<Rightarrow> string \<Rightarrow> duration \<Rightarrow> SQLiteStore \<Rightarrow> cli_result \<times> SQLiteStore" where
  "record_approval env opt pkg ver dur s =
     (let expiresAt = ceNow env + dur;
          app = \<lparr>appID = approval_id env, appPackage = pkg, appVersion = ver, appReason = aoReason opt, appActor = actor_of env,
                 appCreatedAt = ceNow env, appExpiresAt = expiresAt, appRevokedAt = None\<rparr> in
      case CreateApproval (ceOK env CliCreateApproval) app s of
        (Some e, s') \<Rightarrow> (failure 1 (''installgate: failed creating approval: '' @ ceText env (CliStore e)), s')
      | (None, s') \<Rightarrow>
          (success (approve_output env opt pkg ver expiresAt),
           append_audit env (cli_event (ceNow env) ''approval_created'' pkg ver (actor_of env) []
             [(''approval_id'', approval_id env), (''reason'', aoReason opt), (''duration'', aoDuration opt)]) s'))"

definition runApprove :: "cli_env \<Rightarrow> string list \<Rightarrow> host \<Rightarrow> cli_result \<times> host" where
  "runApprove env args h =
     (case parse_approve approve_defaults args of
        None \<Rightarrow> (failure 2 approveUsage, h)
      | Some opt \<Rightarrow>
          if aoPkg opt = [] then (failure 2 approveUsage, h)
          else (case split_coordinate ''*'' (aoPkg opt) (aoVer opt) of (pkg0, ver0) \<Rightarrow>
            (case resolve_target env pkg0 ver0 h of ((pkg, ver), h1) \<Rightarrow>
              (case ceParseDuration env (aoDuration opt) of
                 Inl err \<Rightarrow> (failure 2 (''installgate: invalid duration '' @ Quote (aoDuration opt) @ '': '' @ err), h1)
               | Inr dur \<Rightarrow>
                   if dur \<le> 0 then (failure 2 (''installgate: invalid duration '' @ Quote (aoDuration opt) @ '': <nil>''), h1)
                   else if aoDryRun opt then (success (approve_dry_output env opt pkg ver (ceNow env + dur)), h1)
                   else with_store env (record_approval env opt pkg ver dur) h1))))"

record deny_options =
  doPkg :: string
  doVer :: string
  doReason :: string
  doJSON :: bool
  doDryRun :: bool

definition deny_defaults :: deny_options where
  "deny_defaults = \<lparr>doPkg = [], doVer = ''*'', doReason = ''manual human denial'', doJSON = False, doDryRun = False\<rparr>"

fun parse_deny :: "deny_options \<Rightarrow> string list \<Rightarrow> deny_options option" where
  "parse_deny opt [] = Some opt"
| "parse_deny opt (a # args) =
     (if a = ''--version'' \<or> a = ''-v'' then (case args of [] \<Rightarrow> Some opt | x # rest \<Rightarrow> parse_deny (opt\<lparr>doVer := x\<rparr>) rest)
      else if a = ''--reason'' \<or> a = ''-r'' then (case args of [] \<Rightarrow> Some opt | x # rest \<Rightarrow> parse_deny (opt\<lparr>doReason := x\<rparr>) rest)
      else if a = ''--json'' then parse_deny (opt\<lparr>doJSON := True\<rparr>) args
      else if a = ''--dry-run'' then parse_deny (opt\<lparr>doDryRun := True\<rparr>) args
      else if \<not> HasPrefix a ''-'' \<and> doPkg opt = [] then parse_deny (opt\<lparr>doPkg := a\<rparr>) args
      else None)"

definition denyUsage :: string where
  "denyUsage = ''usage: installgate deny <package> [--version <ver>] [--reason <reason>] [--dry-run] [--json]''"

definition denied :: "string \<Rightarrow> string \<Rightarrow> Approval \<Rightarrow> bool" where
  "denied pkg ver app = (appPackage app = pkg \<and> (appVersion app = ver \<or> ver = ''*'' \<or> appVersion app = ''*''))"

text \<open>The loop over the active approvals: every covered one is counted, whether or not its
  revocation worked.\<close>

fun revoke_denied :: "cli_env \<Rightarrow> string \<Rightarrow> string \<Rightarrow> Approval list \<Rightarrow> int \<times> SQLiteStore \<Rightarrow> int \<times> SQLiteStore" where
  "revoke_denied env pkg ver [] (n, s) = (n, s)"
| "revoke_denied env pkg ver (app # apps) (n, s) =
     (if denied pkg ver app
      then revoke_denied env pkg ver apps (n + 1, snd (RevokeApproval (ceOK env (CliRevoke (appID app))) (appID app) (ceNow env) s))
      else revoke_denied env pkg ver apps (n, s))"

definition deny_dry_output :: "cli_env \<Rightarrow> deny_options \<Rightarrow> string \<Rightarrow> string \<Rightarrow> string" where
  "deny_dry_output env opt pkg ver =
     (if doJSON opt
      then lines [ceMarshal env (JObject
        [(''dry_run'', JBool True), (''action'', JString ''deny''), (''package'', JString pkg), (''version'', JString ver),
         (''verdict'', JString ''block''), (''reason'', JString (doReason opt)), (''actor'', JString (actor_of env)),
         (''denied_at'', JString (Format_RFC3339 (ceNow env)))])]
      else lines
        [''[dry-run] Would record denial: '' @ pkg @ ''@'' @ ver @ '' ('' @ doReason opt @ '') by '' @ actor_of env,
         ''[dry-run] Would revoke any active approvals for this package'',
         ''[dry-run] Would append audit event: decision_denied''])"

definition deny_output :: "cli_env \<Rightarrow> deny_options \<Rightarrow> string \<Rightarrow> string \<Rightarrow> int \<Rightarrow> string" where
  "deny_output env opt pkg ver revokedCount =
     (if doJSON opt
      then lines [ceMarshal env (JObject
        [(''action'', JString ''deny''), (''package'', JString pkg), (''version'', JString ver), (''verdict'', JString ''block''),
         (''reason'', JString (doReason opt)), (''actor'', JString (actor_of env)),
         (''revoked_approvals'', JNumber (show_int revokedCount)), (''denied_at'', JString (Format_RFC3339 (ceNow env)))])]
      else lines ([''Denial recorded: '' @ pkg @ ''@'' @ ver @ '' ('' @ doReason opt @ '') by '' @ actor_of env] @
        (if revokedCount > 0
         then [''Revoked '' @ show_int revokedCount @ '' active approval(s) for '' @ pkg @ ''@'' @ ver @ ''.''] else [])))"

definition record_denial :: "cli_env \<Rightarrow> deny_options \<Rightarrow> string \<Rightarrow> string \<Rightarrow> SQLiteStore \<Rightarrow> cli_result \<times> SQLiteStore" where
  "record_denial env opt pkg ver s =
     (case (case ListApprovals (ceScan env) (ceOK env CliListApprovals) True (ceNow env) s of
              Inl _ \<Rightarrow> (0, s)
            | Inr apps \<Rightarrow> revoke_denied env pkg ver apps (0, s)) of
        (revokedCount, s') \<Rightarrow>
          (success (deny_output env opt pkg ver revokedCount),
           append_audit env (cli_event (ceNow env) ''decision_denied'' pkg ver (actor_of env) (kind_string Block)
             [(''reason'', doReason opt), (''revoked_approvals'', show_int revokedCount)]) s'))"

definition runDeny :: "cli_env \<Rightarrow> string list \<Rightarrow> host \<Rightarrow> cli_result \<times> host" where
  "runDeny env args h =
     (case parse_deny deny_defaults args of
        None \<Rightarrow> (failure 2 denyUsage, h)
      | Some opt \<Rightarrow>
          if doPkg opt = [] then (failure 2 denyUsage, h)
          else (case split_coordinate ''*'' (doPkg opt) (doVer opt) of (pkg0, ver0) \<Rightarrow>
            (case resolve_target env pkg0 ver0 h of ((pkg, ver), h1) \<Rightarrow>
              if doDryRun opt then (success (deny_dry_output env opt pkg ver), h1)
              else with_store env (record_denial env opt pkg ver) h1)))"

section \<open>Approvals and the audit log\<close>

fun parse_approvals :: "bool \<Rightarrow> bool \<Rightarrow> string list \<Rightarrow> (bool \<times> bool) option" where
  "parse_approvals json active [] = Some (json, active)"
| "parse_approvals json active (arg # args) =
     (if arg = ''--json'' then parse_approvals True active args
      else if arg = ''--active'' then parse_approvals json True args
      else None)"

definition approval_status :: "gotime \<Rightarrow> Approval \<Rightarrow> string" where
  "approval_status now a =
     (if appRevokedAt a \<noteq> None then ''revoked'' else if \<not> now < appExpiresAt a then ''expired'' else ''active'')"

definition approval_line :: "gotime \<Rightarrow> Approval \<Rightarrow> string" where
  "approval_line now a =
     ''  ['' @ approval_status now a @ ''] '' @ appID a @ '' ('' @ appPackage a @ ''@'' @ appVersion a @ '') by '' @ appActor a @ '': '' @
     appReason a @ '' (expires '' @ Format_RFC3339 (appExpiresAt a) @ '')''"

definition list_approvals :: "cli_env \<Rightarrow> bool \<Rightarrow> bool \<Rightarrow> SQLiteStore \<Rightarrow> cli_result" where
  "list_approvals env jsonOutput activeOnly s =
     (case ListApprovals (ceScan env) (ceOK env CliListApprovals) activeOnly (ceNow env) s of
        Inl e \<Rightarrow> failure 1 (''installgate: failed listing approvals: '' @ ceText env (CliStore e))
      | Inr apps \<Rightarrow>
          if jsonOutput
          then (case ceApprovalsJSON env apps of
                  Inl err \<Rightarrow> failure 1 (''installgate: failed encoding JSON: '' @ err)
                | Inr data \<Rightarrow> success (lines [data]))
          else if apps = [] then success (lines [''No recorded approvals.''])
          else success (lines (''Approvals:'' # map (approval_line (ceNow env)) apps)))"

definition runApprovals :: "cli_env \<Rightarrow> string list \<Rightarrow> host \<Rightarrow> cli_result \<times> host" where
  "runApprovals env args h =
     (case parse_approvals False False args of
        None \<Rightarrow> (failure 2 ''usage: installgate approvals [--active] [--json]'', h)
      | Some (jsonOutput, activeOnly) \<Rightarrow> with_store env (\<lambda>s. (list_approvals env jsonOutput activeOnly s, s)) h)"

definition revoke_approval :: "cli_env \<Rightarrow> string \<Rightarrow> SQLiteStore \<Rightarrow> cli_result \<times> SQLiteStore" where
  "revoke_approval env approvalID s =
     (case RevokeApproval (ceOK env (CliRevoke approvalID)) approvalID (ceNow env) s of
        (Some e, s') \<Rightarrow> (failure 1 (''installgate: '' @ ceText env (CliStore e)), s')
      | (None, s') \<Rightarrow>
          (success (lines [''Approval '' @ approvalID @ '' revoked.'']),
           append_audit env (cli_event (ceNow env) ''approval_revoked'' [] [] [] [] [(''approval_id'', approvalID)]) s'))"

definition revokeUsage :: string where
  "revokeUsage = ''usage: installgate revoke <approval-id> [--dry-run]''"

definition runRevoke :: "cli_env \<Rightarrow> string list \<Rightarrow> host \<Rightarrow> cli_result \<times> host" where
  "runRevoke env args h =
     (case parse_target False [] args of
        None \<Rightarrow> (failure 2 revokeUsage, h)
      | Some (dryRun, approvalID) \<Rightarrow>
          if approvalID = [] then (failure 2 revokeUsage, h)
          else if dryRun
          then (success (lines [''[dry-run] Would revoke approval: '' @ approvalID, ''[dry-run] Would append audit event: approval_revoked'']), h)
          else with_store env (revoke_approval env approvalID) h)"

record audit_options =
  auJSON :: bool
  auDecision :: string
  auLimit :: int

definition audit_defaults :: audit_options where
  "audit_defaults = \<lparr>auJSON = False, auDecision = [], auLimit = 50\<rparr>"

definition set_limit :: "string \<Rightarrow> audit_options \<Rightarrow> audit_options" where
  "set_limit x opt = (case atoi_ok x of Some n \<Rightarrow> if n > 0 then opt\<lparr>auLimit := n\<rparr> else opt | None \<Rightarrow> opt)"

fun parse_audit :: "audit_options \<Rightarrow> string list \<Rightarrow> audit_options option" where
  "parse_audit opt [] = Some opt"
| "parse_audit opt (a # args) =
     (if a = ''--json'' then parse_audit (opt\<lparr>auJSON := True\<rparr>) args
      else if a = ''--decision'' then (case args of [] \<Rightarrow> Some opt | x # rest \<Rightarrow> parse_audit (opt\<lparr>auDecision := x\<rparr>) rest)
      else if a = ''--limit'' then (case args of [] \<Rightarrow> Some opt | x # rest \<Rightarrow> parse_audit (set_limit x opt) rest)
      else None)"

definition audit_line :: "AuditEvent \<Rightarrow> string" where
  "audit_line ev =
     ''  ['' @ Format_RFC3339 (aeEventTime ev) @ ''] '' @ aeEventType ev @ '' | '' @
     (if aePackage ev \<noteq> [] then aePackage ev @ ''@'' @ aeVersion ev else []) @ '' '' @ aeDecisionID ev @
     '' | verdict: '' @ aeVerdict ev @ '' | actor: '' @ aeActor ev"

text \<open>What an export wrote before it failed is left out of the result.\<close>

definition show_audit :: "cli_env \<Rightarrow> audit_options \<Rightarrow> SQLiteStore \<Rightarrow> cli_result" where
  "show_audit env opt s =
     (if auDecision opt \<noteq> []
      then (case FindAuditByDecision (ceCodec env) (ceOK env CliFindAudit) (auDecision opt) s of
              Inl e \<Rightarrow> failure 1 (''installgate: decision audit not found: '' @ ceText env (CliStore e))
            | Inr ev \<Rightarrow> success (lines [ceEventJSON env ev]))
      else if auJSON opt
      then (case ExportAuditJSON (ceStdout env) (ceExportJSON env) (ceReplace env) (ceCodec env) (\<lambda>n. ceOK env (CliExport n)) s of
              Inl e \<Rightarrow> failure 1 (''installgate: export audit error: '' @ ceText env (CliStore e))
            | Inr chunks \<Rightarrow> success (concat chunks))
      else (case ListAuditEvents (ceCodec env) (ceOK env CliListAudit) (auLimit opt) 0 s of
              Inl e \<Rightarrow> failure 1 (''installgate: failed listing audit events: '' @ ceText env (CliStore e))
            | Inr events \<Rightarrow>
                if events = [] then success (lines [''No audit records found.''])
                else success (lines ((''Audit Events (last '' @ show_int (int (length events)) @ ''):'') # map audit_line events))))"

definition runAudit :: "cli_env \<Rightarrow> string list \<Rightarrow> host \<Rightarrow> cli_result \<times> host" where
  "runAudit env args h =
     (case parse_audit audit_defaults args of
        None \<Rightarrow> (failure 2 ''usage: installgate audit [--decision <id>] [--limit <n>] [--json]'', h)
      | Some opt \<Rightarrow> with_store env (\<lambda>s. (show_audit env opt s, s)) h)"

section \<open>Checking a package\<close>

record check_options =
  coPkg :: string
  coVer :: string
  coJSON :: bool

fun parse_check :: "check_options \<Rightarrow> string list \<Rightarrow> check_options option" where
  "parse_check opt [] = Some opt"
| "parse_check opt (a # args) =
     (if a = ''--version'' \<or> a = ''-v'' then (case args of [] \<Rightarrow> Some opt | x # rest \<Rightarrow> parse_check (opt\<lparr>coVer := x\<rparr>) rest)
      else if a = ''--json'' then parse_check (opt\<lparr>coJSON := True\<rparr>) args
      else if \<not> HasPrefix a ''-'' \<and> coPkg opt = [] then parse_check (opt\<lparr>coPkg := a\<rparr>) args
      else None)"

definition checkUsage :: string where
  "checkUsage = ''usage: installgate check <package> [--version <ver>] [--json]''"

text \<open>The assembler of the commands: a fresh cache, the default freshness policy, no provider.\<close>

definition command_assembler :: "cli_env \<Rightarrow> string \<Rightarrow> string \<Rightarrow> string + Snapshot" where
  "command_assembler env pkg ver =
     Inr (fst (Assemble (ceSha env) memory_ops (WithFreshnessPolicy (Some DefaultFreshnessPolicy) NewAssembler) (ceNow env) pkg ver NewMemoryCache))"

definition command_policy :: "cli_env \<Rightarrow> Policy" where
  "command_policy env = (case loaded_policy env of Inl _ \<Rightarrow> NewDefaultPolicy | Inr p \<Rightarrow> p)"

definition command_ops :: "cli_env \<Rightarrow> SQLiteStore Store_ops" where
  "command_ops env = sqlite_ops (ceCodec env) (ceReplace env) (ceScan env) (ceEngineOK env)"

text \<open>The evaluation, with the store when it could be opened.\<close>

definition check_evaluate :: "cli_env \<Rightarrow> string \<Rightarrow> string \<Rightarrow> host \<Rightarrow> (engine_error + DecisionDocument) \<times> host" where
  "check_evaluate env pkg ver h =
     (case open_store env h of
        (Inl _, h') \<Rightarrow>
          (fst (Engine_Evaluate (ceRegex env) (ceSha env) (ceNow env) (Some (command_assembler env))
             (NewEngine (Some (command_policy env)) None ''cli'') pkg ver emptyDB), h')
      | (Inr s, h') \<Rightarrow>
          (case Engine_Evaluate (ceRegex env) (ceSha env) (ceNow env) (Some (command_assembler env))
             (NewEngine (Some (command_policy env)) (Some (command_ops env)) ''cli'') pkg ver s of
             (r, s') \<Rightarrow> (r, write_back env s' h')))"

definition render_document :: "cli_env \<Rightarrow> bool \<Rightarrow> DecisionDocument \<Rightarrow> cli_result" where
  "render_document env jsonOutput doc =
     (if jsonOutput
      then (case RenderJSON (docEnc (ceCodec env)) doc of
              Inl e \<Rightarrow> failure 1 (''installgate: error rendering JSON: '' @ ceText env (CliDocument e))
            | Inr data \<Rightarrow> success data)
      else success (RenderHuman doc))"

definition runCheck :: "cli_env \<Rightarrow> string list \<Rightarrow> host \<Rightarrow> cli_result \<times> host" where
  "runCheck env args h =
     (case parse_check \<lparr>coPkg = [], coVer = [], coJSON = False\<rparr> args of
        None \<Rightarrow> (failure 2 checkUsage, h)
      | Some opt \<Rightarrow>
          if coPkg opt = [] then (failure 2 checkUsage, h)
          else (case split_coordinate [] (coPkg opt) (coVer opt) of (pkg, ver0) \<Rightarrow>
            let ver = (if ver0 = [] then ''latest'' else ver0) in
            (case check_evaluate env pkg ver h of
               (Inl e, h') \<Rightarrow> (failure 1 (''installgate: check error: '' @ ceText env (CliEngine e)), h')
             | (Inr doc, h') \<Rightarrow> (render_document env (coJSON opt) doc, h'))))"

section \<open>Backup, restore and the cache\<close>

definition backupUsage :: string where
  "backupUsage = ''usage: installgate backup <destination-file> [--dry-run]''"

definition runBackup :: "cli_env \<Rightarrow> string list \<Rightarrow> host \<Rightarrow> cli_result \<times> host" where
  "runBackup env args h =
     (case parse_target False [] args of
        None \<Rightarrow> (failure 2 backupUsage, h)
      | Some (dryRun, dest) \<Rightarrow>
          if dest = [] then (failure 2 backupUsage, h)
          else if dryRun then (success (lines [''[dry-run] Would write database backup to '' @ dest]), h)
          else (case open_store env h of
            (Inl e, h') \<Rightarrow> (failure 1 (''installgate: failed to open database: '' @ ceText env (CliGet e)), h')
          | (Inr s, h') \<Rightarrow>
              (case Backup (ceBackup env) dest s (hFiles h') of
                 (Some e, fs) \<Rightarrow> (failure 1 (''installgate: backup failed: '' @ ceText env (CliBackup e)), h'\<lparr>hFiles := fs\<rparr>)
               | (None, fs) \<Rightarrow> (success (lines [''Database backup written to '' @ dest]), h'\<lparr>hFiles := fs\<rparr>))))"

definition restoreUsage :: string where
  "restoreUsage = ''usage: installgate restore <source-backup-file> [--dry-run]''"

text \<open>\<^verbatim>\<open>os.WriteFile\<close> of the bytes of \<open>src\<close> over the database.\<close>

definition overwrite_database :: "write_fate \<Rightarrow> string \<Rightarrow> host_file \<Rightarrow> host_files \<Rightarrow> bool \<times> host_files" where
  "overwrite_database fate path content fs =
     (case fate of
        Written \<Rightarrow> (True, AList.update path content fs)
      | Refused \<Rightarrow> (False, fs)
      | CutShort b \<Rightarrow> (False, AList.update path (PlainFile b) fs))"

definition runRestore :: "cli_env \<Rightarrow> string list \<Rightarrow> host \<Rightarrow> cli_result \<times> host" where
  "runRestore env args h =
     (case parse_target False [] args of
        None \<Rightarrow> (failure 2 restoreUsage, h)
      | Some (dryRun, src) \<Rightarrow>
          if src = [] then (failure 2 restoreUsage, h)
          else if map_of (hFiles h) src = None
          then (failure 1 (''installgate: source backup file not found: '' @ ceText env CliStat), h)
          else (case OpenSQLite (ceOpen env) src (hFiles h) of
            (Inl e, fs) \<Rightarrow> (failure 1 (''installgate: invalid source database: '' @ ceText env (CliOpen e)), h\<lparr>hFiles := fs\<rparr>)
          | (Inr s, fs) \<Rightarrow>
              if dryRun
              then (success (lines [''[dry-run] Would restore database from '' @ src,
                      ''[dry-run] Verified source backup database is valid SQLite database'']), h\<lparr>hFiles := fs\<rparr>)
              else if \<not> ceReadBackup env
              then (failure 1 (''installgate: failed reading source file: '' @ ceText env CliReadFile), h\<lparr>hFiles := fs\<rparr>)
              else (case overwrite_database (ceRestoreWrite env) (dbPath env) (DatabaseFile s) fs of
                (False, fs') \<Rightarrow> (failure 1 (''installgate: failed restoring database: '' @ ceText env CliWriteFile), h\<lparr>hFiles := fs'\<rparr>)
              | (True, fs') \<Rightarrow> (success (lines [''Database successfully restored from '' @ src]), h\<lparr>hFiles := fs'\<rparr>))))"

definition cacheUsage :: string where
  "cacheUsage = ''usage: installgate cache <status|clear|rebuild> [--dry-run]''"

definition rebuilt_decision :: "AuditEvent \<Rightarrow> Decision" where
  "rebuilt_decision ev =
     \<lparr>decVerdict = Allow, decReasons = [\<lparr>reasonRuleID = aeRuleID ev,
        reasonSummary = ''rebuilt allow decision for '' @ aePackage ev @ ''@'' @ aeVersion ev, reasonSignalKinds = []\<rparr>], decDegraded = False\<rparr>"

fun rebuild_allows :: "cli_env \<Rightarrow> AuditEvent list \<Rightarrow> int \<times> SQLiteStore \<Rightarrow> int \<times> SQLiteStore" where
  "rebuild_allows env [] (n, s) = (n, s)"
| "rebuild_allows env (ev # evs) (n, s) =
     (if aeEventType ev = ''decision'' \<and> aeVerdict ev = kind_string Allow \<and> aePackage ev \<noteq> []
      then rebuild_allows env evs (n + 1,
        snd (SaveCachedAllow (ceCodec env) (ceOK env (CliSaveAllow (aeID ev))) (aePackage ev) (aeVersion ev) (rebuilt_decision ev)
          (aeDecisionID ev) (ceNow env) (ceNow env + Hour) (ceNow env + 24 * Hour) s))
      else rebuild_allows env evs (n, s))"

definition clear_cache :: "cli_env \<Rightarrow> SQLiteStore \<Rightarrow> cli_result \<times> SQLiteStore" where
  "clear_cache env s =
     (case ClearEvidenceCache (ceOK env CliClearCache) s of
        (Some e, s') \<Rightarrow> (failure 1 (''installgate: failed clearing cache: '' @ ceText env (CliStore e)), s')
      | (None, s') \<Rightarrow> (success (lines [''Evidence cache cleared.'']), s'))"

definition rebuild_cache :: "cli_env \<Rightarrow> SQLiteStore \<Rightarrow> cli_result \<times> SQLiteStore" where
  "rebuild_cache env s =
     (case ClearEvidenceCache (ceOK env CliClearCache) s of
        (Some e, s') \<Rightarrow> (failure 1 (''installgate: failed clearing cache: '' @ ceText env (CliStore e)), s')
      | (None, s') \<Rightarrow>
          (case (case ListAuditEvents (ceCodec env) (ceOK env CliListAudit) 500 0 s' of
                   Inl _ \<Rightarrow> (0, s')
                 | Inr events \<Rightarrow> rebuild_allows env events (0, s')) of
             (rebuilt, s'') \<Rightarrow> (success (lines [''Evidence cache rebuilt ('' @ show_int rebuilt @ '' entries restored).'']), s'')))"

definition runCache :: "cli_env \<Rightarrow> string list \<Rightarrow> host \<Rightarrow> cli_result \<times> host" where
  "runCache env args h =
     (case parse_target False [] args of
        None \<Rightarrow> (failure 2 cacheUsage, h)
      | Some (dryRun, subcmd) \<Rightarrow>
          if subcmd = [] then (failure 2 cacheUsage, h)
          else if subcmd = ''clear''
          then (if dryRun then (success (lines [''[dry-run] Would clear evidence cache in database'']), h)
                else with_store env (clear_cache env) h)
          else if subcmd = ''rebuild''
          then (if dryRun then (success (lines [''[dry-run] Would clear and rebuild evidence cache from recorded allow decisions'']), h)
                else with_store env (rebuild_cache env) h)
          else if subcmd = ''status'' then (success (lines [''Cache operational and backed by SQLite store.'']), h)
          else (failure 2 cacheUsage, h))"

section \<open>The MCP session\<close>

definition mcp_session :: "cli_env \<Rightarrow> SQLiteStore \<Rightarrow> cli_result \<times> SQLiteStore" where
  "mcp_session env s =
     (case ServeStdio (ceMcp env) (ceMcpWrite env)
        (runMCP (ceRegex env) (ceSha env) (ceNow env) (Some (command_assembler env)) (ceMcpText env) (command_ops env) (loaded_policy env))
        (ceStdin env) [] s of
        (Some err, out, s') \<Rightarrow> (Exited 1 (lines out) (''installgate: mcp server error: '' @ err @ nl), s')
      | (None, out, s') \<Rightarrow> (success (lines out), s'))"

definition mcp_command :: "cli_env \<Rightarrow> host \<Rightarrow> cli_result \<times> host" where
  "mcp_command env = with_store env (mcp_session env)"

section \<open>What the commands do to the store\<close>

named_theorems cli_reaches \<open>what a command does to the store is a sequence of its operations\<close>
named_theorems cli_exits \<open>a command that got past its arguments does not end with a usage error\<close>

lemmas store_op_reaches =
  store_step.create [THEN store_reaches_step] store_step.revoke [THEN store_reaches_step] store_step.append [THEN store_reaches_step]
  store_step.allow [THEN store_reaches_step] store_step.clear [THEN store_reaches_step]

lemma append_audit_reaches [cli_reaches]: "store_reaches s (append_audit env ev s)"
  by (simp add: append_audit_def store_op_reaches)

lemma record_approval_reaches [cli_reaches]: "store_reaches s (snd (record_approval env opt pkg ver dur s))"
proof -
  let ?app = "\<lparr>appID = approval_id env, appPackage = pkg, appVersion = ver, appReason = aoReason opt, appActor = actor_of env,
                 appCreatedAt = ceNow env, appExpiresAt = ceNow env + dur, appRevokedAt = None\<rparr>"
  obtain r s' where c: "CreateApproval (ceOK env CliCreateApproval) ?app s = (r, s')" by (cases "CreateApproval (ceOK env CliCreateApproval) ?app s")
  have "store_reaches s s'" using store_op_reaches(1) [of s "ceOK env CliCreateApproval" ?app] c by simp
  then show ?thesis using c
    by (cases r) (auto simp: record_approval_def Let_def intro: store_reaches_trans append_audit_reaches)
qed

lemma revoke_denied_reaches: "store_reaches s (snd (revoke_denied env pkg ver apps (n, s)))"
proof (induction apps arbitrary: n s)
  case (Cons app apps)
  show ?case using store_reaches_trans [OF store_op_reaches(2) Cons.IH] Cons.IH by simp
qed simp

lemma record_denial_reaches [cli_reaches]: "store_reaches s (snd (record_denial env opt pkg ver s))"
proof -
  obtain n s' where d: "(case ListApprovals (ceScan env) (ceOK env CliListApprovals) True (ceNow env) s of
      Inl _ \<Rightarrow> (0, s) | Inr apps \<Rightarrow> revoke_denied env pkg ver apps (0, s)) = (n, s')" by fastforce
  have "store_reaches s s'" using d revoke_denied_reaches [of s env pkg ver _ 0] by (auto split: sum.splits) (metis snd_conv)
  then show ?thesis using d by (auto simp: record_denial_def intro: store_reaches_trans append_audit_reaches)
qed

lemma revoke_approval_reaches [cli_reaches]: "store_reaches s (snd (revoke_approval env i s))"
proof -
  obtain r s' where c: "RevokeApproval (ceOK env (CliRevoke i)) i (ceNow env) s = (r, s')"
    by (cases "RevokeApproval (ceOK env (CliRevoke i)) i (ceNow env) s")
  have "store_reaches s s'" using store_op_reaches(2) [of s "ceOK env (CliRevoke i)" i "ceNow env"] c by simp
  then show ?thesis using c by (cases r) (auto simp: revoke_approval_def intro: store_reaches_trans append_audit_reaches)
qed

lemma clear_cache_reaches [cli_reaches]: "store_reaches s (snd (clear_cache env s))"
  using store_op_reaches(5) [of s "ceOK env CliClearCache"]
  by (cases "ClearEvidenceCache (ceOK env CliClearCache) s") (auto simp: clear_cache_def split: option.split)

lemma rebuild_allows_reaches: "store_reaches s (snd (rebuild_allows env evs (n, s)))"
proof (induction evs arbitrary: n s)
  case (Cons ev evs)
  show ?case using store_reaches_trans [OF store_op_reaches(4) Cons.IH] Cons.IH by simp
qed simp

lemma rebuild_cache_reaches [cli_reaches]: "store_reaches s (snd (rebuild_cache env s))"
proof -
  obtain r s' where c: "ClearEvidenceCache (ceOK env CliClearCache) s = (r, s')" by (cases "ClearEvidenceCache (ceOK env CliClearCache) s")
  have "store_reaches s s'" using store_op_reaches(5) [of s "ceOK env CliClearCache"] c by simp
  then show ?thesis using c store_reaches_trans [OF _ rebuild_allows_reaches]
    by (auto simp: rebuild_cache_def split: option.split sum.split prod.split) (metis snd_conv)+
qed

lemma mcp_session_reaches [cli_reaches]: "store_reaches s (snd (mcp_session env s))"
  unfolding mcp_session_def command_ops_def
  using operated.session [of s "ceMcp env" "ceMcpWrite env"]
  by (auto split: prod.split option.split) (metis snd_conv)+

lemma check_evaluate_moves: "db_moves (dbPath env) h (snd (check_evaluate env pkg ver h))"
proof (cases "open_store env h")
  case (Pair r h')
  show ?thesis
  proof (cases r)
    case (Inr s)
    let ?eng = "NewEngine (Some (command_policy env)) (Some (command_ops env)) ''cli''"
    obtain r' s' where e: "Engine_Evaluate (ceRegex env) (ceSha env) (ceNow env) (Some (command_assembler env)) ?eng pkg ver s = (r', s')"
      by fastforce
    have "engStore ?eng = Some (sqlite_ops (ceCodec env) (ceReplace env) (ceScan env) (ceEngineOK env))"
      by (simp add: NewEngine_def command_ops_def)
    from operated.evaluation_stays [OF this, of s "ceRegex env" "ceSha env" "ceNow env" "Some (command_assembler env)" pkg ver]
    have "store_reaches s s'" using e by simp
    then have "db_moves (dbPath env) h' (write_back env s' h')" using open_store_moves [OF Pair] Inr by (simp add: write_back_moves)
    then show ?thesis using open_store_moves [OF Pair] Pair Inr e by (auto simp: check_evaluate_def intro: db_moves_trans)
  qed (use Pair open_store_moves [OF Pair] in \<open>simp add: check_evaluate_def\<close>)
qed

section \<open>Exit codes\<close>

lemma exit_code_simps [simp]:
  "exit_code (success out) = Some 0" "exit_code (failure c err) = Some c" "exit_code (Exited c out err) = Some c" "exit_code Killed = None"
  by (simp_all add: exit_code_def success_def failure_def)

lemma with_store_exit: "(\<And>s. exit_code (fst (body s)) \<noteq> Some 2) \<Longrightarrow> exit_code (fst (with_store env body h)) \<noteq> Some 2"
  by (auto simp: with_store_def split: prod.split sum.split) (metis fst_conv)

lemma record_exits [cli_exits]:
  "exit_code (fst (record_approval env aopt pkg ver dur s)) \<noteq> Some 2"
  "exit_code (fst (record_denial env dopt pkg ver s)) \<noteq> Some 2"
  "exit_code (fst (revoke_approval env i s)) \<noteq> Some 2"
  "exit_code (fst (clear_cache env s)) \<noteq> Some 2"
  "exit_code (fst (rebuild_cache env s)) \<noteq> Some 2"
  "exit_code (fst (mcp_session env s)) \<noteq> Some 2"
  by (auto simp: record_approval_def record_denial_def revoke_approval_def clear_cache_def rebuild_cache_def mcp_session_def Let_def
      split: option.split prod.split)

lemma show_exits [cli_exits]:
  "exit_code (list_approvals env j a s) \<noteq> Some 2" "exit_code (show_audit env uopt s) \<noteq> Some 2" "exit_code (render_document env j doc) \<noteq> Some 2"
  by (auto simp: list_approvals_def show_audit_def render_document_def split: sum.split)

end
