(* ===== verification/Daemon.thy ===== *)
theory Daemon
  imports Cli
begin

text \<open>
  Starting and stopping the gateway: \<^verbatim>\<open>src/cmd/installgate/server.go\<close>. The network, the clock and
  the processes are parameters: whether the gateway already answers, the answers of the polls made
  before the deadline, which processes can be found. Signals sent and processes started are recorded
  in the host. The foreground server is modelled up to the moment it serves; what its requests do is
  the subject of theory \<open>Gateway\<close>.
\<close>

section \<open>Starting\<close>

record start_options =
  soForeground :: bool
  soDryRun :: bool
  soPort :: int
  soUpstream :: string

definition start_defaults :: "cli_env \<Rightarrow> start_options" where
  "start_defaults env =
     \<lparr>soForeground = False, soDryRun = False,
      soPort = (if lvPort (ceVars env) = [] then DefaultGatewayPort
                else case atoi_ok (lvPort (ceVars env)) of Some p \<Rightarrow> if p > 0 then p else DefaultGatewayPort | None \<Rightarrow> DefaultGatewayPort),
      soUpstream = (if ceUpstreamVar env \<noteq> [] then ceUpstreamVar env else DefaultUpstreamURL)\<rparr>"

definition startUsage :: string where
  "startUsage = ''usage: installgate start [--foreground|-f] [--port <port>] [--upstream <url>] [--dry-run]''"

fun parse_start :: "start_options \<Rightarrow> string list \<Rightarrow> string + start_options" where
  "parse_start opt [] = Inr opt"
| "parse_start opt (a # args) =
     (if a = ''--dry-run'' then parse_start (opt\<lparr>soDryRun := True\<rparr>) args
      else if a = ''--foreground'' \<or> a = ''-f'' then parse_start (opt\<lparr>soForeground := True\<rparr>) args
      else if a = ''--port''
      then (case args of
              [] \<Rightarrow> Inl startUsage
            | x # rest \<Rightarrow> (case atoi_ok x of
                None \<Rightarrow> Inl (''installgate: invalid port '' @ Quote x)
              | Some p \<Rightarrow> if p \<le> 0 then Inl (''installgate: invalid port '' @ Quote x) else parse_start (opt\<lparr>soPort := p\<rparr>) rest))
      else if a = ''--upstream''
      then (case args of [] \<Rightarrow> Inl startUsage | x # rest \<Rightarrow> parse_start (opt\<lparr>soUpstream := x\<rparr>) rest)
      else Inl startUsage)"

definition gateway_address :: "int \<Rightarrow> string" where
  "gateway_address port = ''127.0.0.1:'' @ show_int port"

text \<open>The handler the server runs: the engine over the opened store, no quarantine and no resolver.\<close>

definition gateway_evaluator :: "cli_env \<Rightarrow> SQLiteStore evaluator" where
  "gateway_evaluator env pkg version s =
     (case Engine_Evaluate (ceRegex env) (ceSha env) (ceNow env) (Some (command_assembler env))
        (NewEngine (Some (command_policy env)) (Some (command_ops env)) ''gateway'') pkg version s of
        (r, s') \<Rightarrow> (map_sum id Some r, s'))"

definition gateway_config :: "cli_env \<Rightarrow> string \<Rightarrow> (SQLiteStore, SQLiteStore, unit) Config" where
  "gateway_config env upstream =
     \<lparr>cfgUpstreamBaseURL = upstream, cfgTimeout = 0, cfgMaxBodyBytes = 0, cfgEvaluator = Some (gateway_evaluator env),
      cfgDecisionStore = Some (\<lambda>doc s. snd (SaveDecision (ceCodec env) (ceEngineOK env CallSave) (ceNow env) doc s)),
      cfgQuarantine = None, cfgIntegrityResolver = None\<rparr>"

definition pid_file :: "cli_env \<Rightarrow> int \<Rightarrow> string" where
  "pid_file env port = show_int (cePid env) @ nl @ show_int port @ nl"

text \<open>Everything before the server serves. An early exit skips the deferred removal of the PID file.\<close>

definition start_gateway ::
  "cli_env \<Rightarrow> int \<Rightarrow> string \<Rightarrow> host \<Rightarrow> (cli_result + (SQLiteStore, SQLiteStore, unit) Handler \<times> IntegrityIndex) \<times> host" where
  "start_gateway env port upstream h =
     (if \<not> ceStart env StartMkdir
      then (Inl (failure 1 (''installgate: failed to create data directory: '' @ ceText env CliMkdir)), h)
      else if \<not> ceStart env StartPidFile
      then (Inl (failure 1 (''installgate: failed to write PID file: '' @ ceText env CliWriteFile)), h)
      else (case open_store env (h\<lparr>hPidFile := Some (pid_file env port)\<rparr>) of
        (Inl (GetOpen e), h') \<Rightarrow> (Inl (failure 1 (''installgate: failed to initialize database: '' @ ceText env (CliOpen e))), h')
      | (Inl (GetMigrate e), h') \<Rightarrow> (Inl (failure 1 (''installgate: failed to apply migrations: '' @ ceText env (CliGet (GetMigrate e)))), h')
      | (Inr s, h') \<Rightarrow>
          (case NewHandler (ceParseURL env) (gateway_config env upstream) of
             Inl e \<Rightarrow> (Inl (failure 1 (''installgate: failed to initialize gateway handler: '' @ ceText env (CliHandler e))), h')
           | Inr handler \<Rightarrow>
               if \<not> ceStart env StartListen
               then (Inl (failure 1 (''installgate: failed to bind '' @ gateway_address port @ '': '' @ ceText env CliListen)), h')
               else (Inr handler, h'))))"

text \<open>The server returns when it is told to shut down, or with an error.\<close>

definition runServerForeground :: "cli_env \<Rightarrow> int \<Rightarrow> string \<Rightarrow> host \<Rightarrow> cli_result \<times> host" where
  "runServerForeground env port upstream h =
     (case start_gateway env port upstream h of
        (Inl r, h') \<Rightarrow> (r, h')
      | (Inr _, h') \<Rightarrow>
          let out = lines [''InstallGate gateway running on http://'' @ gateway_address port] in
          if \<not> ceStart env StartServe
          then (Exited 1 out (''installgate: server error: '' @ ceText env CliServe @ nl), h')
          else (success out, h'\<lparr>hPidFile := None\<rparr>))"

definition daemon_args :: "int \<Rightarrow> string \<Rightarrow> string list" where
  "daemon_args port upstream = [''--foreground'', ''--port'', show_int port, ''--upstream'', upstream]"

definition runServerDaemon :: "cli_env \<Rightarrow> int \<Rightarrow> string \<Rightarrow> host \<Rightarrow> cli_result \<times> host" where
  "runServerDaemon env port upstream h =
     (if ceAlreadyRunning env
      then (success (lines [''InstallGate gateway is already running on http://'' @ gateway_address port]), h)
      else if \<not> ceStart env StartSpawn
      then (failure 1 (''installgate: failed to start background process: '' @ ceText env CliSpawn), h)
      else let h' = h\<lparr>hSpawned := hSpawned h @ [''start'' # daemon_args port upstream]\<rparr> in
        if \<not> list_ex id (ceReady env)
        then (failure 1 ''installgate: gateway failed to reach ready state within 5 seconds'', h')
        else (success (lines [''InstallGate gateway started on http://'' @ gateway_address port @ '' (pid '' @ show_int (ceChildPid env) @ '')'']), h'))"

definition runStart :: "cli_env \<Rightarrow> string list \<Rightarrow> host \<Rightarrow> cli_result \<times> host" where
  "runStart env args h =
     (case parse_start (start_defaults env) args of
        Inl err \<Rightarrow> (failure 2 err, h)
      | Inr opt \<Rightarrow>
          if soDryRun opt
          then (success (lines [''[dry-run] Would start InstallGate gateway on http://'' @ gateway_address (soPort opt) @ '' (upstream: '' @
                  soUpstream opt @ '')'']), h)
          else if soForeground opt then runServerForeground env (soPort opt) (soUpstream opt) h
          else runServerDaemon env (soPort opt) (soUpstream opt) h)"

section \<open>Stopping\<close>

definition atoi_value :: "string \<Rightarrow> int" where
  "atoi_value s = (case Atoi s of Inl v \<Rightarrow> v | Inr v \<Rightarrow> v)"

definition recorded_pid :: "string \<Rightarrow> int" where
  "recorded_pid data = (case Split CHR 0x0A (TrimSpace data) of [] \<Rightarrow> 0 | l # _ \<Rightarrow> atoi_value l)"

text \<open>The signals that are sent to a process that was found.\<close>

definition stop_signals :: "cli_env \<Rightarrow> string list" where
  "stop_signals env =
     (if ceGOOS env = ''windows'' then [''SIGKILL'']
      else ''SIGTERM'' # (if list_ex id (ceGone env) then [] else [''SIGKILL'']))"

definition runStop :: "cli_env \<Rightarrow> string list \<Rightarrow> host \<Rightarrow> cli_result \<times> host" where
  "runStop env args h =
     (if list_ex (\<lambda>a. a = ''--dry-run'') args then (success (lines [''[dry-run] Would stop InstallGate gateway process'']), h)
      else case hPidFile h of
        None \<Rightarrow> (failure 1 ''installgate: gateway is not running (no PID file)'', h)
      | Some data \<Rightarrow>
          let pid = recorded_pid data; h' = h\<lparr>hPidFile := None\<rparr> in
          if pid \<le> 0 then (failure 1 ''installgate: invalid PID file, removed'', h')
          else if \<not> ceFindProcess env pid then (failure 1 (''installgate: process '' @ show_int pid @ '' not found''), h')
          else (success (lines [''InstallGate gateway stopped'']),
                h'\<lparr>hSignals := hSignals h @ map (Pair pid) (stop_signals env)\<rparr>))"

end
