(* ===== verification/Installgate.thy ===== *)
theory Installgate
  imports Daemon
begin

text \<open>
  The remaining commands of \<^verbatim>\<open>src/cmd/installgate/main.go\<close>, the dispatch of \<^verbatim>\<open>main\<close>, and what holds of
  every command line and of every sequence of them.
\<close>

section \<open>The npm configuration\<close>

text \<open>A command over the configuration; an error it does not handle ends it with exit code 1.\<close>

definition run_config :: "cli_env \<Rightarrow> cli_result config_io \<Rightarrow> host \<Rightarrow> cli_result \<times> host" where
  "run_config env m h =
     (case m (hConfig h) of
        (Ret r, w) \<Rightarrow> (r, h\<lparr>hConfig := w\<rparr>)
      | (Err e, w) \<Rightarrow> (failure 1 (''installgate: '' @ ceText env (CliConfig e)), h\<lparr>hConfig := w\<rparr>)
      | (Died, w) \<Rightarrow> (Killed, h\<lparr>hConfig := w\<rparr>))"

definition new_manager :: "cli_env \<Rightarrow> LifecycleManager config_io" where
  "new_manager env = NewLifecycleManager atoi_ok (ceVars env) []"

definition runInit :: "cli_env \<Rightarrow> string list \<Rightarrow> host \<Rightarrow> cli_result \<times> host" where
  "runInit env args h =
     (if \<not> list_all (\<lambda>a. a = ''--dry-run'') args then (failure 2 ''usage: installgate init [--dry-run]'', h)
      else if args \<noteq> []
      then (success (lines [''[dry-run] Would initialize InstallGate at '' @ getDataDir (ceVars env),
              ''[dry-run] Would initialize SQLite store and database migrations'']), h)
      else run_config env
        (bind_io (new_manager env) (\<lambda>mgr.
         bind_io (try_io (Init (ceConfig env) mgr)) (\<lambda>r. return_io
           (case r of
              Inl e \<Rightarrow> failure 1 (''installgate: init failed: '' @ ceText env (CliConfig e))
            | Inr _ \<Rightarrow> success (lines [''InstallGate initialized at '' @ getDataDir (ceVars env)]))))) h)"

definition enableUsage :: string where "enableUsage = ''usage: installgate enable npm [--dry-run]''"
definition disableUsage :: string where "disableUsage = ''usage: installgate disable npm [--dry-run]''"

definition reported_registry :: "config_fault + StatusReport \<Rightarrow> string" where
  "reported_registry st =
     (case st of
        Inl _ \<Rightarrow> DefaultGatewayURL @ ''/''
      | Inr rep \<Rightarrow> if srGatewayURL rep \<noteq> [] then srGatewayURL rep @ ''/'' else DefaultGatewayURL @ ''/'')"

text \<open>The status is asked for before the dry run is looked at.\<close>

definition runEnable :: "cli_env \<Rightarrow> string list \<Rightarrow> host \<Rightarrow> cli_result \<times> host" where
  "runEnable env args h =
     (case parse_target False [] args of
        None \<Rightarrow> (failure 2 enableUsage, h)
      | Some (dryRun, target) \<Rightarrow>
          if target \<noteq> ''npm'' then (failure 2 enableUsage, h)
          else run_config env
            (bind_io (new_manager env) (\<lambda>mgr.
             bind_io (try_io (Status (\<lambda>e. ceText env (CliConfig e)) (ceConfig env) mgr)) (\<lambda>st.
             let reg = reported_registry st in
             if dryRun
             then return_io (success (lines [''[dry-run] Would enable InstallGate for npm: registry -> '' @ reg,
                    ''[dry-run] Would preserve prior configuration byte-for-byte in journal.'']))
             else bind_io (EnableNpm (ceConfig env) mgr) (\<lambda>_.
               return_io (success (lines [''InstallGate enabled for npm: registry -> '' @ reg,
                 ''Prior configuration preserved byte-for-byte.'']))) ))) h)"

definition runDisable :: "cli_env \<Rightarrow> string list \<Rightarrow> host \<Rightarrow> cli_result \<times> host" where
  "runDisable env args h =
     (case parse_target False [] args of
        None \<Rightarrow> (failure 2 disableUsage, h)
      | Some (dryRun, target) \<Rightarrow>
          if target \<noteq> ''npm'' then (failure 2 disableUsage, h)
          else if dryRun
          then (success (lines [''[dry-run] Would disable InstallGate for npm.'',
                  ''[dry-run] Would restore prior registry configuration byte-for-byte from journal.'']), h)
          else run_config env
            (bind_io (new_manager env) (\<lambda>mgr.
             bind_io (DisableNpm (ceConfig env) mgr) (\<lambda>_.
             return_io (success (lines [''InstallGate disabled for npm.'', ''Prior registry configuration restored byte-for-byte.'']))))) h)"

fun parse_json_only :: "bool \<Rightarrow> string list \<Rightarrow> bool option" where
  "parse_json_only json [] = Some json"
| "parse_json_only json (arg # args) = (if arg = ''--json'' \<or> arg = ''-json'' then parse_json_only True args else None)"

definition status_text :: "StatusReport \<Rightarrow> string" where
  "status_text st = lines (
     [''InstallGate Status:'',
      if srGatewayRunning st then ''  Gateway process:  running on '' @ srGatewayURL st else ''  Gateway process:  stopped'',
      if srNpmEnabled st then ''  npm registry:     enabled (pointing to '' @ srActiveRegistry st @ '')''
      else ''  npm registry:     disabled (active: '' @ srActiveRegistry st @ '')''] @
     (if srPriorRegistry st \<noteq> [] then [''  Prior registry:   '' @ srPriorRegistry st] else []) @
     [if srGatewayRunning st
      then ''  Evidence cache:   '' @ show_int (int (TotalEntries (srCacheStats st))) @ '' entries ('' @
        show_int (int (FreshEntries (srCacheStats st))) @ '' fresh, '' @ show_int (int (StaleEntries (srCacheStats st))) @ '' stale)''
      else ''  Evidence cache:   unavailable (gateway not running)''] @
     (if srRecoveryNote st \<noteq> [] then [''  Recovery:         '' @ srRecoveryNote st] else []))"

definition runStatus :: "cli_env \<Rightarrow> string list \<Rightarrow> host \<Rightarrow> cli_result \<times> host" where
  "runStatus env args h =
     (case parse_json_only False args of
        None \<Rightarrow> (failure 2 ''usage: installgate status [--json]'', h)
      | Some jsonOutput \<Rightarrow> run_config env
          (bind_io (new_manager env) (\<lambda>mgr.
           bind_io (try_io (Status (\<lambda>e. ceText env (CliConfig e)) (ceConfig env) mgr)) (\<lambda>r. return_io
             (case r of
                Inl e \<Rightarrow> failure 1 (''installgate: status failed: '' @ ceText env (CliConfig e))
              | Inr st \<Rightarrow>
                  if jsonOutput
                  then (case ceStatusJSON env st of
                          Inl err \<Rightarrow> failure 1 (''installgate: failed to encode JSON: '' @ err)
                        | Inr data \<Rightarrow> success (lines [data]))
                  else success (status_text st))))) h)"

section \<open>Explaining a decision\<close>

fun parse_explain :: "bool \<Rightarrow> string \<Rightarrow> string list \<Rightarrow> (bool \<times> string) option" where
  "parse_explain json target [] = Some (json, target)"
| "parse_explain json target (arg # args) =
     (if arg = ''--json'' \<or> arg = ''-json'' then parse_explain True target args
      else if target = [] then parse_explain json arg args
      else None)"

definition explainUsage :: string where
  "explainUsage = ''usage: installgate explain [--json] <decision-id>''"

text \<open>\<^verbatim>\<open>DefaultStore\<close>: the directory of decisions, or an empty store in memory when it cannot be made.\<close>

definition DefaultStore :: "cli_env \<Rightarrow> host \<Rightarrow> string \<Rightarrow> doc_error + DecisionDocument" where
  "DefaultStore env h decisionID =
     (case NewFileStore (\<lambda>_. ceDecisionDir env) (\<lambda>_. hDecisions h)
        (DefaultDecisionDir (lvDataDir (ceVars env)) (lvHome (ceVars env))) of
        Inl _ \<Rightarrow> MemoryStore_Get (docEnc (ceCodec env)) (docDec (ceCodec env)) decisionID NewMemoryStore
      | Inr fs \<Rightarrow> FileStore_Get (docDec (ceCodec env)) decisionID fs)"

definition runExplain :: "cli_env \<Rightarrow> string list \<Rightarrow> host \<Rightarrow> cli_result \<times> host" where
  "runExplain env args h =
     (case parse_explain False [] args of
        None \<Rightarrow> (failure 2 explainUsage, h)
      | Some (jsonOutput, target) \<Rightarrow>
          if target = [] then (failure 2 explainUsage, h)
          else (case Resolve (docDec (ceCodec env)) (ceRegular env) (ceReadDoc env) target (Some (DefaultStore env h)) of
                  Inl e \<Rightarrow> (failure 1 (''installgate: '' @ ceText env (CliDocument e)), h)
                | Inr doc \<Rightarrow> (render_document env jsonOutput doc, h)))"

section \<open>The policy\<close>

fun parse_policy :: "bool \<Rightarrow> string \<Rightarrow> string \<Rightarrow> string list \<Rightarrow> (bool \<times> string \<times> string) option" where
  "parse_policy json subcmd target [] = Some (json, subcmd, target)"
| "parse_policy json subcmd target (arg # args) =
     (if arg = ''--json'' then parse_policy True subcmd target args
      else if subcmd = [] then parse_policy json arg target args
      else if target = [] then parse_policy json subcmd arg args
      else None)"

definition policyUsage :: string where
  "policyUsage = ''usage: installgate policy [show|bounds|validate <file>] [--json]''"

definition policy_bounds :: "cli_env \<Rightarrow> bool \<Rightarrow> cli_result" where
  "policy_bounds env jsonOutput =
     success (lines [if jsonOutput then ceMarshal env (JObject [(''bounds'', JString BoundsStatement)]) else BoundsStatement])"

definition policy_validate :: "cli_env \<Rightarrow> bool \<Rightarrow> string \<Rightarrow> cli_result" where
  "policy_validate env jsonOutput targetFile =
     (let path = (if targetFile = [] then DefaultPolicyFileName else targetFile) in
      case LoadPolicyFile (ceYamlMap env) (ceYamlDecode env) (ceRead env) path of
        Inl e \<Rightarrow>
          if jsonOutput
          then Exited 1 (lines [ceMarshal env (JObject [(''valid'', JBool False), (''file'', JString path),
                 (''error'', JString (ceText env (CliPolicy e)))])]) []
          else failure 1 (''installgate: policy validation failed for '' @ path @ '': '' @ ceText env (CliPolicy e))
      | Inr p \<Rightarrow>
          success (lines [if jsonOutput
            then ceMarshal env (JObject [(''valid'', JBool True), (''file'', JString path), (''version'', JString (polVersion p)),
                   (''profile'', JString (polProfile p)), (''vulnerability_threshold'', JString (polThreshold p))])
            else ''Policy '' @ path @ '' is valid (profile: '' @ polProfile p @ '', vulnerability_threshold: '' @ polThreshold p @ '')'']))"

definition policy_show :: "cli_env \<Rightarrow> bool \<Rightarrow> cli_result" where
  "policy_show env jsonOutput =
     (case loaded_policy env of
        Inl e \<Rightarrow> failure 1 (''installgate: failed to load policy: '' @ ceText env (CliPolicy e))
      | Inr pol \<Rightarrow>
          if jsonOutput
          then success (lines [ceMarshal env (JObject [(''version'', JString (polVersion pol)), (''profile'', JString (polProfile pol)),
                 (''vulnerability_threshold'', JString (polThreshold pol)), (''bounds'', JString BoundsStatement)])])
          else success (lines ([''InstallGate Policy:'',
                 ''  Version:                 '' @ polVersion pol,
                 ''  Profile:                 '' @ polProfile pol,
                 ''  Vulnerability threshold: '' @ polThreshold pol,
                 nl @ ''Policy Bounds:''] @ map (\<lambda>l. ''  '' @ l) (Split CHR 0x0A BoundsStatement))))"

definition runPolicy :: "cli_env \<Rightarrow> string list \<Rightarrow> host \<Rightarrow> cli_result \<times> host" where
  "runPolicy env args h =
     ((case parse_policy False [] [] args of
         None \<Rightarrow> failure 2 policyUsage
       | Some (jsonOutput, subcmd, targetFile) \<Rightarrow>
           if subcmd = ''bounds'' then policy_bounds env jsonOutput
           else if subcmd = ''validate'' then policy_validate env jsonOutput targetFile
           else if subcmd = [] \<or> subcmd = ''show'' then policy_show env jsonOutput
           else failure 2 policyUsage), h)"

section \<open>The dispatch\<close>

definition main_usage :: string where
  "main_usage = ''usage: installgate <init|start|stop|enable npm|disable npm|status|check|explain|approve|deny|policy|approvals|revoke|audit|backup|restore|cache|version|doctor|mcp>''"

definition doctor_text :: "cli_env \<Rightarrow> string" where
  "doctor_text env = lines [''InstallGate foundation: OK'', ''Go: '' @ ceGoVersion env,
     ''Platform: '' @ ceGOOS env @ ''/'' @ ceGOARCH env, ''Registry gateway: planned for v1.0'']"

definition installgate_main :: "cli_env \<Rightarrow> string list \<Rightarrow> host \<Rightarrow> cli_result \<times> host" where
  "installgate_main env argv h =
     (case argv of
        [] \<Rightarrow> (failure 2 main_usage, h)
      | cmd # args \<Rightarrow>
          if cmd = ''init'' then runInit env args h
          else if cmd = ''start'' then runStart env args h
          else if cmd = ''stop'' then runStop env args h
          else if cmd = ''enable'' then runEnable env args h
          else if cmd = ''disable'' then runDisable env args h
          else if cmd = ''status'' then runStatus env args h
          else if cmd = ''version''
          then (if args \<noteq> [] then (failure 2 main_usage, h) else (success (lines [''installgate dev'']), h))
          else if cmd = ''doctor''
          then (if args \<noteq> [] then (failure 2 main_usage, h) else (success (doctor_text env), h))
          else if cmd = ''check'' then runCheck env args h
          else if cmd = ''explain'' then runExplain env args h
          else if cmd = ''approve'' then runApprove env args h
          else if cmd = ''deny'' then runDeny env args h
          else if cmd = ''policy'' then runPolicy env args h
          else if cmd = ''approvals'' then runApprovals env args h
          else if cmd = ''revoke'' then runRevoke env args h
          else if cmd = ''audit'' then runAudit env args h
          else if cmd = ''backup'' then runBackup env args h
          else if cmd = ''restore'' then runRestore env args h
          else if cmd = ''cache'' then runCache env args h
          else if cmd = ''mcp'' then mcp_command env h
          else (failure 2 main_usage, h))"

text \<open>What holds of every command holds of the program.\<close>

lemma main_cases [case_names usage init start stop enable disable status version doctor check explain approve deny policy approvals
    revoke audit backup restore cache mcp]:
  assumes "P (failure 2 main_usage, h)"
    and "\<And>args. argv = ''init'' # args \<Longrightarrow> P (runInit env args h)"
    and "\<And>args. argv = ''start'' # args \<Longrightarrow> P (runStart env args h)"
    and "\<And>args. argv = ''stop'' # args \<Longrightarrow> P (runStop env args h)"
    and "\<And>args. argv = ''enable'' # args \<Longrightarrow> P (runEnable env args h)"
    and "\<And>args. argv = ''disable'' # args \<Longrightarrow> P (runDisable env args h)"
    and "\<And>args. argv = ''status'' # args \<Longrightarrow> P (runStatus env args h)"
    and "P (success (lines [''installgate dev'']), h)"
    and "P (success (doctor_text env), h)"
    and "\<And>args. argv = ''check'' # args \<Longrightarrow> P (runCheck env args h)"
    and "\<And>args. argv = ''explain'' # args \<Longrightarrow> P (runExplain env args h)"
    and "\<And>args. argv = ''approve'' # args \<Longrightarrow> P (runApprove env args h)"
    and "\<And>args. argv = ''deny'' # args \<Longrightarrow> P (runDeny env args h)"
    and "\<And>args. argv = ''policy'' # args \<Longrightarrow> P (runPolicy env args h)"
    and "\<And>args. argv = ''approvals'' # args \<Longrightarrow> P (runApprovals env args h)"
    and "\<And>args. argv = ''revoke'' # args \<Longrightarrow> P (runRevoke env args h)"
    and "\<And>args. argv = ''audit'' # args \<Longrightarrow> P (runAudit env args h)"
    and "\<And>args. argv = ''backup'' # args \<Longrightarrow> P (runBackup env args h)"
    and "\<And>args. argv = ''restore'' # args \<Longrightarrow> P (runRestore env args h)"
    and "\<And>args. argv = ''cache'' # args \<Longrightarrow> P (runCache env args h)"
    and "\<And>args. argv = ''mcp'' # args \<Longrightarrow> P (mcp_command env h)"
  shows "P (installgate_main env argv h)"
proof (cases argv)
  case (Cons cmd args)
  show ?thesis
    unfolding Cons installgate_main_def list.case if_split [of P]
    by (intro conjI impI) (rule assms(1,8,9) | (rule assms, simp add: Cons))+
qed (simp add: installgate_main_def assms(1))

section \<open>Usage errors\<close>

definition no_usage :: "cli_result config_io \<Rightarrow> bool" where
  "no_usage m = (\<forall>w r w'. m w = (Ret r, w') \<longrightarrow> exit_code r \<noteq> Some 2)"

lemma no_usage_bind: "(\<And>x. no_usage (k x)) \<Longrightarrow> no_usage (bind_io m k)"
  by (auto simp: no_usage_def bind_io_def split: prod.splits io_result.splits)

lemma no_usage_return: "exit_code r \<noteq> Some 2 \<Longrightarrow> no_usage (return_io r)"
  by (simp add: no_usage_def return_io_def)

lemma run_config_exit: "no_usage m \<Longrightarrow> exit_code (fst (run_config env m h)) \<noteq> Some 2"
  unfolding no_usage_def by (cases "m (hConfig h)") (auto simp: run_config_def split: io_result.split)

lemma config_commands_usage:
  "exit_code (fst (runInit env args h)) = Some 2 \<Longrightarrow> snd (runInit env args h) = h"
  "exit_code (fst (runEnable env args h)) = Some 2 \<Longrightarrow> snd (runEnable env args h) = h"
  "exit_code (fst (runDisable env args h)) = Some 2 \<Longrightarrow> snd (runDisable env args h) = h"
  "exit_code (fst (runStatus env args h)) = Some 2 \<Longrightarrow> snd (runStatus env args h) = h"
  unfolding runInit_def runEnable_def runDisable_def runStatus_def
  by (auto simp: Let_def split: if_splits option.splits prod.splits
      dest!: run_config_exit [THEN notE, rotated] intro!: no_usage_bind no_usage_return split: sum.splits)

lemma start_usage:
  assumes "exit_code (fst (runStart env args h)) = Some 2"
  shows "snd (runStart env args h) = h"
proof (cases "parse_start (start_defaults env) args")
  case (Inr opt)
  have gw: "exit_code r \<noteq> Some 2" if "start_gateway env port up h0 = (Inl r, h')" for port up h0 r h'
    using that by (auto simp: start_gateway_def split: if_splits prod.splits sum.splits get_error.splits)
  have fg: "exit_code (fst (runServerForeground env port up h0)) \<noteq> Some 2" for port up h0
    using gw [of port up h0] by (auto simp: runServerForeground_def Let_def split: prod.split sum.split)
  have bg: "exit_code (fst (runServerDaemon env port up h0)) \<noteq> Some 2" for port up h0
    by (simp add: runServerDaemon_def Let_def)
  show ?thesis using assms Inr fg bg by (auto simp: runStart_def split: if_splits)
qed (simp add: runStart_def)

lemma approve_usage:
  assumes "exit_code (fst (runApprove env args h)) = Some 2"
  shows "same_host h (snd (runApprove env args h))"
  using assms resolve_target_same [of h env] with_store_exit [OF cli_exits(1), of env]
  by (auto simp: runApprove_def split: option.splits if_splits prod.splits sum.splits) (metis snd_conv)+

lemma deny_usage:
  assumes "exit_code (fst (runDeny env args h)) = Some 2"
  shows "same_host h (snd (runDeny env args h))"
  using assms with_store_exit [OF cli_exits(2), of env]
  by (auto simp: runDeny_def split: option.splits if_splits prod.splits)

lemma store_commands_usage:
  "exit_code (fst (runApprovals env args h)) = Some 2 \<Longrightarrow> snd (runApprovals env args h) = h"
  "exit_code (fst (runRevoke env args h)) = Some 2 \<Longrightarrow> snd (runRevoke env args h) = h"
  "exit_code (fst (runAudit env args h)) = Some 2 \<Longrightarrow> snd (runAudit env args h) = h"
  "exit_code (fst (runCache env args h)) = Some 2 \<Longrightarrow> snd (runCache env args h) = h"
  "exit_code (fst (mcp_command env h)) \<noteq> Some 2"
  unfolding runApprovals_def runRevoke_def runAudit_def runCache_def mcp_command_def
  by (auto simp: cli_exits split: option.splits if_splits prod.splits dest!: with_store_exit [THEN notE, rotated])

lemma file_commands_usage:
  "exit_code (fst (runCheck env args h)) = Some 2 \<Longrightarrow> snd (runCheck env args h) = h"
  "exit_code (fst (runBackup env args h)) = Some 2 \<Longrightarrow> snd (runBackup env args h) = h"
  "exit_code (fst (runRestore env args h)) = Some 2 \<Longrightarrow> snd (runRestore env args h) = h"
  "exit_code (fst (runStop env args h)) \<noteq> Some 2"
  unfolding runCheck_def runBackup_def runRestore_def runStop_def
  by (auto simp: cli_exits Let_def split: option.splits if_splits prod.splits sum.splits bool.splits)

section \<open>Where the database goes\<close>

lemma run_config_files [simp]: "hFiles (snd (run_config env m h)) = hFiles h"
  by (cases "m (hConfig h)") (simp add: run_config_def split: io_result.split)

lemma config_commands_files:
  "hFiles (snd (runInit env args h)) = hFiles h" "hFiles (snd (runEnable env args h)) = hFiles h"
  "hFiles (snd (runDisable env args h)) = hFiles h" "hFiles (snd (runStatus env args h)) = hFiles h"
  "hFiles (snd (runStop env args h)) = hFiles h" "snd (runExplain env args h) = h" "snd (runPolicy env args h) = h"
  by (simp_all add: runInit_def runEnable_def runDisable_def runStatus_def runStop_def runExplain_def runPolicy_def Let_def
      split: option.split prod.split sum.split)

lemma approve_moves: "db_moves (dbPath env) h (snd (runApprove env args h))"
proof -
  have "db_moves (dbPath env) h (snd (with_store env (record_approval env opt pkg ver dur) h1))"
    if "resolve_target env p v h = ((pkg, ver), h1)" for p v pkg ver h1 opt dur
    by (rule db_moves_trans [OF _ with_store_moves]) (use resolve_target_moves [of env h p v] that in simp, rule record_approval_reaches)
  moreover have "db_moves (dbPath env) h h1" if "resolve_target env p v h = (c, h1)" for p v c h1
    using resolve_target_moves [of env h p v] that by simp
  ultimately show ?thesis by (auto simp: runApprove_def split: option.split prod.split sum.split)
qed

lemma deny_moves: "db_moves (dbPath env) h (snd (runDeny env args h))"
proof -
  have "db_moves (dbPath env) h (snd (with_store env (record_denial env opt pkg ver) h1))"
    if "resolve_target env p v h = ((pkg, ver), h1)" for p v pkg ver h1 opt
    by (rule db_moves_trans [OF _ with_store_moves]) (use resolve_target_moves [of env h p v] that in simp, rule record_denial_reaches)
  moreover have "db_moves (dbPath env) h h1" if "resolve_target env p v h = (c, h1)" for p v c h1
    using resolve_target_moves [of env h p v] that by simp
  ultimately show ?thesis by (auto simp: runDeny_def split: option.split prod.split)
qed

lemma store_commands_move:
  "db_moves (dbPath env) h (snd (runApprovals env args h))" "db_moves (dbPath env) h (snd (runRevoke env args h))"
  "db_moves (dbPath env) h (snd (runAudit env args h))" "db_moves (dbPath env) h (snd (runCache env args h))"
  "db_moves (dbPath env) h (snd (mcp_command env h))"
  unfolding runApprovals_def runRevoke_def runAudit_def runCache_def mcp_command_def
  by (auto intro!: with_store_moves cli_reaches split: option.split prod.split)

lemma check_moves: "db_moves (dbPath env) h (snd (runCheck env args h))"
proof -
  have "db_moves (dbPath env) h h'" if "check_evaluate env pkg ver h = (r, h')" for pkg ver r h'
    using check_evaluate_moves [of env h pkg ver] that by simp
  then show ?thesis by (auto simp: runCheck_def Let_def split: option.split prod.split sum.split)
qed

lemma database_content_map: "map_of fs' p = map_of fs p \<Longrightarrow> database_content p fs' = database_content p fs"
  by (simp add: database_content_def)

lemma Backup_other: "p \<noteq> dest \<Longrightarrow> map_of (snd (Backup ok dest s fs)) p = map_of fs p"
  by (simp add: Backup_def Let_def update_conv delete_conv)

lemma backup_moves:
  assumes "\<And>dry dest. parse_target False [] args = Some (dry, dest) \<Longrightarrow> dest \<noteq> dbPath env"
  shows "db_moves (dbPath env) h (snd (runBackup env args h))"
proof (cases "open_store env h")
  case (Pair r h')
  have moved: "db_moves (dbPath env) h h'" using open_store_moves [OF Pair] by blast
  have keep: "db_moves (dbPath env) h (h'\<lparr>hFiles := fs\<rparr>)"
    if "Backup (ceBackup env) dest s (hFiles h') = (e, fs)" "dest \<noteq> dbPath env" for dest s e fs
  proof -
    have "map_of fs (dbPath env) = map_of (hFiles h') (dbPath env)"
      using Backup_other [of "dbPath env" dest "ceBackup env" s "hFiles h'"] that by simp
    from database_content_map [OF this] show ?thesis using moved unfolding db_moves_def by simp
  qed
  show ?thesis
  proof (cases "parse_target False [] args")
    case (Some o')
    obtain dry dest where o': "o' = (dry, dest)" by (cases o')
    then have dest: "dest \<noteq> dbPath env" using assms Some by simp
    show ?thesis
    proof (cases r)
      case (Inr s)
      obtain e fs where b: "Backup (ceBackup env) dest s (hFiles h') = (e, fs)" by fastforce
      show ?thesis using keep [OF b dest] Some o' Pair Inr b by (cases e) (simp_all add: runBackup_def)
    qed (use Some o' Pair moved in \<open>simp add: runBackup_def\<close>)
  qed (simp add: runBackup_def)
qed

text \<open>Commands that do not replace the database at \<open>path\<close>, the served gateway being left out.\<close>

definition keeps_database :: "string \<Rightarrow> cli_env \<times> string list \<Rightarrow> bool" where
  "keeps_database path c =
     (dbPath (fst c) = path \<and>
      (case snd c of
         [] \<Rightarrow> True
       | cmd # args \<Rightarrow> cmd \<noteq> ''restore'' \<and> cmd \<noteq> ''start'' \<and>
           (cmd = ''backup'' \<longrightarrow> (case parse_target False [] args of None \<Rightarrow> True | Some (_, dest) \<Rightarrow> dest \<noteq> path))))"

fun run_commands :: "(cli_env \<times> string list) list \<Rightarrow> host \<Rightarrow> host" where
  "run_commands [] h = h"
| "run_commands (c # cs) h = run_commands cs (snd (installgate_main (fst c) (snd c) h))"

lemma main_moves:
  assumes "keeps_database path (env, argv)"
  shows "db_moves path h (snd (installgate_main env argv h))"
proof -
  have path: "path = dbPath env" using assms by (simp add: keeps_database_def)
  note kept = assms [unfolded keeps_database_def]
  show ?thesis unfolding path
  proof (rule main_cases [where P = "\<lambda>r. db_moves (dbPath env) h (snd r)"], goal_cases)
    case (18 args)
    show ?case
    proof (rule backup_moves)
      fix dry dest assume "parse_target False [] args = Some (dry, dest)"
      then show "dest \<noteq> dbPath env" using assms 18 path by (simp add: keeps_database_def)
    qed
  qed (use kept in \<open>simp_all add: check_moves approve_moves deny_moves store_commands_move config_commands_files db_moves_other del: fst_conv\<close>)
qed

lemma run_commands_moves:
  assumes "\<forall>c \<in> set cmds. keeps_database path c"
  shows "db_moves path h (run_commands cmds h)"
  using assms
proof (induction cmds arbitrary: h)
  case (Cons c cs)
  obtain env argv where c: "c = (env, argv)" by (cases c)
  have "db_moves path h (snd (installgate_main env argv h))" using Cons.prems c by (intro main_moves) simp
  moreover have "db_moves path (snd (installgate_main env argv h)) (run_commands cs (snd (installgate_main env argv h)))"
    using Cons.prems by (intro Cons.IH) simp
  ultimately show ?case using c by (auto intro: db_moves_trans)
qed simp

lemma run_config_decisions [simp]: "hDecisions (snd (run_config env m h)) = hDecisions h"
  by (cases "m (hConfig h)") (simp add: run_config_def split: io_result.split)

text \<open>No command writes the decision files \<^verbatim>\<open>explain\<close> reads.\<close>

lemma open_store_decisions: "open_store env h = (r, h') \<Longrightarrow> hDecisions h' = hDecisions h"
  by (auto simp: open_store_def split: prod.splits)

lemma with_store_decisions [simp]: "hDecisions (snd (with_store env body h)) = hDecisions h"
  by (auto simp: with_store_def write_back_def split: prod.split sum.split dest!: open_store_decisions)

lemma resolve_target_decisions: "resolve_target env pkg ver h = (c, h') \<Longrightarrow> hDecisions h' = hDecisions h"
  by (auto simp: resolve_target_def split: if_splits prod.splits sum.splits dest!: open_store_decisions)

lemma check_evaluate_decisions: "check_evaluate env pkg ver h = (r, h') \<Longrightarrow> hDecisions h' = hDecisions h"
  by (auto simp: check_evaluate_def write_back_def split: prod.splits sum.splits dest!: open_store_decisions)

lemma start_gateway_decisions: "start_gateway env port up h = (r, h') \<Longrightarrow> hDecisions h' = hDecisions h"
  by (auto simp: start_gateway_def split: if_splits prod.splits sum.splits get_error.splits dest!: open_store_decisions)

lemmas decisions_kept = open_store_decisions resolve_target_decisions check_evaluate_decisions start_gateway_decisions

lemma config_commands_decisions:
  "hDecisions (snd (runInit env args h)) = hDecisions h" "hDecisions (snd (runEnable env args h)) = hDecisions h"
  "hDecisions (snd (runDisable env args h)) = hDecisions h" "hDecisions (snd (runStatus env args h)) = hDecisions h"
  "hDecisions (snd (runStop env args h)) = hDecisions h"
  by (simp_all add: runInit_def runEnable_def runDisable_def runStatus_def runStop_def Let_def split: option.split prod.split)

lemma store_commands_decisions:
  "hDecisions (snd (runApprovals env args h)) = hDecisions h" "hDecisions (snd (runRevoke env args h)) = hDecisions h"
  "hDecisions (snd (runAudit env args h)) = hDecisions h" "hDecisions (snd (runCache env args h)) = hDecisions h"
  "hDecisions (snd (mcp_command env h)) = hDecisions h"
  by (simp_all add: runApprovals_def runRevoke_def runAudit_def runCache_def mcp_command_def split: option.split prod.split)

lemma coordinate_commands_decisions:
  "hDecisions (snd (runApprove env args h)) = hDecisions h" "hDecisions (snd (runDeny env args h)) = hDecisions h"
  "hDecisions (snd (runCheck env args h)) = hDecisions h"
  by (auto simp: runApprove_def runDeny_def runCheck_def Let_def split: option.split prod.split sum.split dest!: decisions_kept)

lemma file_commands_decisions:
  "hDecisions (snd (runBackup env args h)) = hDecisions h" "hDecisions (snd (runRestore env args h)) = hDecisions h"
  "hDecisions (snd (runStart env args h)) = hDecisions h"
  by (auto simp: runBackup_def runRestore_def runStart_def runServerForeground_def runServerDaemon_def Let_def
      split: option.split prod.split sum.split bool.split dest!: decisions_kept)

lemma main_decisions: "hDecisions (snd (installgate_main env argv h)) = hDecisions h"
  by (rule main_cases [where P = "\<lambda>r. hDecisions (snd r) = hDecisions h"])
     (simp_all add: config_commands_decisions store_commands_decisions coordinate_commands_decisions file_commands_decisions config_commands_files)

text \<open>Whatever was decided before, \<^verbatim>\<open>explain\<close> finds no decision but in a file named by its path: the
  decisions are in the database.\<close>

lemma recorded_decisions_are_not_explained:
  assumes "hDecisions h = []" "\<not> ceRegular env target" "target \<noteq> []" "target \<noteq> ''--json''" "target \<noteq> ''-json''"
  shows "exit_code (fst (installgate_main env [''explain'', target] (run_commands cmds h))) = Some 1"
proof -
  have "hDecisions (run_commands cmds h0) = hDecisions h0" for h0
    by (induction cmds arbitrary: h0) (simp_all add: main_decisions)
  then have none: "hDecisions (run_commands cmds h) = []" using assms(1) by simp
  have "\<exists>e. DefaultStore env (run_commands cmds h) target = Inl e"
    using none by (auto simp: DefaultStore_def NewFileStore_def MemoryStore_Get_def FileStore_Get_def NewMemoryStore_def)
  then have "\<exists>e. Resolve (docDec (ceCodec env)) (ceRegular env) (ceReadDoc env) target (Some (DefaultStore env (run_commands cmds h))) = Inl e"
    using assms(2,3) by (auto simp: Resolve_def)
  then show ?thesis using assms(3-5) by (auto simp: installgate_main_def runExplain_def)
qed

end
