(* ===== verification/Command_Lines.thy ===== *)
theory Command_Lines
  imports Installgate
begin

text \<open>
  Properties of the command line \<open>installgate_main\<close>: what usage errors and dry runs leave alone, what
  any sequence of commands does to the recorded history, what \<^verbatim>\<open>approve\<close>, \<^verbatim>\<open>deny\<close>, \<^verbatim>\<open>backup\<close> and
  \<^verbatim>\<open>restore\<close> achieve, and what the wiring of the commands implies.
\<close>

section \<open>A host for the examples\<close>

definition cli_codec :: store_codec where
  "cli_codec = \<lparr>metaEnc = \<lambda>_. ''{}'', metaDec = \<lambda>_. Some [], snapEnc = \<lambda>_. ''{}'', snapDec = \<lambda>_. None, decEnc = \<lambda>_. ''{}'',
     decDec = \<lambda>_. None, docEnc = sample_render, docDec = sample_parse, sha256 = \<lambda>s. s\<rparr>"

definition cli_sample :: cli_env where
  "cli_sample =
     \<lparr>ceUser = ''ann'', ceVars = \<lparr>lvPort = [], lvGatewayURL = [], lvDataDir = ''data'', lvUserConfig = [], lvHome = None\<rparr>,
      ceUpstreamVar = [], ceNow = 63900000000000000000, ceSchemaNow = 63900000000000000000,
      ceParseDuration = (\<lambda>s. if s = ''24h'' then Inr (24 * Hour) else Inl ''invalid duration''),
      ceMarshal = \<lambda>_. ''{}'', ceApprovalsJSON = \<lambda>_. Inr ''[]'', ceEventJSON = \<lambda>_. ''{}'', ceExportJSON = \<lambda>_. Some ''{}'',
      ceStatusJSON = \<lambda>_. Inr ''{}'', ceOpen = \<lambda>_. True, ceMigrate = \<lambda>_. True, ceOK = \<lambda>_. True, ceEngineOK = \<lambda>_. True,
      ceBackup = \<lambda>_. True, ceStdout = 1000, ceCodec = cli_codec, ceReplace = \<lambda>_ _ s. s, ceScan = \<lambda>as. as, ceText = \<lambda>_. ''error'',
      ceRegex = (\<lambda>_ s. s), ceSha = \<lambda>s. s, ceConfig = calm_env, ceStat = \<lambda>_. False, ceRead = \<lambda>_. Inl ''missing'',
      ceYamlMap = \<lambda>_. Inl ''empty'', ceYamlDecode = \<lambda>_. Inl ''empty'', ceDecisionDir = True, ceRegular = \<lambda>_. False, ceReadDoc = \<lambda>_. None,
      ceReadBackup = True, ceRestoreWrite = Written, ceMcp = sample_mcp, ceMcpWrite = \<lambda>_. None, ceMcpText = \<lambda>_. ''error'',
      ceStdin = [], ceGoVersion = ''go1.24'', ceGOOS = ''linux'', ceGOARCH = ''amd64'', ceStart = \<lambda>_. True, cePid = 100, ceChildPid = 101,
      ceParseURL = \<lambda>_. None, ceAlreadyRunning = False, ceReady = [True], ceFindProcess = \<lambda>_. True, ceGone = [True]\<rparr>"

definition fresh_host :: host where
  "fresh_host = \<lparr>hFiles = [], hDecisions = [], hConfig = \<lparr>cwFiles = [], cwJournal = None, cwState = None, cwFates = []\<rparr>,
     hPidFile = None, hSignals = [], hSpawned = []\<rparr>"

lemma sample_path: "dbPath cli_sample = ''data/installgate.db''"
proof -
  have "path_Join [''data'', ''installgate.db''] = ''data/installgate.db''" by code_simp
  then show ?thesis by (simp add: dbPath_def getDataDir_def cli_sample_def)
qed

lemma sample_ok:
  "ceOpen cli_sample st" "ceMigrate cli_sample ms" "ceOK cli_sample c" "ceBackup cli_sample b" "ceScan cli_sample as = as"
  "ceParseDuration cli_sample ''24h'' = Inr (24 * Hour)" "actor_of cli_sample = ''ann''" "ceNow cli_sample = 63900000000000000000"
  by (simp_all add: cli_sample_def actor_of_def)

lemma fresh_open:
  obtains s0 h0 where "open_store cli_sample fresh_host = (Inr s0, h0)" "same_data emptyDB s0"
    "database_content (dbPath cli_sample) (hFiles h0) = Some s0"
proof -
  have e: "database_content (dbPath cli_sample) (hFiles fresh_host) = Some emptyDB" by (simp add: fresh_host_def database_content_def)
  have "schema_at 0 emptyDB" by (simp add: schema_at_def emptyDB_def)
  then have "\<exists>s0 fs. getStore (ceOpen cli_sample) (ceMigrate cli_sample) (ceSchemaNow cli_sample) (dbPath cli_sample) (hFiles fresh_host) = (Inr s0, fs)"
    by (intro getStore_works [where n = 0 and s = emptyDB]) (simp_all add: sample_ok sample_path e [unfolded sample_path])
  then obtain s0 fs where g: "getStore (ceOpen cli_sample) (ceMigrate cli_sample) (ceSchemaNow cli_sample) (dbPath cli_sample) (hFiles fresh_host) = (Inr s0, fs)"
    by blast
  then show thesis using that [of s0 "fresh_host\<lparr>hFiles := fs\<rparr>"] getStore_Inr [OF g] e by (simp add: open_store_def)
qed

lemma fresh_with_store:
  obtains s0 where "fst (with_store cli_sample body fresh_host) = fst (body s0)"
    "database_content (dbPath cli_sample) (hFiles (snd (with_store cli_sample body fresh_host))) = Some (snd (body s0))"
    "same_data emptyDB s0"
proof -
  obtain s0 h0 where o: "open_store cli_sample fresh_host = (Inr s0, h0)" "same_data emptyDB s0" by (rule fresh_open)
  then show thesis using that [of s0] by (cases "body s0") (simp add: with_store_def write_back_def)
qed

definition held_snapshot :: Snapshot where
  "held_snapshot = sample_snapshot [sample_signal ''malicious'' ''unavailable'' 9]"

section \<open>Usage errors\<close>

text \<open>
  C32. A command line that is refused with exit code 2 has changed nothing: no data of any file, no
  configuration, no PID file, no decision, no process.
\<close>

theorem usage_error_changes_nothing:
  assumes "exit_code (fst (installgate_main env argv h)) = Some 2"
  shows "same_host h (snd (installgate_main env argv h))"
proof -
  have "exit_code (fst (installgate_main env argv h)) = Some 2 \<longrightarrow> same_host h (snd (installgate_main env argv h))"
    by (rule main_cases [where P = "\<lambda>r. exit_code (fst r) = Some 2 \<longrightarrow> same_host h (snd r)"])
       (simp_all add: config_commands_usage start_usage approve_usage deny_usage store_commands_usage file_commands_usage config_commands_files)
  with assms show ?thesis by blast
qed

theorem usage_error_changes_nothing_witness:
  "same_host fresh_host (snd (installgate_main cli_sample [''approve'', ''left-pad'', ''react''] fresh_host))"
  by (rule usage_error_changes_nothing) (simp add: installgate_main_def runApprove_def approve_defaults_def)

section \<open>History\<close>



section \<open>Dry runs\<close>

text \<open>The command lines that are dry runs once their arguments are read; those of \<^verbatim>\<open>enable\<close> are not
  among them, because asking for the status recovers an interrupted transaction.\<close>

definition target_dry_run :: "string list \<Rightarrow> bool" where
  "target_dry_run args = (case parse_target False [] args of None \<Rightarrow> False | Some (dryRun, _) \<Rightarrow> dryRun)"

definition dry_run :: "cli_env \<Rightarrow> string list \<Rightarrow> bool" where
  "dry_run env argv =
     (case argv of
        [] \<Rightarrow> False
      | cmd # args \<Rightarrow>
          if cmd = ''init'' then args \<noteq> []
          else if cmd = ''start''
          then (case parse_start (start_defaults env) args of Inl _ \<Rightarrow> False | Inr opt \<Rightarrow> soDryRun opt)
          else if cmd = ''stop'' then list_ex (\<lambda>a. a = ''--dry-run'') args
          else if cmd = ''approve'' then (case parse_approve approve_defaults args of None \<Rightarrow> False | Some opt \<Rightarrow> aoDryRun opt)
          else if cmd = ''deny'' then (case parse_deny deny_defaults args of None \<Rightarrow> False | Some opt \<Rightarrow> doDryRun opt)
          else if cmd \<in> set [''disable'', ''revoke'', ''backup'', ''restore'', ''cache''] then target_dry_run args
          else False)"

lemma dry_targets:
  assumes "target_dry_run args"
  shows "snd (runDisable env args h) = h" "snd (runRevoke env args h) = h" "snd (runBackup env args h) = h"
    and "snd (runCache env args h) = h" "same_host h (snd (runRestore env args h))"
proof -
  obtain target where t: "parse_target False [] args = Some (True, target)"
    using assms by (auto simp: target_dry_run_def split: option.splits)
  then show "snd (runDisable env args h) = h" "snd (runRevoke env args h) = h" "snd (runBackup env args h) = h" "snd (runCache env args h) = h"
    by (simp_all add: runDisable_def runRevoke_def runBackup_def runCache_def)
  have "file_data p fs = file_data p (hFiles h)" if "OpenSQLite (ceOpen env) target (hFiles h) = (r, fs)" for p r fs
    using OpenSQLite_content [of p "ceOpen env" target "hFiles h"] that by (simp add: file_data_def)
  then show "same_host h (snd (runRestore env args h))"
    using t by (auto simp: runRestore_def split: prod.split sum.split intro!: same_host_files)
qed

text \<open>
  C31. A dry run changes nothing. Of every command whose arguments ask for a dry run, the data of
  every file, the npm configuration, the recorded decisions, the PID file and the processes are as
  before; at most an old schema has been brought up to date.
\<close>

theorem dry_run_changes_nothing:
  assumes "dry_run env argv"
  shows "same_host h (snd (installgate_main env argv h))"
proof -
  have approve: "same_host h (snd (runApprove env args h))" if "parse_approve approve_defaults args = Some opt" "aoDryRun opt" for args opt
    using that by (auto simp: runApprove_def split: prod.split sum.split) (metis resolve_target_same snd_conv)+
  have deny: "same_host h (snd (runDeny env args h))" if "parse_deny deny_defaults args = Some opt" "doDryRun opt" for args opt
    using that by (auto simp: runDeny_def split: prod.split) (metis resolve_target_same snd_conv)+
  have "dry_run env argv \<longrightarrow> same_host h (snd (installgate_main env argv h))"
    by (rule main_cases [where P = "\<lambda>r. dry_run env argv \<longrightarrow> same_host h (snd r)"])
       (auto simp: dry_run_def dry_targets config_commands_files runInit_def runStart_def runStop_def approve deny split: option.splits sum.splits)
  with assms show ?thesis by blast
qed

theorem dry_run_changes_nothing_witness:
  "same_host fresh_host (snd (installgate_main cli_sample [''deny'', ''left-pad'', ''--dry-run''] fresh_host))"
  by (rule dry_run_changes_nothing) (simp add: dry_run_def deny_defaults_def)

section \<open>Backup and restore\<close>



section \<open>Approve and deny\<close>

text \<open>A package name the commands take as it is, without a version and not naming a decision.\<close>

definition plain_package :: "string \<Rightarrow> bool" where
  "plain_package pkg =
     (pkg \<noteq> [] \<and> \<not> HasPrefix pkg ''-'' \<and> \<not> HasPrefix pkg ''dec_'' \<and> split_coordinate ''*'' pkg ''*'' = (pkg, ''*''))"

lemma plain_not_option:
  assumes "plain_package pkg"
  shows "pkg \<noteq> ''--version''" "pkg \<noteq> ''-v''" "pkg \<noteq> ''--reason''" "pkg \<noteq> ''-r''" "pkg \<noteq> ''--duration''" "pkg \<noteq> ''-d''"
    "pkg \<noteq> ''--json''" "pkg \<noteq> ''--dry-run''"
  using assms by (auto simp: plain_package_def)

lemma parse_plain:
  assumes "plain_package pkg"
  shows "parse_approve approve_defaults [pkg] = Some (approve_defaults\<lparr>aoPkg := pkg\<rparr>)"
    and "parse_deny deny_defaults [pkg] = Some (deny_defaults\<lparr>doPkg := pkg\<rparr>)"
  using assms plain_not_option [OF assms] by (simp_all add: plain_package_def approve_defaults_def deny_defaults_def)

lemma append_audit_approvals [simp]: "dbApprovals (append_audit env ev s) = dbApprovals s"
  by (simp add: append_audit_def AppendAudit_def Let_def)

lemma with_store_success:
  assumes "with_store env body h = (r, h')" "exit_code r = Some 0"
  obtains s0 s' h0 where "open_store env h = (Inr s0, h0)" "body s0 = (r, s')" "h' = write_back env s' h0"
  using assms by (auto simp: with_store_def split: prod.splits sum.splits)

lemma write_back_content [simp]: "database_content (dbPath env) (hFiles (write_back env s h)) = Some s"
  by (simp add: write_back_def)

text \<open>What an engine over the SQLite store reports for a package whose release the policy holds.\<close>

lemma held_verdict:
  assumes "engStore eng = Some (sqlite_ops k ra scan ok)" "ok CallFind"
    and "decVerdict (Policy_EvaluateSnapshot (engPolicy eng) snap) = ApprovalRequired"
    and "Engine_EvaluateSnapshot re sha now eng snap s = (Inr doc, s')"
    and "FindActiveApproval scan True (snapPkg snap) (snapVersion snap) now s = Inr found"
  shows "docVerdict doc = kind_string (if found = None then ApprovalRequired else Allow)"
proof -
  obtain dec where d: "NewDecisionDocument re sha now (snapPkg snap) (snapVersion snap) dec snap emptyConfig = Inr doc"
      "dec = apply_approval (engStore eng) now (snapPkg snap) (snapVersion snap) s (Policy_EvaluateSnapshot (engPolicy eng) snap)"
    using assms(4) by (auto simp: Engine_EvaluateSnapshot_def Let_def split: sum.splits option.splits if_splits)
  have "decVerdict dec = (if found = None then ApprovalRequired else Allow)"
    using assms(1-3,5) unfolding d(2) by (cases found) (simp_all add: apply_approval_def sqlite_ops_def)
  then show ?thesis using NewDecisionDocument_Inr(1) [OF d(1)] by simp
qed

lemma star_matches: "matchApprovalVersion ''*'' v"
proof -
  have "TrimSpace ''*'' = ''*''" by code_simp
  then show ?thesis by (simp add: matchApprovalVersion_def)
qed

text \<open>
  C14. An approval takes effect. After \<^verbatim>\<open>approve pkg\<close> has succeeded, every engine over the database
  reports allow for every version of the package that the policy holds for approval, at every moment
  before the approval expires.
\<close>

theorem approve_lets_held_package_pass:
  assumes "plain_package pkg" "ceParseDuration env ''24h'' = Inr dur"
    and "installgate_main env [''approve'', pkg] h = (r, h')" "exit_code r = Some 0"
    and "database_content (dbPath env) (hFiles h') = Some s"
    and "engStore eng = Some (sqlite_ops k ra scan ok)" "ok CallFind" "scan_complete scan s"
    and "snapPkg snap = pkg" "decVerdict (Policy_EvaluateSnapshot (engPolicy eng) snap) = ApprovalRequired"
    and "t < ceNow env + dur" "Engine_EvaluateSnapshot re sha t eng snap s = (Inr doc, s')"
  shows "docVerdict doc = kind_string Allow"
proof -
  let ?opt = "approve_defaults\<lparr>aoPkg := pkg\<rparr>"
  have plain: "pkg \<noteq> []" "split_coordinate ''*'' pkg ''*'' = (pkg, ''*'')" "\<not> HasPrefix pkg ''dec_''"
    using assms(1) by (simp_all add: plain_package_def)
  have "runApprove env [pkg] h = (r, h')" using assms(3) by (simp add: installgate_main_def)
  then have w: "with_store env (record_approval env ?opt pkg ''*'' dur) h = (r, h')"
    using parse_plain(1) [OF assms(1)] plain assms(2,4)
    by (auto simp: runApprove_def approve_defaults_def resolve_target_def split: if_splits)
  obtain s0 s1 h0 where b: "record_approval env ?opt pkg ''*'' dur s0 = (r, s1)" and h': "h' = write_back env s1 h0"
    using with_store_success [OF w assms(4)] by metis
  then have s: "s = s1" using assms(5) by simp
  have "\<exists>a \<in> set (dbApprovals s). appPackage a = pkg \<and> appVersion a = ''*'' \<and> t < appExpiresAt a \<and> appRevokedAt a = None"
    using b assms(4,11) unfolding s
    by (auto simp: record_approval_def CreateApproval_def Let_def split: option.splits if_splits)
  then obtain a where a: "a \<in> set (dbApprovals s)" "appPackage a = pkg" "appVersion a = ''*''" "t < appExpiresAt a" "appRevokedAt a = None" by blast
  obtain found where f: "FindActiveApproval scan True pkg (snapVersion snap) t s = Inr found"
    by (simp add: FindActiveApproval_def Let_def)
  have "found \<noteq> None"
  proof
    assume "found = None"
    then have "FindActiveApproval scan True pkg (snapVersion snap) t s = Inr None" using f by simp
    from FindActiveApproval_None [OF this _ a(1,2,4,5)] show False using assms(8) a(3) star_matches by (simp add: scan_complete_def)
  qed
  then show ?thesis using held_verdict [OF assms(6,7,10,12)] f assms(9) by simp
qed

lemma held_evaluation:
  obtains doc s' where "Engine_EvaluateSnapshot (\<lambda>_ t. t) (\<lambda>t. t) now sample_engine held_snapshot s = (Inr doc, s')"
  using EvaluateSnapshot_total [of held_snapshot "\<lambda>_ t. t" "\<lambda>t. t" now sample_engine s] sample_coordinates
  by (auto simp: held_snapshot_def sample_snapshot_def)

lemma held_by_policy: "decVerdict (Policy_EvaluateSnapshot (engPolicy sample_engine) held_snapshot) = ApprovalRequired"
  by code_simp

lemma sample_engine_store: "engStore sample_engine = Some (sqlite_ops sample_columns (\<lambda>p f t. t) (\<lambda>xs. xs) (\<lambda>_. True))"
  by (simp add: sample_engine_def NewEngine_def)

lemma plain_left_pad: "plain_package ''left-pad''"
  by code_simp

definition host_database :: "host \<Rightarrow> SQLiteStore" where
  "host_database h = the (database_content (dbPath cli_sample) (hFiles h))"

theorem approve_lets_held_package_pass_witness:
  "docVerdict (projr (fst (Engine_EvaluateSnapshot (\<lambda>_ t. t) (\<lambda>t. t) 63900000000000000001 sample_engine held_snapshot
     (host_database (snd (installgate_main cli_sample [''approve'', ''left-pad''] fresh_host)))))) = ''allow''"
proof -
  let ?body = "record_approval cli_sample (approve_defaults\<lparr>aoPkg := ''left-pad''\<rparr>) ''left-pad'' ''*'' (24 * Hour)"
  obtain s0 where w: "fst (with_store cli_sample ?body fresh_host) = fst (?body s0)"
    "database_content (dbPath cli_sample) (hFiles (snd (with_store cli_sample ?body fresh_host))) = Some (snd (?body s0))" "same_data emptyDB s0"
    by (rule fresh_with_store)
  have m: "installgate_main cli_sample [''approve'', ''left-pad''] fresh_host = with_store cli_sample ?body fresh_host"
    using plain_left_pad parse_plain(1) [OF plain_left_pad]
    by (simp add: installgate_main_def runApprove_def plain_package_def approve_defaults_def resolve_target_def sample_ok Hour_def Minute_def Second_def)
  have run: "installgate_main cli_sample [''approve'', ''left-pad''] fresh_host = (fst (?body s0), snd (with_store cli_sample ?body fresh_host))"
    unfolding m by (rule prod_eqI) (simp_all add: w(1))
  have "dbApprovals s0 = []" using same_data_fields(3) [OF w(3)] by (simp add: emptyDB_def)
  moreover have "\<not> isAutomatedActor ''ann''" by code_simp
  ultimately have x: "exit_code (fst (?body s0)) = Some 0"
    by (simp add: record_approval_def CreateApproval_def Let_def approval_id_def approve_defaults_def sample_ok Hour_def Minute_def Second_def)
  obtain doc s' where e: "Engine_EvaluateSnapshot (\<lambda>_ t. t) (\<lambda>t. t) 63900000000000000001 sample_engine held_snapshot (snd (?body s0)) = (Inr doc, s')"
    by (rule held_evaluation)
  have "docVerdict doc = kind_string Allow"
    by (rule approve_lets_held_package_pass [OF plain_left_pad sample_ok(6) run x w(2) sample_engine_store _ _ _ held_by_policy _ e])
       (simp_all add: scan_complete_def held_snapshot_def sample_snapshot_def sample_ok Hour_def Minute_def Second_def)
  then show ?thesis using e w(2) by (simp add: m host_database_def)
qed

lemma revoke_denied_approvals:
  assumes "\<And>i. ceOK env (CliRevoke i)"
  shows "dbApprovals (snd (revoke_denied env pkg ver apps (n, s))) =
    map (\<lambda>a. if appID a \<in> appID ` set (filter (denied pkg ver) apps) then a\<lparr>appRevokedAt := Some (ceNow env)\<rparr> else a) (dbApprovals s)"
proof (induction apps arbitrary: n s)
  case (Cons app apps)
  show ?case
  proof (cases "denied pkg ver app")
    case True
    define s1 where "s1 = snd (RevokeApproval True (appID app) (ceNow env) s)"
    have "dbApprovals s1 = map (\<lambda>a. if appID a = appID app then a\<lparr>appRevokedAt := Some (ceNow env)\<rparr> else a) (dbApprovals s)"
      by (simp add: s1_def RevokeApproval_def Let_def)
    then show ?thesis using True Cons.IH [of "n + 1" s1] assms by (auto simp: s1_def [symmetric])
  qed (simp add: Cons.IH)
qed simp

text \<open>
  C13. A denial is effective. After \<^verbatim>\<open>deny pkg\<close> has run with a working store, no version of the package
  that the policy holds for approval passes any more: every engine over the database reports it held,
  until somebody approves it again.
\<close>

theorem deny_holds_package:
  assumes "plain_package pkg" "\<And>c. ceOK env c" "\<And>as. set (ceScan env as) = set as"
    and "installgate_main env [''deny'', pkg] h = (r, h')" "exit_code r = Some 0"
    and "database_content (dbPath env) (hFiles h') = Some s"
    and "engStore eng = Some (sqlite_ops k ra scan ok)" "ok CallFind" "scan_complete scan s"
    and "snapPkg snap = pkg" "decVerdict (Policy_EvaluateSnapshot (engPolicy eng) snap) = ApprovalRequired"
    and "ceNow env \<le> t" "Engine_EvaluateSnapshot re sha t eng snap s = (Inr doc, s')"
  shows "docVerdict doc = kind_string ApprovalRequired"
proof -
  let ?opt = "deny_defaults\<lparr>doPkg := pkg\<rparr>"
  have plain: "pkg \<noteq> []" "split_coordinate ''*'' pkg ''*'' = (pkg, ''*'')" "\<not> HasPrefix pkg ''dec_''"
    using assms(1) by (simp_all add: plain_package_def)
  have "runDeny env [pkg] h = (r, h')" using assms(4) by (simp add: installgate_main_def)
  then have w: "with_store env (record_denial env ?opt pkg ''*'') h = (r, h')"
    using parse_plain(2) [OF assms(1)] plain assms(5)
    by (auto simp: runDeny_def deny_defaults_def resolve_target_def split: if_splits)
  obtain s0 s1 h0 where b: "record_denial env ?opt pkg ''*'' s0 = (r, s1)" and h': "h' = write_back env s1 h0"
    using with_store_success [OF w assms(5)] by metis
  then have s: "s = s1" using assms(6) by simp
  define apps where "apps = SortSlice newest_first
    (filter (\<lambda>a. appExpiresAt a > ceNow env \<and> appRevokedAt a = None) (ceScan env (dbApprovals s0)))"
  have apps: "set apps = {a \<in> set (dbApprovals s0). appExpiresAt a > ceNow env \<and> appRevokedAt a = None}"
    using assms(3) by (auto simp: apps_def)
  obtain n s2 where r: "revoke_denied env pkg ''*'' apps (0, s0) = (n, s2)" by fastforce
  have "dbApprovals s = dbApprovals s2"
    using b r assms(2) unfolding s by (auto simp: record_denial_def ListApprovals_def apps_def)
  then have fin: "dbApprovals s = map (\<lambda>a. if appID a \<in> appID ` set (filter (denied pkg ''*'') apps)
      then a\<lparr>appRevokedAt := Some (ceNow env)\<rparr> else a) (dbApprovals s0)"
    using revoke_denied_approvals [of env pkg "''*''" apps 0 s0] r assms(2) by simp
  have dead: "\<not> (t < appExpiresAt a \<and> appRevokedAt a = None)" if mem: "a \<in> set (dbApprovals s)" and pk: "appPackage a = pkg" for a
  proof
    assume live: "t < appExpiresAt a \<and> appRevokedAt a = None"
    obtain a0 where a0: "a0 \<in> set (dbApprovals s0)"
      "a = (if appID a0 \<in> appID ` set (filter (denied pkg ''*'') apps) then a0\<lparr>appRevokedAt := Some (ceNow env)\<rparr> else a0)"
      using mem unfolding fin set_map by blast
    then have "a = a0" "appID a0 \<notin> appID ` set (filter (denied pkg ''*'') apps)" using live by (auto split: if_splits)
    moreover have "a0 \<in> set (filter (denied pkg ''*'') apps)"
      using calculation(1) a0(1) live pk assms(12) apps by (auto simp: denied_def)
    ultimately show False by blast
  qed
  obtain found where f: "FindActiveApproval scan True pkg (snapVersion snap) t s = Inr found"
    by (simp add: FindActiveApproval_def Let_def)
  have "found = None"
  proof (rule ccontr)
    assume "found \<noteq> None"
    then obtain a where "FindActiveApproval scan True pkg (snapVersion snap) t s = Inr (Some a)" using f by auto
    from FindActiveApproval_Some [OF this] show False using assms(9) dead [of a] by (simp add: scan_complete_def)
  qed
  then show ?thesis using held_verdict [OF assms(7,8,11,13)] f assms(10) by simp
qed

theorem deny_holds_package_witness:
  "docVerdict (projr (fst (Engine_EvaluateSnapshot (\<lambda>_ t. t) (\<lambda>t. t) 63900000000000000001 sample_engine held_snapshot
     (host_database (snd (installgate_main cli_sample [''deny'', ''left-pad''] fresh_host)))))) = ''approval_required''"
proof -
  let ?body = "record_denial cli_sample (deny_defaults\<lparr>doPkg := ''left-pad''\<rparr>) ''left-pad'' ''*''"
  obtain s0 where w: "fst (with_store cli_sample ?body fresh_host) = fst (?body s0)"
    "database_content (dbPath cli_sample) (hFiles (snd (with_store cli_sample ?body fresh_host))) = Some (snd (?body s0))" "same_data emptyDB s0"
    by (rule fresh_with_store)
  have m: "installgate_main cli_sample [''deny'', ''left-pad''] fresh_host = with_store cli_sample ?body fresh_host"
    using plain_left_pad parse_plain(2) [OF plain_left_pad]
    by (simp add: installgate_main_def runDeny_def plain_package_def deny_defaults_def resolve_target_def)
  have run: "installgate_main cli_sample [''deny'', ''left-pad''] fresh_host = (fst (?body s0), snd (with_store cli_sample ?body fresh_host))"
    unfolding m by (rule prod_eqI) (simp_all add: w(1))
  have x: "exit_code (fst (?body s0)) = Some 0" by (simp add: record_denial_def split: prod.split)
  obtain doc s' where e: "Engine_EvaluateSnapshot (\<lambda>_ t. t) (\<lambda>t. t) 63900000000000000001 sample_engine held_snapshot (snd (?body s0)) = (Inr doc, s')"
    by (rule held_evaluation)
  have "docVerdict doc = kind_string ApprovalRequired"
    by (rule deny_holds_package [OF plain_left_pad _ _ run x w(2) sample_engine_store _ _ _ held_by_policy _ e])
       (simp_all add: scan_complete_def held_snapshot_def sample_snapshot_def sample_ok)
  then show ?thesis using e w(2) by (simp add: m host_database_def)
qed

text \<open>A denial of one version leaves an approval of a range that covers it.\<close>

lemma deny_version_keeps_range_approval:
  "\<not> denied pkg ''1.2.3'' (app\<lparr>appPackage := pkg, appVersion := ''^1.0.0''\<rparr>) \<and> matchApprovalVersion ''^1.0.0'' ''1.2.3''"
proof -
  have "matchApprovalVersion ''^1.0.0'' ''1.2.3''" by code_simp
  then show ?thesis by (simp add: denied_def)
qed

section \<open>The wiring of the commands\<close>

lemma command_assembler_default:
  "command_assembler env pkg ver = Inr (fst (Assemble (ceSha env) memory_ops NewAssembler (ceNow env) pkg ver NewMemoryCache))"
  by (simp add: command_assembler_def WithFreshnessPolicy_def NewAssembler_def)

text \<open>The assembler of the commands has no provider and requires no evidence. Without evidence the policy
  allows, so that neither \<^verbatim>\<open>check\<close> nor the running gateway holds anything.\<close>

lemma wired_engine_allows:
  assumes "Engine_Evaluate re sha now (Some (command_assembler env)) eng pkg ver s = (Inr doc, s')"
  shows "docVerdict doc = kind_string Allow"
proof -
  define snap where "snap = fst (Assemble (ceSha env) memory_ops NewAssembler (ceNow env) pkg ver NewMemoryCache)"
  have "\<exists>t. Engine_EvaluateSnapshot re sha now eng snap s = (Inr doc, t)"
    using assms by (auto simp: Engine_Evaluate_def command_assembler_default snap_def [symmetric] split: prod.splits sum.splits)
  then obtain t where "Engine_EvaluateSnapshot re sha now eng snap s = (Inr doc, t)" ..
  then obtain dec where d: "NewDecisionDocument re sha now (snapPkg snap) (snapVersion snap) dec snap emptyConfig = Inr doc"
      "dec = apply_approval (engStore eng) now (snapPkg snap) (snapVersion snap) s (Policy_EvaluateSnapshot (engPolicy eng) snap)"
    by (auto simp: Engine_EvaluateSnapshot_def Let_def split: sum.splits option.splits if_splits)
  have "decVerdict (Policy_EvaluateSnapshot (engPolicy eng) snap) = Allow"
    using assembler_without_providers_allows by (simp add: snap_def)
  then have "decVerdict dec = Allow" unfolding d(2) by (simp add: apply_approval_def split: option.split)
  then show ?thesis using NewDecisionDocument_Inr(1) [OF d(1)] by simp
qed

lemma wired_result_allows:
  "fst (Engine_Evaluate re sha now (Some (command_assembler env)) eng pkg ver s) = Inr doc \<Longrightarrow> docVerdict doc = kind_string Allow"
  using wired_engine_allows by (metis prod.collapse)

lemma check_always_allows: "check_evaluate env pkg ver h = (Inr doc, h') \<Longrightarrow> docVerdict doc = kind_string Allow"
  by (auto simp: check_evaluate_def split: sum.splits prod.splits dest: wired_engine_allows wired_result_allows)

lemma started_gateway_unguarded:
  assumes "start_gateway env port upstream h = (Inr (handler, index), h')"
  shows "hQuarantine handler = None \<and>
    (\<forall>evaluate. hEvaluator handler = Some evaluate \<longrightarrow>
       (\<forall>pkg version s doc s'. evaluate pkg version s = (Inr (Some doc), s') \<longrightarrow> \<not> held_doc doc))"
proof -
  have h: "hQuarantine handler = None" "hEvaluator handler = Some (gateway_evaluator env)"
    using assms
    by (auto simp: start_gateway_def NewHandler_def gateway_config_def split: if_splits prod.splits sum.splits get_error.splits)
  have "docVerdict doc = kind_string Allow" if "gateway_evaluator env pkg version s = (Inr (Some doc), s')" for pkg version s doc s'
  proof (cases "Engine_Evaluate (ceRegex env) (ceSha env) (ceNow env) (Some (command_assembler env))
        (NewEngine (Some (command_policy env)) (Some (command_ops env)) ''gateway'') pkg version s")
    case (Pair r t)
    then have "r = Inr doc" using that by (cases r) (simp_all add: gateway_evaluator_def)
    with Pair show ?thesis by (auto dest: wired_engine_allows)
  qed
  then show ?thesis using h by (auto simp: held_doc_def)
qed

text \<open>A restore that is cut short leaves no database.\<close>

lemma restore_not_atomic:
  "b \<noteq> [] \<Longrightarrow> database_content path (snd (overwrite_database (CutShort b) path content fs)) = None"
  by (simp add: overwrite_database_def database_content_def update_conv)

section \<open>The daemon\<close>

lemma fold_digits: "fold (\<lambda>c v. 10 * v + (int (byte c) - 48)) (xs @ [digit d]) a = 10 * fold (\<lambda>c v. 10 * v + (int (byte c) - 48)) xs a + int d"
  if "d < 10"
  using that by (simp add: digit_range)

lemma digits_value_show_nat: "digits_value (show_nat n) = int n"
proof (induction n rule: show_nat.induct)
  case (1 n)
  show ?case
  proof (cases "n < 10")
    case True
    then show ?thesis by (simp add: show_nat.simps [of n] digits_value_def digit_range)
  next
    case False
    have "n mod 10 < 10" by simp
    moreover have "10 * int (n div 10) + int (n mod 10) = int n" by presburger
    ultimately show ?thesis
      using fold_digits [of "n mod 10" "show_nat (n div 10)" 0] False 1 by (simp add: show_nat.simps [of n] digits_value_def)
  qed
qed

lemma show_nat_is_digits: "list_all is_digit (show_nat n) \<and> show_nat n \<noteq> []"
proof (induction n rule: show_nat.induct)
  case (1 n)
  have d: "is_digit (digit k)" if "k < 10" for k using that by (simp add: is_digit_def digit_range)
  show ?case
  proof (cases "n < 10")
    case True
    then show ?thesis using d by (simp add: show_nat.simps [of n])
  next
    case False
    have "n mod 10 < 10" by simp
    then show ?thesis using False 1 d by (simp add: show_nat.simps [of n])
  qed
qed

lemma Atoi_show_int:
  assumes "0 \<le> n" "n < 2 ^ 63"
  shows "Atoi (show_int n) = Inr n"
proof -
  have nn: "list_all is_digit (show_nat (nat n))" "show_nat (nat n) \<noteq> []" using show_nat_is_digits by blast+
  then obtain c r where c: "show_nat (nat n) = c # r" by (cases "show_nat (nat n)") auto
  have "is_digit c" using nn(1) c by simp
  then have "c \<noteq> CHR ''-''" "c \<noteq> CHR ''+''" by (auto simp: is_digit_def)
  then have "sign_of (show_int n) = (False, show_nat (nat n))" using assms c by (simp add: show_int_def sign_of_def)
  then show ?thesis using assms nn digits_value_show_nat [of "nat n"] by (simp add: Atoi_def Let_def)
qed

lemma fold_digits_nonneg:
  "list_all is_digit ds \<Longrightarrow> 0 \<le> a \<Longrightarrow> 0 \<le> fold (\<lambda>c v. 10 * v + (int (byte c) - 48)) ds a"
  by (induction ds arbitrary: a) (auto simp: is_digit_def)

lemma atoi_ok_range: "atoi_ok x = Some n \<Longrightarrow> n < 2 ^ 63"
  using fold_digits_nonneg [of "snd (sign_of x)" 0]
  by (auto simp: atoi_ok_def Atoi_def Let_def digits_value_def split: prod.splits if_splits)

lemma parse_start_port:
  assumes "parse_start opt args = Inr opt'" "0 < soPort opt" "soPort opt < 2 ^ 63"
  shows "0 < soPort opt' \<and> soPort opt' < 2 ^ 63"
  using assms by (induction opt args rule: parse_start.induct) (auto simp: atoi_ok_range [simplified] split: if_splits list.splits option.splits)

lemma start_defaults_port: "0 < soPort (start_defaults env) \<and> soPort (start_defaults env) < 2 ^ 63"
  by (auto simp: start_defaults_def DefaultGatewayPort_def split: option.split dest: atoi_ok_range)

text \<open>
  C38. The background process serves what was asked for. The arguments the daemon passes to the process
  it starts are read there, whatever its environment, as a foreground start on the same port and with
  the same upstream.
\<close>

theorem daemon_child_same_options:
  assumes "parse_start (start_defaults env) args = Inr opt"
    and "hSpawned (snd (runStart env args h)) = hSpawned h @ [''start'' # child]"
  shows "parse_start (start_defaults env') child =
    Inr \<lparr>soForeground = True, soDryRun = False, soPort = soPort opt, soUpstream = soUpstream opt\<rparr>"
proof -
  have range: "0 < soPort opt" "soPort opt < 2 ^ 63" using parse_start_port [OF assms(1)] start_defaults_port by auto
  have keep: "hSpawned (snd (runServerForeground env port up h)) = hSpawned h" for port up
  proof (cases "start_gateway env port up h")
    case (Pair r h')
    then have "hSpawned h' = hSpawned h"
      by (auto simp: start_gateway_def open_store_def split: if_splits prod.splits sum.splits get_error.splits)
    then show ?thesis using Pair by (simp add: runServerForeground_def Let_def split: sum.split)
  qed
  then have "child = daemon_args (soPort opt) (soUpstream opt)"
    using assms by (auto simp: runStart_def runServerDaemon_def Let_def split: if_splits)
  moreover have "atoi_ok (show_int (soPort opt)) = Some (soPort opt)" using Atoi_show_int range by (simp add: atoi_ok_def)
  ultimately show ?thesis using range by (simp add: daemon_args_def start_defaults_def)
qed

theorem daemon_child_same_options_witness:
  "parse_start (start_defaults cli_sample) [''--foreground'', ''--port'', show_int 9000, ''--upstream'', ''http://mirror''] =
     Inr \<lparr>soForeground = True, soDryRun = False, soPort = 9000, soUpstream = ''http://mirror''\<rparr>"
proof -
  let ?opt = "\<lparr>soForeground = False, soDryRun = False, soPort = 9000, soUpstream = ''http://mirror''\<rparr>"
  have "atoi_ok ''9000'' = Some 9000" by code_simp
  then have p: "parse_start (start_defaults cli_sample) [''--port'', ''9000'', ''--upstream'', ''http://mirror''] = Inr ?opt"
    by (simp add: start_defaults_def)
  have "hSpawned (snd (runStart cli_sample [''--port'', ''9000'', ''--upstream'', ''http://mirror''] fresh_host)) =
      hSpawned fresh_host @ [''start'' # [''--foreground'', ''--port'', show_int 9000, ''--upstream'', ''http://mirror'']]"
    unfolding runStart_def p by (simp add: runServerDaemon_def daemon_args_def cli_sample_def)
  from daemon_child_same_options [OF p this] show ?thesis by simp
qed

end
