(* ===== verification/Bounded_Reader.thy ===== *)
theory Bounded_Reader
  imports Archive
begin

text \<open>
  The reader that bounds the compressed bytes of an archive: \<^verbatim>\<open>boundCountReader\<close> of
  \<^verbatim>\<open>src/internal/quarantine/archive.go\<close>, and what a consumer that reads to the end gets from it. The
  answer of the underlying reader is the number of bytes and an error, if any.
\<close>

datatype ctx_state = CtxLive | CtxDeadline | CtxCancelled

datatype read_error = ReadEOF | ReadFailed | ReadArchive archive_error

record boundCountReader =
  brLimit :: int
  brRead :: int

definition ctx_error :: "ctx_state \<Rightarrow> read_error" where
  "ctx_error c = ReadArchive (if c = CtxDeadline then ErrArchiveTimeout else ErrCancelled)"

text \<open>One \<^verbatim>\<open>Read\<close>: the state of the context before and after, and the answer of the underlying reader.\<close>

definition Reader_Read ::
  "ctx_state \<Rightarrow> ctx_state \<Rightarrow> nat \<times> read_error option \<Rightarrow> boundCountReader \<Rightarrow> (nat \<times> read_error option) \<times> boundCountReader" where
  "Reader_Read before after answer b =
     (if before \<noteq> CtxLive then ((0, Some (ctx_error before)), b)
      else if brRead b > brLimit b then ((0, Some (ReadArchive ErrArchiveTooLarge)), b)
      else (case answer of (n, err) \<Rightarrow>
        let b' = b\<lparr>brRead := brRead b + int n\<rparr> in
        if brRead b' > brLimit b' then ((n, Some (ReadArchive ErrArchiveTooLarge)), b')
        else if err \<noteq> None \<and> after \<noteq> CtxLive then ((n, Some (ctx_error after)), b')
        else ((n, err), b')))"

text \<open>A consumer that reads until an error: the bytes it got and the error.\<close>

fun read_all :: "(ctx_state \<times> ctx_state \<times> nat \<times> read_error option) list \<Rightarrow> nat \<Rightarrow> boundCountReader \<Rightarrow> nat \<times> read_error option" where
  "read_all [] got b = (got, None)"
| "read_all ((before, after, answer) # rest) got b =
     (case Reader_Read before after answer b of
        ((n, None), b') \<Rightarrow> read_all rest (got + n) b'
      | ((n, Some e), b') \<Rightarrow> (got + n, Some e))"

text \<open>Whoever reaches the end of the archive, or is still reading without an error, has got no more bytes
  than the limit; and nobody gets more than the limit and one answer.\<close>

lemma read_all_within_limit:
  assumes "brRead b = int got" "read_all as got b = (received, e)" "e = None \<or> e = Some ReadEOF" "int got \<le> brLimit b"
  shows "int received \<le> brLimit b"
  using assms
proof (induction "as" arbitrary: b got)
  case (Cons a rest)
  obtain before after n err where a: "a = (before, after, n, err)" by (cases a)
  obtain r b' where r: "Reader_Read before after (n, err) b = (r, b')" by (cases "Reader_Read before after (n, err) b")
  show ?case
  proof (cases "snd r")
    case None
    then have b': "fst r = n" "brRead b' = int (got + n)" "brLimit b' = brLimit b" "int (got + n) \<le> brLimit b"
      using r Cons.prems(1) by (auto simp: Reader_Read_def ctx_error_def Let_def split: if_splits)
    have "r = (n, None)" using b'(1) None by (cases r) simp
    then have rest: "read_all rest (got + n) b' = (received, e)" using Cons.prems(2) a r by simp
    have "int received \<le> brLimit b'" by (rule Cons.IH [OF b'(2) rest Cons.prems(3)]) (use b'(3,4) in linarith)
    then show ?thesis using b'(3) by simp
  next
    case (Some x)
    then obtain m where m: "r = (m, Some x)" by (cases r) auto
    have "read_all (a # rest) got b = (got + m, Some x)" using a r unfolding m by simp
    then have eof: "x = ReadEOF" "received = got + m" using Cons.prems(2,3) by simp_all
    have "brRead b + int m \<le> brLimit b" using r unfolding m eof(1) by (auto simp: Reader_Read_def ctx_error_def Let_def split: if_splits)
    then show ?thesis using Cons.prems(1) eof(2) by simp
  qed
qed auto

lemma oversized_archive_is_refused:
  assumes "0 \<le> limit" "read_all as 0 \<lparr>brLimit = limit, brRead = 0\<rparr> = (received, e)" "limit < int received"
  shows "e \<noteq> None \<and> e \<noteq> Some ReadEOF"
proof -
  have "int received \<le> limit" if "e = None \<or> e = Some ReadEOF"
    using read_all_within_limit [OF _ assms(2) that] assms(1) by simp
  with assms(3) show ?thesis by force
qed

end
