(* ===== verification/Spec2Isabelle.thy ===== *)
theory Spec2Isabelle
  imports Command_Lines Bounded_Reader
begin

text \<open>
  InstallGate: a verification development of the local npm registry firewall under \<^verbatim>\<open>src/\<close>.

  The program sits between npm and the registry. A request for a package reaches the gateway, which
  classifies it, has the release evaluated and, for a tarball, quarantines the archive before it is
  delivered. An evaluation asks the evidence providers, assembles their signals into a snapshot,
  applies the policy, lets a human approval lift a hold, and records decision and snapshot in the
  audit log of an SQLite database. The command line manages the npm configuration, approvals, the log
  and the daemon; an MCP server offers agents a read-only view.

  \<^bold>\<open>Parts, theories and sources\<close> (under \<^verbatim>\<open>src/\<close>; functions and types keep the names of the code, with
  the name of the type in front where two types share one).

  Base: \<open>Prelude\<close> (Go strings, bytes and runes, maps as association lists, sorting, instants as
  nanoseconds since year 1), \<open>Timefmt\<close> and \<open>Timeparse\<close> (decimal numbers, RFC 3339), \<open>Gopath\<close> (the
  slash-separated paths of \<^verbatim>\<open>path\<close>).

  Evidence: \<open>Verdict\<close> (\<^verbatim>\<open>internal/verdict/model.go\<close>), \<open>Freshness\<close> (\<^verbatim>\<open>internal/evidence/freshness.go\<close>,
  \<^verbatim>\<open>provider.go\<close>), \<open>Snapshot\<close> (\<^verbatim>\<open>snapshot.go\<close>), \<open>Evidence_Cache\<close> (\<^verbatim>\<open>cache.go\<close>), \<open>Assembler\<close>
  (\<^verbatim>\<open>assembler.go\<close>), \<open>Registry_Call\<close> (the HTTP call the providers share), \<open>Advisory\<close>
  (\<^verbatim>\<open>advisory.go\<close>), \<open>Publish_History\<close> (\<^verbatim>\<open>history.go\<close>), \<open>Provenance\<close> (\<^verbatim>\<open>provenance.go\<close>), \<open>Confusion\<close>
  (\<^verbatim>\<open>confusion.go\<close>), \<open>Providers\<close> (the four as interpretations of one contract, through assembler and
  policy).

  Decisions: \<open>Policy\<close> (\<^verbatim>\<open>internal/policy\<close>), \<open>Pipeline\<close> (assembler and policy together), \<open>Explanation\<close>
  (\<^verbatim>\<open>internal/explanation/document.go\<close>, \<^verbatim>\<open>sanitize.go\<close>, \<^verbatim>\<open>render_human.go\<close>), \<open>Decision_Store\<close>
  (\<^verbatim>\<open>store.go\<close>, \<^verbatim>\<open>render_json.go\<close>), \<open>Engine\<close> (\<^verbatim>\<open>internal/gateway/engine.go\<close>).

  Storage: \<open>Store\<close> (\<^verbatim>\<open>internal/store/store.go\<close>, \<^verbatim>\<open>sqlite.go\<close>, \<^verbatim>\<open>sanitize.go\<close>), \<open>Migrations\<close>
  (\<^verbatim>\<open>migrations.go\<close>), \<open>Audit_Log\<close> (\<^verbatim>\<open>audit.go\<close> and all sequences of store operations),
  \<open>Database_File\<close> (opening, backing up).

  Quarantine: \<open>Digest\<close> (\<^verbatim>\<open>internal/quarantine/digest.go\<close>), \<open>Blobstore\<close> (\<^verbatim>\<open>metadata.go\<close>,
  \<^verbatim>\<open>blobstore.go\<close>), \<open>Inspect\<close> (\<^verbatim>\<open>inspect.go\<close>), \<open>Archive\<close> and \<open>Bounded_Reader\<close> (\<^verbatim>\<open>archive.go\<close>),
  \<open>Manager\<close> (\<^verbatim>\<open>manager.go\<close>).

  Gateway and front ends: \<open>Classify\<close> (\<^verbatim>\<open>internal/gateway/classify.go\<close>), \<open>Http\<close> and \<open>Gateway\<close>
  (\<^verbatim>\<open>transport.go\<close>), \<open>Mcp\<close> (\<^verbatim>\<open>internal/mcpserver/server.go\<close>), \<open>Npmrc\<close> (\<^verbatim>\<open>internal/config/npmrc.go\<close>),
  \<open>Lifecycle\<close> (\<^verbatim>\<open>store.go\<close>, \<^verbatim>\<open>journal.go\<close>, \<^verbatim>\<open>lifecycle.go\<close>), \<open>Cli_Base\<close>, \<open>Cli\<close>, \<open>Daemon\<close> and
  \<open>Installgate\<close> (\<^verbatim>\<open>cmd/installgate/main.go\<close>, \<^verbatim>\<open>server.go\<close>), \<open>Command_Lines\<close> (their properties).

  \<^bold>\<open>How state is modelled.\<close> A struct is a record, its methods are functions from the record to a result
  and the record after the call, errors are values of a sum or option type. The database is the record
  \<open>SQLiteStore\<close> of its tables; a statement is the list operation it denotes. The quarantine's disk and
  the npm configuration are explicit file maps: \<open>Lifecycle\<close> runs in a small monad over a world whose
  script of fates lets every file operation succeed, fail or be the moment the process dies. The
  gateway threads one record through a request, the command line threads the record \<open>host\<close> through
  a command. Interfaces of the code are records of operations with a locale for their contract
  (caches, quarantine stores, decision stores, the engine's store, evidence providers, session
  preorders), interpreted on the program's own implementations.

  \<^bold>\<open>What is shown.\<close>
  Delivery: a tarball is delivered only if the release was cleared, the archive was inspected without a
  dangerous script and the bytes match the expected digest twice; a held package is never fetched; no
  client credentials go upstream; every pin taken for a request is given back.
  Evaluation: core evidence blocks under every policy, an outage never becomes a silent allow, a
  stricter policy never gives a weaker verdict, an approval lifts a hold and never a block; the
  providers answer well-formed outcomes whatever the registry does, and what they conclude is
  characterised from the registry's data. The edit distance of the confusion provider equals the
  recursive definition.
  Recording: on every reachable database the log is append-only with consecutive identifiers,
  revocation is final, a decision can be rebuilt from its event with the judged snapshot, an export
  is the whole log, an interrupted migration resumes; a file store of decisions refines a map.
  Quarantine: accepted archives hold safe paths only, the store stays within its budget, its
  accounting is exact and pinned blobs stay.
  Configuration: enabling and disabling survive a crash at every file operation, and together they
  restore the file byte for byte.
  Front ends: a whole MCP session changes nothing but the log, every mutation attempt is refused and
  recorded, and the loop answers every message; usage errors and dry runs of the command line change
  nothing, every sequence of its commands is a sequence of store operations, approve and deny take
  effect in every engine, restore undoes to the backup, the daemon's child gets the options asked for.

  \<^bold>\<open>Parameters.\<close> Code outside \<^verbatim>\<open>src/\<close> and the environment are arguments of the definitions: the
  network, hash functions, JSON, YAML, gzip, tar and URL coding, compiled regular expressions, the row
  order of an unordered query, the success of system calls and statements, \<^verbatim>\<open>time.ParseDuration\<close>, and
  the clock, read once per request or command. Where a property relies on such a function, its
  documented behaviour is a named hypothesis, and the witness of the property instantiates it.

  \<^bold>\<open>Bounds and fuel.\<close> Loops recurse on their data or have a measure: the eviction loop on the number of
  blobs, the export on the rows left, the decoding of runes on the bytes left (fuel is the length of
  the string, and each step consumes a byte). Sizes and counters are integers; \<^verbatim>\<open>int64\<close> wrap-around is
  written out where the code can reach it (saturating difference of instants, \<^verbatim>\<open>UnixNano\<close>, \<^verbatim>\<open>Atoi\<close>).

  \<^bold>\<open>Not modelled.\<close> The compatibility harness (\<^verbatim>\<open>internal/compat\<close>) is test support that drives real
  package managers. Locks and goroutines are left out: the operations under a lock are atomic steps,
  and interleavings are sequences of them. The serving phase of \<^verbatim>\<open>start --foreground\<close> is not composed
  with the command line; what a request does is shown in \<open>Gateway\<close>. What an audit export wrote before
  it failed is not part of a command's result.
\<close>

end
